(* ===== verification/Floats.thy ===== *)
theory Floats
  imports Complex_Main
begin

text \<open>
  Floating-point values of the sources (\<open>f64\<close>, \<open>f32\<close>): a real number, an infinity or NaN.
  Comparisons follow IEEE 754 (every comparison with NaN is false). Arithmetic computes the
  exact real result and hands it to a rounding function, which is an argument of the
  definitions that calculate; \<open>ieee_rounding\<close> states what IEEE 754 promises of the \<open>f64\<close>
  rounding: it is monotone and exact on numbers with at most 53 significant bits.
\<close>

datatype fp = Fin real | PInf | NInf | NaN

type_synonym rounding = "real \<Rightarrow> fp"

instantiation fp :: ord
begin

fun less_eq_fp :: "fp \<Rightarrow> fp \<Rightarrow> bool" where
  "less_eq_fp (Fin a) (Fin b) = (a \<le> b)"
| "less_eq_fp NInf y = (y \<noteq> NaN)"
| "less_eq_fp x PInf = (x \<noteq> NaN)"
| "less_eq_fp x y = False"

definition less_fp :: "fp \<Rightarrow> fp \<Rightarrow> bool" where
  "less_fp x y \<longleftrightarrow> x \<le> y \<and> \<not> y \<le> x"

instance ..

end

fun fp_abs :: "fp \<Rightarrow> fp" where
  "fp_abs (Fin a) = Fin \<bar>a\<bar>"
| "fp_abs NInf = PInf"
| "fp_abs x = x"

text \<open>\<open>f64::min\<close>: the other operand when one is NaN.\<close>

definition fp_min :: "fp \<Rightarrow> fp \<Rightarrow> fp" where
  "fp_min x y = (if x = NaN then y else if y = NaN then x else if x \<le> y then x else y)"

fun fp_neg :: "fp \<Rightarrow> fp" where
  "fp_neg (Fin a) = Fin (- a)"
| "fp_neg PInf = NInf"
| "fp_neg NInf = PInf"
| "fp_neg NaN = NaN"

fun fp_add :: "rounding \<Rightarrow> fp \<Rightarrow> fp \<Rightarrow> fp" where
  "fp_add rnd (Fin a) (Fin b) = rnd (a + b)"
| "fp_add rnd NaN y = NaN"
| "fp_add rnd x NaN = NaN"
| "fp_add rnd PInf NInf = NaN"
| "fp_add rnd NInf PInf = NaN"
| "fp_add rnd PInf y = PInf"
| "fp_add rnd NInf y = NInf"
| "fp_add rnd (Fin a) y = y"

definition fp_sub :: "rounding \<Rightarrow> fp \<Rightarrow> fp \<Rightarrow> fp" where
  "fp_sub rnd x y = fp_add rnd x (fp_neg y)"

text \<open>Products and quotients occur with finite operands only; a quotient by zero is an
  infinity, or NaN for \<open>0/0\<close>.\<close>

definition fp_mul_fin :: "rounding \<Rightarrow> real \<Rightarrow> real \<Rightarrow> fp" where
  "fp_mul_fin rnd a b = rnd (a * b)"

definition fp_div_fin :: "rounding \<Rightarrow> real \<Rightarrow> real \<Rightarrow> fp" where
  "fp_div_fin rnd a b =
     (if b = 0 then (if a = 0 then NaN else if a > 0 then PInf else NInf) else rnd (a / b))"

definition ieee_rounding :: "rounding \<Rightarrow> bool" where
  "ieee_rounding rnd \<longleftrightarrow>
     (\<forall>x y. x \<le> y \<longrightarrow> rnd x \<le> rnd y) \<and>
     (\<forall>(m::int) (k::nat). \<bar>m\<bar> \<le> 2 ^ 53 \<and> k \<le> 1000 \<longrightarrow>
        rnd (of_int m / 2 ^ k) = Fin (of_int m / 2 ^ k))"

lemma fp_less_simps [simp]:
  "Fin a < Fin b \<longleftrightarrow> a < b"
  "Fin a < PInf" "NInf < Fin a" "NInf < PInf"
  "\<not> PInf < x" "\<not> x < NInf" "\<not> NaN < x" "\<not> x < NaN"
  by (auto simp: less_fp_def elim: less_eq_fp.elims)

lemma fp_le_nan [simp]: "\<not> NaN \<le> x" "\<not> x \<le> NaN"
  by (cases x; simp)+

lemma fp_between:
  "Fin a \<le> x \<Longrightarrow> x \<le> Fin b \<Longrightarrow> \<exists>r. x = Fin r \<and> a \<le> r \<and> r \<le> b"
  by (cases x) auto

lemma ieee_mono: "ieee_rounding rnd \<Longrightarrow> x \<le> y \<Longrightarrow> rnd x \<le> rnd y"
  by (simp add: ieee_rounding_def)

lemma ieee_exact:
  "ieee_rounding rnd \<Longrightarrow> \<bar>m\<bar> \<le> 2 ^ 53 \<Longrightarrow> k \<le> 1000 \<Longrightarrow>
   rnd (of_int m / 2 ^ k) = Fin (of_int m / 2 ^ k)"
  by (simp add: ieee_rounding_def)

lemma ieee_exact_int: "ieee_rounding rnd \<Longrightarrow> \<bar>m\<bar> \<le> 2 ^ 53 \<Longrightarrow> rnd (of_int m) = Fin (of_int m)"
  using ieee_exact [of rnd m 0] by simp

text \<open>Rounding a real between two representable bounds stays between them.\<close>

lemma ieee_between:
  assumes "ieee_rounding rnd" and "rnd a = Fin a" and "rnd b = Fin b" and "a \<le> x" and "x \<le> b"
  shows "\<exists>r. rnd x = Fin r \<and> a \<le> r \<and> r \<le> b"
proof -
  have "Fin a \<le> rnd x" using ieee_mono [OF assms(1,4)] assms(2) by simp
  moreover have "rnd x \<le> Fin b" using ieee_mono [OF assms(1,5)] assms(3) by simp
  ultimately show ?thesis by (rule fp_between)
qed

text \<open>Exact arithmetic satisfies the promise, so hypotheses that mention it can hold.\<close>

lemma ieee_rounding_exact: "ieee_rounding Fin"
  by (simp add: ieee_rounding_def)

end
