(* ===== verification/Prelude.thy ===== *)
theory Prelude
  imports Main "HOL-Library.Word" "HOL-Library.List_Lexorder" "HOL-Library.Char_ord"
begin

text \<open>
  Shared ground of the development: the machine types of the Rust sources, the value of a
  computation that may panic, Rust's checked slices, the iteration order of a hash map, and
  two interfaces stated as locales: a keyed store (the node registry and the task table of
  the hub both implement it) and a transition relation with an inductive invariant (the
  hub, the election state and the role loop of a node implement it).
\<close>

subsection \<open>Machine types\<close>

type_synonym u8 = "8 word"
type_synonym u32 = "32 word"
type_synonym u64 = "64 word"
type_synonym usize = "64 word"
type_synonym i32 = "32 word"
type_synonym i64 = "64 word"
type_synonym bytes = "u8 list"

text \<open>
  A signed \<open>i32\<close> or \<open>i64\<close> is the same bit pattern read with \<open>sint\<close>. A \<open>usize\<close> is taken to
  be 64 bits wide. A Rust \<open>String\<close> is its UTF-8 bytes, kept as a \<open>char list\<close>: a \<open>char\<close> of
  HOL is one byte.
\<close>

definition as_bytes :: "string \<Rightarrow> bytes" where
  "as_bytes s = map of_char s"

definition bytes_string :: "bytes \<Rightarrow> string" where
  "bytes_string bs = map (\<lambda>b. char_of (unat b)) bs"

subsection \<open>Computations that may panic\<close>

datatype 'a outcome = Returns 'a | Panics

fun and_then :: "'a outcome \<Rightarrow> ('a \<Rightarrow> 'b outcome) \<Rightarrow> 'b outcome" where
  "and_then (Returns x) f = f x"
| "and_then Panics f = Panics"

text \<open>\<open>&s[a..b]\<close>: panics unless \<open>a <= b\<close> and \<open>b <= s.len()\<close>.\<close>

definition slice :: "'a list \<Rightarrow> nat \<Rightarrow> nat \<Rightarrow> 'a list outcome" where
  "slice s a b = (if a \<le> b \<and> b \<le> length s then Returns (take (b - a) (drop a s)) else Panics)"

text \<open>The developments' collections: definitions unfolded by a component's proofs, and the
  rewrite rules of the operations.\<close>

named_theorems store_simps
named_theorems frame_simps

subsection \<open>Bytes and strings\<close>

lemma of_char_word_unat: "unat (of_char c :: u8) = of_char c"
proof -
  have "of_char c < (256::nat)" by simp
  then have "take_bit 8 (of_char c :: nat) = of_char c"
    by (intro take_bit_nat_eq_self) simp
  moreover have "(of_char c :: u8) = word_of_nat (of_char c)"
    by (simp only: of_nat_of_char)
  ultimately show ?thesis
    by (simp only: unsigned_of_nat) simp
qed

lemma bytes_string_as_bytes [simp]: "bytes_string (as_bytes s) = s"
  by (simp add: bytes_string_def as_bytes_def comp_def of_char_word_unat map_idI)

lemma as_bytes_inj: "as_bytes s = as_bytes t \<longleftrightarrow> s = t"
  by (metis bytes_string_as_bytes)

lemma length_as_bytes [simp]: "length (as_bytes s) = length s"
  by (simp add: as_bytes_def)

lemma as_bytes_bytes_string [simp]: "as_bytes (bytes_string bs) = bs"
proof -
  have "(of_char (char_of (unat b)) :: u8) = b" for b :: u8
  proof -
    have "unat b < 256" using unsigned_less [of b, where ?'a = nat] by simp
    then have "(of_char (char_of (unat b)) :: nat) = unat b" by simp
    then have "unat (of_char (char_of (unat b)) :: u8) = unat b"
      by (simp only: of_char_word_unat)
    then show ?thesis by (rule unsigned_word_eqI)
  qed
  then show ?thesis by (simp add: as_bytes_def bytes_string_def comp_def map_idI)
qed

subsection \<open>Slices\<close>

lemma slice_Returns_iff:
  "slice s a b = Returns t \<longleftrightarrow> a \<le> b \<and> b \<le> length s \<and> t = take (b - a) (drop a s)"
  by (auto simp: slice_def)

lemma slice_Panics_iff: "slice s a b = Panics \<longleftrightarrow> \<not> (a \<le> b \<and> b \<le> length s)"
  by (simp add: slice_def)

lemma slice_middle: "length xs = a \<Longrightarrow> slice (xs @ ys @ zs) a (a + length ys) = Returns ys"
  by (simp add: slice_def)

subsection \<open>Hash maps and their iteration order\<close>

text \<open>
  A Rust \<open>HashMap\<close> iterates in an order the program cannot know (it depends on the hash
  seed of the process). A map is a partial function, and every operation that iterates takes
  the order of that iteration as an argument, a list of the keys; theorems hold for every
  order that \<open>iterates\<close> accepts.
\<close>

definition iterates :: "('k \<rightharpoonup> 'v) \<Rightarrow> 'k list \<Rightarrow> bool" where
  "iterates m ks \<longleftrightarrow> distinct ks \<and> set ks = dom m"

definition values_in :: "('k \<rightharpoonup> 'v) \<Rightarrow> 'k list \<Rightarrow> 'v list" where
  "values_in m ks = List.map_filter m ks"

definition entries_in :: "('k \<rightharpoonup> 'v) \<Rightarrow> 'k list \<Rightarrow> ('k \<times> 'v) list" where
  "entries_in m ks = List.map_filter (\<lambda>k. map_option (Pair k) (m k)) ks"

text \<open>\<open>HashMap::retain\<close> decides each entry on its own.\<close>

definition retain :: "('k \<Rightarrow> 'v \<Rightarrow> bool) \<Rightarrow> ('k \<rightharpoonup> 'v) \<Rightarrow> ('k \<rightharpoonup> 'v)" where
  "retain P m = (\<lambda>k. case m k of None \<Rightarrow> None | Some v \<Rightarrow> if P k v then Some v else None)"

lemma values_in_Nil [simp]: "values_in m [] = []"
  by (simp add: values_in_def)

lemma values_in_Cons [simp]:
  "values_in m (k # ks) = (case m k of None \<Rightarrow> values_in m ks | Some v \<Rightarrow> v # values_in m ks)"
  by (simp add: values_in_def split: option.split)

lemma entries_in_Nil [simp]: "entries_in m [] = []"
  by (simp add: entries_in_def)

lemma entries_in_Cons [simp]:
  "entries_in m (k # ks) =
     (case m k of None \<Rightarrow> entries_in m ks | Some v \<Rightarrow> (k, v) # entries_in m ks)"
  by (simp add: entries_in_def split: option.split)

lemma set_values_in: "set (values_in m ks) = {v. \<exists>k\<in>set ks. m k = Some v}"
  by (induction ks) (auto split: option.splits)

lemma set_entries_in: "set (entries_in m ks) = {(k, v). k \<in> set ks \<and> m k = Some v}"
  by (induction ks) (auto split: option.splits)

lemma iterates_set_values: "iterates m ks \<Longrightarrow> set (values_in m ks) = ran m"
  by (auto simp: iterates_def set_values_in ran_def)

lemma iterates_set_entries: "iterates m ks \<Longrightarrow> set (entries_in m ks) = {(k, v). m k = Some v}"
  by (auto simp: iterates_def set_entries_in)

lemma iterates_length_values: "iterates m ks \<Longrightarrow> length (values_in m ks) = card (dom m)"
proof -
  assume it: "iterates m ks"
  have "length (values_in m js) = length js" if "set js \<subseteq> dom m" for js
    using that by (induction js) (auto split: option.splits)
  with it have "length (values_in m ks) = length ks" by (simp add: iterates_def)
  with it show ?thesis by (simp add: iterates_def flip: distinct_card)
qed

lemma iterates_Nil_iff: "iterates m [] \<longleftrightarrow> m = Map.empty"
  by (auto simp: iterates_def dom_def)

lemma values_in_Nil_iff: "iterates m ks \<Longrightarrow> values_in m ks = [] \<longleftrightarrow> m = Map.empty"
proof -
  assume it: "iterates m ks"
  then have "finite (dom m)" by (metis iterates_def List.finite_set)
  then show ?thesis
    using iterates_length_values [OF it] by (metis card_0_eq dom_eq_empty_conv length_0_conv)
qed

lemma retain_Some_iff [simp]: "retain P m k = Some v \<longleftrightarrow> m k = Some v \<and> P k v"
  by (auto simp: retain_def split: option.splits)

lemma retain_None_iff: "retain P m k = None \<longleftrightarrow> (\<forall>v. m k = Some v \<longrightarrow> \<not> P k v)"
  by (auto simp: retain_def split: option.splits)

lemma retain_retain: "retain P (retain Q m) = retain (\<lambda>k v. Q k v \<and> P k v) m"
  by (auto simp: retain_def fun_eq_iff split: option.splits)

subsection \<open>Words\<close>

lemma word_less_imp_Suc_unat: "(a :: 'a::len word) < b \<Longrightarrow> unat (a + 1) = unat a + 1"
proof -
  assume "a < b"
  then have "a \<noteq> - 1" by (metis word_n1_ge leD)
  then have "1 + a \<noteq> 0" by (metis add.commute add_eq_0_iff add.inverse_inverse)
  then show ?thesis by (simp add: unatSuc add.commute)
qed

lemma word_diff_unat: "(b :: 'a::len word) \<le> a \<Longrightarrow> unat (a - b) = unat a - unat b"
  by (rule unat_sub)

subsection \<open>Interfaces\<close>

text \<open>
  A keyed store: a table of values, each filed under its own key. The invariant \<open>ok\<close> is
  what the store needs to work (an unpoisoned lock).
\<close>

locale keyed_store =
  fixes key :: "'v \<Rightarrow> 'k"
    and look :: "'s \<Rightarrow> 'k \<Rightarrow> 'v option"
    and put :: "'s \<Rightarrow> 'v \<Rightarrow> 's"
    and ok :: "'s \<Rightarrow> bool"
  assumes look_put: "ok s \<Longrightarrow> look (put s v) k = (if k = key v then Some v else look s k)"
    and ok_put: "ok s \<Longrightarrow> ok (put s v)"
begin

definition well_keyed :: "'s \<Rightarrow> bool" where
  "well_keyed s \<longleftrightarrow> (\<forall>k v. look s k = Some v \<longrightarrow> key v = k)"

lemma well_keyed_put: "ok s \<Longrightarrow> well_keyed s \<Longrightarrow> well_keyed (put s v)"
  by (simp add: well_keyed_def look_put)

lemma ok_fold: "ok s \<Longrightarrow> ok (fold (\<lambda>v s. put s v) vs s)"
  by (induction vs arbitrary: s) (simp_all add: ok_put)

text \<open>After any sequence of insertions a key holds the last value filed under it.\<close>

lemma look_fold:
  "ok s \<Longrightarrow> look (fold (\<lambda>v s. put s v) vs s) k =
     (case find (\<lambda>v. key v = k) (rev vs) of Some v \<Rightarrow> Some v | None \<Rightarrow> look s k)"
proof (induction vs rule: rev_induct)
  case Nil
  then show ?case by simp
next
  case (snoc v vs)
  then show ?case by (auto simp: look_put ok_fold)
qed

lemma well_keyed_fold:
  "ok s \<Longrightarrow> well_keyed s \<Longrightarrow> well_keyed (fold (\<lambda>v s. put s v) vs s)"
  by (induction vs arbitrary: s) (simp_all add: ok_put well_keyed_put)

end

text \<open>A keyed store that also forgets.\<close>

locale deleting_store = keyed_store key look put ok
  for key :: "'v \<Rightarrow> 'k" and look :: "'s \<Rightarrow> 'k \<Rightarrow> 'v option"
    and put :: "'s \<Rightarrow> 'v \<Rightarrow> 's" and ok :: "'s \<Rightarrow> bool" +
  fixes del :: "'s \<Rightarrow> 'k \<Rightarrow> 's"
  assumes look_del: "ok s \<Longrightarrow> look (del s d) k = (if k = d then None else look s k)"
    and ok_del: "ok s \<Longrightarrow> ok (del s d)"
begin

lemma well_keyed_del: "ok s \<Longrightarrow> well_keyed s \<Longrightarrow> well_keyed (del s d)"
  by (simp add: well_keyed_def look_del)

lemma put_del: "ok s \<Longrightarrow> look (del (put s v) (key v)) k = look (del s (key v)) k"
  by (simp add: look_del look_put ok_put)

end

text \<open>A transition relation with an inductive invariant.\<close>

locale invariant_system =
  fixes step :: "'s \<Rightarrow> 's \<Rightarrow> bool"
    and inv :: "'s \<Rightarrow> bool"
  assumes step_inv: "step s t \<Longrightarrow> inv s \<Longrightarrow> inv t"
begin

lemma run_inv: "step\<^sup>*\<^sup>* s t \<Longrightarrow> inv s \<Longrightarrow> inv t"
  by (induction rule: rtranclp_induct) (auto intro: step_inv)

text \<open>A quantity that no step increases is bounded by its start value along every run.\<close>

lemma run_antimono:
  fixes f :: "'s \<Rightarrow> nat"
  assumes "\<And>u v. inv u \<Longrightarrow> step u v \<Longrightarrow> f v \<le> f u"
    and "step\<^sup>*\<^sup>* s t" and "inv s"
  shows "f t \<le> f s"
  using assms(2,3)
proof (induction rule: rtranclp_induct)
  case base
  then show ?case by simp
next
  case (step u v)
  then have "f v \<le> f u" using assms(1) run_inv by blast
  with step show ?case by simp
qed

end

end
