(* ===== verification/Utf8.thy ===== *)
theory Utf8
  imports Prelude
begin

text \<open>
  The two conversions from bytes to \<open>String\<close> of the Rust standard library that the program
  uses: the strict \<open>str::from_utf8\<close> (mDNS datagrams) and the total
  \<open>String::from_utf8_lossy\<close> (join frames, prompts, output of child processes), which puts
  U+FFFD for each maximal ill-formed piece.
\<close>

definition cont_byte :: "u8 \<Rightarrow> bool" where
  "cont_byte b \<longleftrightarrow> 128 \<le> b \<and> b \<le> 191"

definition byte_at :: "bytes \<Rightarrow> nat \<Rightarrow> u8" where
  "byte_at bs i = (if i < length bs then bs ! i else 0)"

text \<open>The second byte is restricted after the lead bytes E0, ED, F0 and F4 (no overlong
  form, no surrogate, nothing above U+10FFFF).\<close>

definition second_ok :: "u8 \<Rightarrow> u8 \<Rightarrow> bool" where
  "second_ok b c \<longleftrightarrow>
     (if b = 0xE0 then 0xA0 \<le> c \<and> c \<le> 0xBF
      else if b = 0xED then 0x80 \<le> c \<and> c \<le> 0x9F
      else if b = 0xF0 then 0x90 \<le> c \<and> c \<le> 0xBF
      else if b = 0xF4 then 0x80 \<le> c \<and> c \<le> 0x8F
      else cont_byte c)"

text \<open>The first sequence of a non-empty input: is it well-formed, and how many bytes it takes.\<close>

definition utf8_head :: "bytes \<Rightarrow> bool \<times> nat" where
  "utf8_head bs =
     (let b = byte_at bs 0; b1 = byte_at bs 1; b2 = byte_at bs 2; b3 = byte_at bs 3 in
      if b < 0x80 then (True, 1)
      else if 0xC2 \<le> b \<and> b \<le> 0xDF then (if cont_byte b1 then (True, 2) else (False, 1))
      else if 0xE0 \<le> b \<and> b \<le> 0xEF then
        (if second_ok b b1 then (if cont_byte b2 then (True, 3) else (False, 2))
         else (False, 1))
      else if 0xF0 \<le> b \<and> b \<le> 0xF4 then
        (if second_ok b b1 then
           (if cont_byte b2 then (if cont_byte b3 then (True, 4) else (False, 3))
            else (False, 2))
         else (False, 1))
      else (False, 1))"

lemma utf8_head_pos: "utf8_head bs = (ok, n) \<Longrightarrow> 0 < n"
  by (auto simp: utf8_head_def Let_def split: if_splits)

function utf8_valid :: "bytes \<Rightarrow> bool" where
  "utf8_valid [] = True"
| "utf8_valid (b # bs) =
     (case utf8_head (b # bs) of (ok, n) \<Rightarrow> ok \<and> utf8_valid (drop n (b # bs)))"
  by pat_completeness auto
termination
  by (relation "measure length") (auto dest!: utf8_head_pos [OF sym])

function utf8_lossy :: "bytes \<Rightarrow> bytes" where
  "utf8_lossy [] = []"
| "utf8_lossy (b # bs) =
     (case utf8_head (b # bs) of (ok, n) \<Rightarrow>
       (if ok then take n (b # bs) else [0xEF, 0xBF, 0xBD]) @ utf8_lossy (drop n (b # bs)))"
  by pat_completeness auto
termination
  by (relation "measure length") (auto dest!: utf8_head_pos [OF sym])

declare utf8_valid.simps(2) [simp del] utf8_lossy.simps(2) [simp del]

definition from_utf8 :: "bytes \<Rightarrow> string option" where
  "from_utf8 bs = (if utf8_valid bs then Some (bytes_string bs) else None)"

definition from_utf8_lossy :: "bytes \<Rightarrow> string" where
  "from_utf8_lossy bs = bytes_string (utf8_lossy bs)"

subsection \<open>Correctness of the decoder\<close>

lemma byte_at_append: "i < length xs \<Longrightarrow> byte_at (xs @ ys) i = byte_at xs i"
  by (simp add: byte_at_def nth_append)

lemma byte_at_take: "i < n \<Longrightarrow> byte_at (take n xs) i = byte_at xs i"
  by (simp add: byte_at_def)

lemma byte_at_nonzero: "byte_at bs i \<noteq> 0 \<Longrightarrow> i < length bs"
  by (simp add: byte_at_def split: if_splits)

lemma cont_byte_nonzero: "cont_byte c \<Longrightarrow> c \<noteq> 0"
  by (auto simp: cont_byte_def)

lemma second_ok_nonzero: "second_ok b c \<Longrightarrow> c \<noteq> 0"
  by (auto simp: second_ok_def cont_byte_def split: if_splits)

lemma utf8_head_fits: "bs \<noteq> [] \<Longrightarrow> utf8_head bs = (True, n) \<Longrightarrow> n \<le> length bs"
  by (auto simp: utf8_head_def Let_def Suc_le_eq numeral_2_eq_2 numeral_3_eq_3 numeral_eq_Suc
      dest!: cont_byte_nonzero second_ok_nonzero byte_at_nonzero split: if_splits)

lemma utf8_head_prefix:
  assumes "utf8_head bs = (True, n)" and "bs \<noteq> []"
  shows "utf8_head (take n bs @ ys) = (True, n)"
proof -
  have same: "byte_at (take n bs @ ys) i = byte_at bs i" if "i < n" for i
    using that utf8_head_fits [OF assms(2,1)]
    by (simp add: byte_at_append byte_at_take)
  have "n = 1 \<or> n = 2 \<or> n = 3 \<or> n = 4"
    using assms(1) by (auto simp: utf8_head_def Let_def split: if_splits)
  then show ?thesis
    using assms(1) same [of 0] same [of 1] same [of 2] same [of 3]
    by (auto simp: utf8_head_def Let_def split: if_splits)
qed

lemma utf8_valid_unfold:
  "bs \<noteq> [] \<Longrightarrow> utf8_valid bs \<longleftrightarrow>
     fst (utf8_head bs) \<and> utf8_valid (drop (snd (utf8_head bs)) bs)"
  by (cases bs) (auto simp: utf8_valid.simps(2) split: prod.split)

lemma utf8_valid_seq:
  assumes "utf8_head bs = (True, n)" and "bs \<noteq> []" and "utf8_valid ys"
  shows "utf8_valid (take n bs @ ys)"
proof -
  from utf8_head_pos [OF assms(1)] assms(2) have ne: "take n bs @ ys \<noteq> []" by simp
  show ?thesis
    using utf8_head_fits [OF assms(2,1)] assms(3)
    by (simp add: utf8_valid_unfold [OF ne] utf8_head_prefix [OF assms(1,2)])
qed

lemma utf8_valid_append: "utf8_valid xs \<Longrightarrow> utf8_valid ys \<Longrightarrow> utf8_valid (xs @ ys)"
proof (induction xs rule: utf8_valid.induct)
  case 1
  then show ?case by simp
next
  case (2 b bs)
  obtain ok n where h: "utf8_head (b # bs) = (ok, n)" by fastforce
  with "2.prems" have ok: "ok" and rest: "utf8_valid (drop n (b # bs))"
    by (simp_all add: utf8_valid.simps(2))
  have "utf8_valid (drop n (b # bs) @ ys)"
    using "2.IH" h rest "2.prems"(2) by simp
  with utf8_valid_seq [of "b # bs" n] h ok
  have "utf8_valid (take n (b # bs) @ drop n (b # bs) @ ys)" by simp
  then show ?case by (metis append_assoc append_take_drop_id)
qed

lemma utf8_lossy_valid_id: "utf8_valid bs \<Longrightarrow> utf8_lossy bs = bs"
proof (induction bs rule: utf8_lossy.induct)
  case 1
  then show ?case by simp
next
  case (2 b bs)
  obtain ok n where h: "utf8_head (b # bs) = (ok, n)" by fastforce
  with "2.prems" have "ok" and "utf8_valid (drop n (b # bs))"
    by (simp_all add: utf8_valid.simps(2))
  with "2.IH" h show ?case by (simp add: utf8_lossy.simps(2))
qed

lemma replacement_valid: "utf8_valid [0xEF, 0xBF, 0xBD]"
  by (simp add: utf8_valid.simps(2) utf8_head_def byte_at_def second_ok_def cont_byte_def)

lemma utf8_lossy_is_valid: "utf8_valid (utf8_lossy bs)"
proof (induction bs rule: utf8_lossy.induct)
  case 1
  then show ?case by simp
next
  case (2 b bs)
  obtain ok n where h: "utf8_head (b # bs) = (ok, n)" by fastforce
  then have rest: "utf8_valid (utf8_lossy (drop n (b # bs)))" using "2.IH" by simp
  show ?case
  proof (cases ok)
    case True
    with h rest utf8_valid_seq [of "b # bs" n] show ?thesis
      by (simp add: utf8_lossy.simps(2))
  next
    case False
    with h utf8_valid_append [OF replacement_valid rest] show ?thesis
      by (simp add: utf8_lossy.simps(2))
  qed
qed

text \<open>ASCII text is well-formed.\<close>

lemma utf8_valid_ascii: "\<forall>b\<in>set bs. b < 0x80 \<Longrightarrow> utf8_valid bs"
  by (induction bs) (simp_all add: utf8_valid.simps(2) utf8_head_def byte_at_def)

lemma from_utf8_as_bytes:
  "\<forall>c\<in>set s. of_char c < (128 :: nat) \<Longrightarrow> from_utf8 (as_bytes s) = Some s"
proof -
  assume a: "\<forall>c\<in>set s. of_char c < (128 :: nat)"
  have "\<forall>b\<in>set (as_bytes s). b < 0x80"
    using a by (auto simp: as_bytes_def word_less_nat_alt of_char_word_unat)
  then show ?thesis by (simp add: from_utf8_def utf8_valid_ascii)
qed

lemma from_utf8_lossy_valid: "utf8_valid (as_bytes s) \<Longrightarrow> from_utf8_lossy (as_bytes s) = s"
  by (simp add: from_utf8_lossy_def utf8_lossy_valid_id)

end
