(* ===== verification/RustStr.thy ===== *)
theory RustStr
  imports Utf8 "HOL-Library.Sublist"
begin

text \<open>
  The operations of the Rust standard library on \<open>str\<close> and on numbers as text that the
  program uses: \<open>starts_with\<close>, \<open>strip_prefix\<close>, \<open>split\<close>, \<open>trim\<close>, \<open>lines\<close>,
  \<open>split_whitespace\<close>, \<open>join\<close>, \<open>parse::<u64>\<close>, the decimal printing of integers, and the
  slice \<open>&s[..n]\<close>, which panics inside a multi-byte character.
\<close>

subsection \<open>Prefixes, suffixes, pieces\<close>

definition starts_with :: "string \<Rightarrow> string \<Rightarrow> bool" where
  "starts_with s p \<longleftrightarrow> take (length p) s = p"

definition strip_prefix :: "string \<Rightarrow> string \<Rightarrow> string option" where
  "strip_prefix s p = (if starts_with s p then Some (drop (length p) s) else None)"

definition ends_with :: "string \<Rightarrow> string \<Rightarrow> bool" where
  "ends_with s p \<longleftrightarrow> length p \<le> length s \<and> drop (length s - length p) s = p"

definition strip_suffix :: "string \<Rightarrow> string \<Rightarrow> string option" where
  "strip_suffix s p = (if ends_with s p then Some (take (length s - length p) s) else None)"

fun split_on :: "char \<Rightarrow> string \<Rightarrow> string list" where
  "split_on c [] = [[]]"
| "split_on c (x # xs) =
     (if x = c then [] # split_on c xs
      else (case split_on c xs of [] \<Rightarrow> [[x]] | w # ws \<Rightarrow> (x # w) # ws))"

fun join_with :: "string \<Rightarrow> string list \<Rightarrow> string" where
  "join_with sep [] = []"
| "join_with sep [w] = w"
| "join_with sep (w # v # ws) = w @ sep @ join_with sep (v # ws)"

definition replace_char :: "char \<Rightarrow> string \<Rightarrow> string \<Rightarrow> string" where
  "replace_char c r s = concat (map (\<lambda>x. if x = c then r else [x]) s)"

text \<open>\<open>&s[..n]\<close>: panics past the end and inside a multi-byte character.\<close>

definition str_upto :: "string \<Rightarrow> nat \<Rightarrow> string outcome" where
  "str_upto s n =
     (if n \<le> length s \<and> (n = length s \<or> \<not> cont_byte (of_char (s ! n)))
      then Returns (take n s) else Panics)"

subsection \<open>White space\<close>

text \<open>The UTF-8 sequences of the characters with the Unicode property White_Space.\<close>

definition ws_chars :: "string list" where
  "ws_chars =
     [[CHR 0x09], [CHR 0x0A], [CHR 0x0B], [CHR 0x0C], [CHR 0x0D], [CHR 0x20],
      [CHR 0xC2, CHR 0x85], [CHR 0xC2, CHR 0xA0], [CHR 0xE1, CHR 0x9A, CHR 0x80],
      [CHR 0xE2, CHR 0x80, CHR 0x80], [CHR 0xE2, CHR 0x80, CHR 0x81],
      [CHR 0xE2, CHR 0x80, CHR 0x82], [CHR 0xE2, CHR 0x80, CHR 0x83],
      [CHR 0xE2, CHR 0x80, CHR 0x84], [CHR 0xE2, CHR 0x80, CHR 0x85],
      [CHR 0xE2, CHR 0x80, CHR 0x86], [CHR 0xE2, CHR 0x80, CHR 0x87],
      [CHR 0xE2, CHR 0x80, CHR 0x88], [CHR 0xE2, CHR 0x80, CHR 0x89],
      [CHR 0xE2, CHR 0x80, CHR 0x8A], [CHR 0xE2, CHR 0x80, CHR 0xA8],
      [CHR 0xE2, CHR 0x80, CHR 0xA9], [CHR 0xE2, CHR 0x80, CHR 0xAF],
      [CHR 0xE2, CHR 0x81, CHR 0x9F], [CHR 0xE3, CHR 0x80, CHR 0x80]]"

lemma ws_chars_nonempty: "w \<in> set ws_chars \<Longrightarrow> w \<noteq> []"
  by (auto simp: ws_chars_def)

definition ws_front :: "string \<Rightarrow> nat" where
  "ws_front s = (case find (starts_with s) ws_chars of None \<Rightarrow> 0 | Some w \<Rightarrow> length w)"

definition ws_back :: "string \<Rightarrow> nat" where
  "ws_back s = (case find (ends_with s) ws_chars of None \<Rightarrow> 0 | Some w \<Rightarrow> length w)"

function trim_start :: "string \<Rightarrow> string" where
  "trim_start s =
     (if s = [] \<or> ws_front s = 0 then s else trim_start (drop (ws_front s) s))"
  by pat_completeness auto
termination
  by (relation "measure length") auto

function trim_end :: "string \<Rightarrow> string" where
  "trim_end s =
     (if s = [] \<or> ws_back s = 0 then s
      else trim_end (take (length s - ws_back s) s))"
  by pat_completeness auto
termination
  by (relation "measure length") auto

definition trim :: "string \<Rightarrow> string" where
  "trim s = trim_end (trim_start s)"

declare trim_start.simps [simp del] trim_end.simps [simp del]

fun take_word :: "string \<Rightarrow> string" where
  "take_word [] = []"
| "take_word (c # s) = (if ws_front (c # s) = 0 then c # take_word s else [])"

lemma trim_start_length: "length (trim_start s) \<le> length s"
proof (induction s rule: trim_start.induct)
  case (1 s)
  show ?case
  proof (cases "s = [] \<or> ws_front s = 0")
    case True
    then show ?thesis by (subst trim_start.simps) simp
  next
    case False
    with "1.IH" show ?thesis by (subst trim_start.simps) simp
  qed
qed

lemma trim_start_no_ws: "trim_start s \<noteq> [] \<Longrightarrow> ws_front (trim_start s) = 0"
proof (induction s rule: trim_start.induct)
  case (1 s)
  show ?case
  proof (cases "s = [] \<or> ws_front s = 0")
    case True
    with "1.prems" show ?thesis by (simp add: trim_start.simps [of s])
  next
    case False
    with "1.IH" "1.prems" show ?thesis by (simp add: trim_start.simps [of s])
  qed
qed

lemma take_word_trim_pos: "trim_start s \<noteq> [] \<Longrightarrow> take_word (trim_start s) \<noteq> []"
  using trim_start_no_ws [of s] by (cases "trim_start s") auto

function split_whitespace :: "string \<Rightarrow> string list" where
  "split_whitespace s =
     (if trim_start s = [] then []
      else take_word (trim_start s) #
        split_whitespace (drop (length (take_word (trim_start s))) (trim_start s)))"
  by pat_completeness auto
termination
proof (relation "measure length", goal_cases)
  case 1
  then show ?case by simp
next
  case (2 s)
  then have "0 < length (take_word (trim_start s))" and "0 < length (trim_start s)"
    by (simp_all add: take_word_trim_pos)
  then show ?case using trim_start_length [of s] by (simp only: in_measure length_drop)
qed

declare split_whitespace.simps [simp del]

text \<open>\<open>str::lines\<close>: a terminated line loses its \<open>\n\<close> and one \<open>\r\<close> before it; an
  unterminated last line is kept as it is.\<close>

definition strip_cr :: "string \<Rightarrow> string" where
  "strip_cr l = (case strip_suffix l [CHR 0x0D] of None \<Rightarrow> l | Some l' \<Rightarrow> l')"

definition lines_of :: "string \<Rightarrow> string list" where
  "lines_of s =
     (let ps = split_on (CHR 0x0A) s in
      map strip_cr (butlast ps) @ (if last ps = [] then [] else [last ps]))"

subsection \<open>Numbers as text\<close>

definition digit_char :: "nat \<Rightarrow> char" where
  "digit_char d = char_of (48 + d)"

fun show_nat :: "nat \<Rightarrow> string" where
  "show_nat n = (if n < 10 then [digit_char n] else show_nat (n div 10) @ [digit_char (n mod 10)])"

declare show_nat.simps [simp del]

definition show_int :: "int \<Rightarrow> string" where
  "show_int i = (if i < 0 then CHR ''-'' # show_nat (nat (- i)) else show_nat (nat i))"

definition show_bool :: "bool \<Rightarrow> string" where
  "show_bool b = (if b then ''true'' else ''false'')"

definition digit_of :: "char \<Rightarrow> nat option" where
  "digit_of c = (if 48 \<le> (of_char c :: nat) \<and> of_char c \<le> (57 :: nat)
     then Some (of_char c - 48) else None)"

fun parse_digits :: "nat \<Rightarrow> nat \<Rightarrow> string \<Rightarrow> nat option" where
  "parse_digits bound acc [] = Some acc"
| "parse_digits bound acc (c # cs) =
     (case digit_of c of
        None \<Rightarrow> None
      | Some d \<Rightarrow> if 10 * acc + d < bound then parse_digits bound (10 * acc + d) cs else None)"

text \<open>\<open>s.parse::<u64>()\<close>: an optional plus sign, then at least one digit, no overflow.\<close>

definition parse_u64 :: "string \<Rightarrow> nat option" where
  "parse_u64 s =
     (let ds = (case s of c # cs \<Rightarrow> if c = CHR ''+'' then cs else s | [] \<Rightarrow> []) in
      if ds = [] then None else parse_digits (2 ^ 64) 0 ds)"

subsection \<open>Lemmas on pieces\<close>

lemma starts_with_append [simp]: "starts_with (p @ s) p"
  by (simp add: starts_with_def)

lemma strip_prefix_append [simp]: "strip_prefix (p @ s) p = Some s"
  by (simp add: strip_prefix_def)

lemma strip_prefix_Some: "strip_prefix s p = Some t \<longleftrightarrow> s = p @ t"
  by (auto simp: strip_prefix_def starts_with_def) (metis append_take_drop_id)

lemma strip_suffix_append [simp]: "strip_suffix (s @ p) p = Some s"
  by (simp add: strip_suffix_def ends_with_def)

lemma starts_with_iff: "starts_with s p \<longleftrightarrow> (\<exists>t. s = p @ t)"
  by (metis append_take_drop_id starts_with_append starts_with_def)

lemma split_on_nonempty [simp]: "split_on c s \<noteq> []"
  by (induction s) (auto split: list.splits)

lemma split_on_free: "c \<notin> set s \<Longrightarrow> split_on c s = [s]"
  by (induction s) auto

lemma split_on_append: "c \<notin> set w \<Longrightarrow> split_on c (w @ c # s) = w # split_on c s"
  by (induction w) auto

text \<open>Splitting at a character and joining with it are inverse.\<close>

lemma join_Cons: "ws \<noteq> [] \<Longrightarrow> join_with sep (w # ws) = w @ sep @ join_with sep ws"
  by (cases ws) auto

lemma join_split: "join_with [c] (split_on c s) = s"
proof (induction s)
  case Nil
  then show ?case by simp
next
  case (Cons x s)
  then show ?case
    by (cases "split_on c s"; cases "tl (split_on c s)") (auto simp: join_Cons split: if_splits)
qed

lemma split_on_pieces_free: "w \<in> set (split_on c s) \<Longrightarrow> c \<notin> set w"
  by (induction s arbitrary: w) (auto split: if_splits list.splits)

lemma join_eq_Nil_iff: "join_with sep ws = [] \<longleftrightarrow> (\<forall>w\<in>set ws. w = []) \<and> (sep = [] \<or> length ws \<le> 1)"
  by (induction sep ws rule: join_with.induct) auto

subsection \<open>Printing and parsing\<close>

lemma digit_of_digit_char: "d < 10 \<Longrightarrow> digit_of (digit_char d) = Some d"
  by (simp add: digit_of_def digit_char_def)

lemma parse_digits_snoc:
  "parse_digits b acc (cs @ [c]) =
     (case parse_digits b acc cs of
        None \<Rightarrow> None
      | Some a \<Rightarrow> parse_digits b a [c])"
  by (induction cs arbitrary: acc) (auto split: option.splits)

lemma parse_digits_show: "n < b \<Longrightarrow> parse_digits b 0 (show_nat n) = Some n"
proof (induction n rule: show_nat.induct)
  case (1 n)
  show ?case
  proof (cases "n < 10")
    case True
    with "1.prems" show ?thesis by (simp add: show_nat.simps [of n] digit_of_digit_char)
  next
    case False
    with "1.prems" have "n div 10 < b" by linarith
    with False "1.IH" have "parse_digits b 0 (show_nat (n div 10)) = Some (n div 10)" by simp
    with False "1.prems" show ?thesis
      by (simp add: show_nat.simps [of n] parse_digits_snoc digit_of_digit_char)
  qed
qed

lemma show_nat_nonempty [simp]: "show_nat n \<noteq> []"
  by (subst show_nat.simps) simp

lemma show_nat_digits: "c \<in> set (show_nat n) \<Longrightarrow> \<exists>d<10. c = digit_char d"
proof (induction n rule: show_nat.induct)
  case (1 n)
  have "n mod 10 < 10" by simp
  with 1 show ?case by (cases "n < 10") (fastforce simp: show_nat.simps [of n])+
qed

lemma digit_char_not_sign: "d < 10 \<Longrightarrow> digit_char d \<noteq> CHR ''+'' \<and> digit_char d \<noteq> CHR ''-''"
proof -
  assume "d < 10"
  then have c: "of_char (digit_char d) = 48 + d" by (simp add: digit_char_def)
  have "of_char CHR ''+'' = (43 :: nat)" and "of_char CHR ''-'' = (45 :: nat)" by simp_all
  with c have "(of_char (digit_char d) :: nat) \<noteq> of_char CHR ''+''"
    and "(of_char (digit_char d) :: nat) \<noteq> of_char CHR ''-''" by linarith+
  then show ?thesis by metis
qed

lemma parse_show_u64: "n < 2 ^ 64 \<Longrightarrow> parse_u64 (show_nat n) = Some n"
proof -
  assume n: "n < 2 ^ 64"
  obtain c cs where cs: "show_nat n = c # cs" by (cases "show_nat n") auto
  then obtain d where "d < 10" and "c = digit_char d"
    using show_nat_digits [of c n] by auto
  then have "c \<noteq> CHR ''+''" using digit_char_not_sign by simp
  with cs have "parse_u64 (show_nat n) = parse_digits (2 ^ 64) 0 (show_nat n)"
    by (simp only: parse_u64_def Let_def list.case if_False list.distinct)
  then show ?thesis using parse_digits_show [OF n] by (simp only:)
qed

lemma show_nat_inj: "show_nat m = show_nat n \<longleftrightarrow> m = n"
proof
  assume e: "show_nat m = show_nat n"
  have "parse_digits (Suc (max m n)) 0 (show_nat m) = Some m"
    by (rule parse_digits_show) simp
  moreover have "parse_digits (Suc (max m n)) 0 (show_nat n) = Some n"
    by (rule parse_digits_show) simp
  ultimately have "Some m = Some n" using e by (simp only:)
  then show "m = n" by (simp only: option.inject)
qed simp

subsection \<open>Text without white space\<close>

definition graphic :: "char \<Rightarrow> bool" where
  "graphic c \<longleftrightarrow> 33 \<le> (of_char c :: nat) \<and> of_char c \<le> (126 :: nat)"

definition plain :: "string \<Rightarrow> bool" where
  "plain s \<longleftrightarrow> s \<noteq> [] \<and> (\<forall>c\<in>set s. graphic c \<and> c \<noteq> CHR '':'')"

lemma ws_heads: "w \<in> set ws_chars \<Longrightarrow> w \<noteq> [] \<and> \<not> graphic (hd w) \<and> \<not> graphic (last w)"
  by (simp only: ws_chars_def list.set insert_iff empty_iff) (elim disjE; simp add: graphic_def)

lemma ws_front_graphic:
  assumes "graphic (hd s)" and "s \<noteq> []"
  shows "ws_front s = 0"
proof -
  have "\<not> starts_with s w" if "w \<in> set ws_chars" for w
    using ws_heads [OF that] assms by (auto simp: starts_with_iff)
  then have "find (starts_with s) ws_chars = None" by (simp add: find_None_iff)
  then show ?thesis by (simp add: ws_front_def)
qed

lemma ends_with_last: "ends_with s w \<Longrightarrow> w \<noteq> [] \<Longrightarrow> last s = last w"
  by (metis ends_with_def append_take_drop_id last_appendR)

lemma ws_back_graphic:
  assumes "graphic (last s)"
  shows "ws_back s = 0"
proof -
  have "\<not> ends_with s w" if "w \<in> set ws_chars" for w
    using ws_heads [OF that] assms ends_with_last [of s w] by auto
  then have "find (ends_with s) ws_chars = None" by (simp add: find_None_iff)
  then show ?thesis by (simp add: ws_back_def)
qed

lemma trim_graphic: "s \<noteq> [] \<Longrightarrow> graphic (hd s) \<Longrightarrow> graphic (last s) \<Longrightarrow> trim s = s"
  by (simp add: trim_def trim_start.simps [of s] trim_end.simps [of s] ws_front_graphic
      ws_back_graphic)

lemma plain_no_colon: "plain s \<Longrightarrow> CHR '':'' \<notin> set s"
  by (auto simp: plain_def)

lemma plain_last: "plain s \<Longrightarrow> s \<noteq> [] \<and> graphic (last s)"
  by (simp add: plain_def)

lemma plain_ascii: "plain s \<Longrightarrow> c \<in> set s \<Longrightarrow> of_char c < (128 :: nat)"
  by (fastforce simp: plain_def graphic_def)

end
