(* ===== verification/Framing.thy ===== *)
theory Framing
  imports RustStr
begin

text \<open>
  The frame of every message between nodes: a big-endian \<open>u32\<close> payload length, one byte of
  message type, the payload. The sources build it the same way in every sender but read it
  in two ways: the CLI's \<open>recv_framed\<close> and the older \<open>NngServer\<close> check that the payload is
  complete, while the hub servers and the worker index the slice \<open>[5..5 + len]\<close> without a
  check, so that a truncated frame panics.
\<close>

unbundle bit_operations_syntax

definition be_bytes :: "u32 \<Rightarrow> bytes" where
  "be_bytes w = [ucast (drop_bit 24 w), ucast (drop_bit 16 w), ucast (drop_bit 8 w), ucast w]"

definition from_be_bytes :: "u8 \<Rightarrow> u8 \<Rightarrow> u8 \<Rightarrow> u8 \<Rightarrow> u32" where
  "from_be_bytes a b c d =
     push_bit 24 (ucast a) OR push_bit 16 (ucast b) OR push_bit 8 (ucast c) OR ucast d"

definition build_frame :: "u8 \<Rightarrow> bytes \<Rightarrow> bytes" where
  "build_frame t p = be_bytes (word_of_nat (length p)) @ [t] @ p"

definition frame_len :: "bytes \<Rightarrow> nat" where
  "frame_len s = unat (from_be_bytes (s ! 0) (s ! 1) (s ! 2) (s ! 3))"

definition recv_framed :: "string + bytes \<Rightarrow> string + u8 \<times> bytes" where
  "recv_framed msg =
     (case msg of
        Inl e \<Rightarrow> Inl e
      | Inr s \<Rightarrow>
          if length s < 5 then Inl ''Frame too short''
          else if length s < 5 + frame_len s then Inl ''Truncated frame''
          else Inr (s ! 4, take (frame_len s) (drop 5 s)))"

text \<open>
  The unchecked reader: a frame shorter than its header or of another type is skipped
  (\<open>None\<close>); otherwise the payload is the slice the header announces.
\<close>

definition read_body :: "u8 \<Rightarrow> bytes \<Rightarrow> bytes option outcome" where
  "read_body want s =
     (if length s < 5 then Returns None
      else if s ! 4 \<noteq> want then Returns None
      else and_then (slice s 5 (5 + frame_len s)) (\<lambda>b. Returns (Some b)))"

subsection \<open>The interface of a frame reader\<close>

text \<open>
  What a receiver relies on: the reader gives back what the builder packed, as long as the
  payload length fits the header.
\<close>

locale frame_reader =
  fixes build :: "u8 \<Rightarrow> bytes \<Rightarrow> bytes"
    and read :: "bytes \<Rightarrow> (u8 \<times> bytes) option"
  assumes read_build: "length p < 2 ^ 32 \<Longrightarrow> read (build t p) = Some (t, p)"
begin

lemma build_inj:
  assumes "length p < 2 ^ 32" and "length q < 2 ^ 32" and "build t p = build u q"
  shows "t = u \<and> p = q"
  using read_build [OF assms(1), of t] read_build [OF assms(2), of u] assms(3)
  by (metis option.inject prod.inject)

text \<open>A typed message survives the trip when its codec does.\<close>

lemma typed_round_trip:
  assumes "length (enc m) < 2 ^ 32" and "dec (enc m) = Inr m"
  shows "\<exists>p. read (build t (enc m)) = Some (t, p) \<and> dec p = Inr m"
  using read_build [OF assms(1)] assms(2) by simp

end

subsection \<open>Round trips\<close>

lemma length_be_bytes [simp]: "length (be_bytes w) = 4"
  by (simp add: be_bytes_def)

lemma from_be_be_bytes:
  "from_be_bytes (ucast (drop_bit 24 w)) (ucast (drop_bit 16 w)) (ucast (drop_bit 8 w)) (ucast w) = w"
  for w :: u32
  unfolding from_be_bytes_def
proof (rule bit_word_eqI)
  fix n assume "n < LENGTH(32)"
  then consider "n < 8" | "8 \<le> n" "n < 16" | "16 \<le> n" "n < 24" | "24 \<le> n" "n < 32"
    by fastforce
  then show "bit (push_bit 24 (ucast (ucast (drop_bit 24 w) :: u8) :: u32) OR
      push_bit 16 (ucast (ucast (drop_bit 16 w) :: u8)) OR
      push_bit 8 (ucast (ucast (drop_bit 8 w) :: u8)) OR ucast (ucast w :: u8)) n = bit w n"
    by cases (auto simp: bit_simps)
qed

lemma length_build_frame [simp]: "length (build_frame t p) = 5 + length p"
  by (simp add: build_frame_def)

lemma build_frame_type [simp]: "build_frame t p ! 4 = t"
  by (simp add: build_frame_def nth_append)

lemma build_frame_drop [simp]: "drop 5 (build_frame t p) = p"
  by (simp add: build_frame_def)

lemma frame_len_build: "frame_len (build_frame t p @ rest) = length p mod 2 ^ 32"
proof -
  have "frame_len (build_frame t p @ rest) = unat (word_of_nat (length p) :: u32)"
    by (simp add: frame_len_def build_frame_def be_bytes_def from_be_be_bytes)
  then show ?thesis by (simp only: unsigned_of_nat) (simp add: take_bit_eq_mod)
qed

lemma frame_len_build_frame: "length p < 2 ^ 32 \<Longrightarrow> frame_len (build_frame t p) = length p"
  using frame_len_build [of t p "[]"] by simp

lemma recv_framed_build:
  "length p < 2 ^ 32 \<Longrightarrow> recv_framed (Inr (build_frame t p)) = Inr (t, p)"
  by (simp add: recv_framed_def frame_len_build_frame)

lemma read_body_build:
  "length p < 2 ^ 32 \<Longrightarrow>
   read_body want (build_frame t p) = Returns (if t = want then Some p else None)"
  by (simp add: read_body_def frame_len_build_frame slice_def)

lemma read_body_Panics_iff:
  "read_body want s = Panics \<longleftrightarrow>
     5 \<le> length s \<and> s ! 4 = want \<and> length s < 5 + frame_len s"
  by (auto simp: read_body_def slice_def)

lemma recv_framed_total: "recv_framed (Inr s) = Inr (t, p) \<Longrightarrow> read_body t s = Returns (Some p)"
  by (auto simp: recv_framed_def read_body_def slice_def split: if_splits)

definition checked_read :: "bytes \<Rightarrow> (u8 \<times> bytes) option" where
  "checked_read s = (case recv_framed (Inr s) of Inl _ \<Rightarrow> None | Inr r \<Rightarrow> Some r)"

interpretation cli_frames: frame_reader build_frame checked_read
  by unfold_locales (simp add: checked_read_def recv_framed_build)

definition hub_read :: "bytes \<Rightarrow> (u8 \<times> bytes) option" where
  "hub_read s = (case read_body (s ! 4) s of Returns (Some b) \<Rightarrow> Some (s ! 4, b) | _ \<Rightarrow> None)"

interpretation hub_frames: frame_reader build_frame hub_read
  by unfold_locales (simp add: hub_read_def read_body_build)

end
