(* ===== verification/Proto.thy ===== *)
theory Proto
  imports Floats Framing
begin

text \<open>
  The wire messages of \<open>proto/topology.proto\<close> as records, one field per protobuf field. The
  encoder and decoder of each message are generated by \<open>prost-build\<close> at build time and are
  not part of the repository: a \<open>codec\<close> pairs the two as parameters, and \<open>carries c m\<close> is what
  a sender and a receiver rely on for one message \<open>m\<close> (it decodes to itself and fits the
  frame header).
\<close>

subsection \<open>Enumerations\<close>

datatype task_category = STATELESS_IDEMPOTENT | STATEFUL_LONG_RUNNING | INTERACTIVE_LOW_LATENCY

datatype task_status = PENDING | RUNNING | COMPLETED | FAILED

fun category_i32 :: "task_category \<Rightarrow> i32" where
  "category_i32 STATELESS_IDEMPOTENT = 0"
| "category_i32 STATEFUL_LONG_RUNNING = 1"
| "category_i32 INTERACTIVE_LOW_LATENCY = 2"

fun status_i32 :: "task_status \<Rightarrow> i32" where
  "status_i32 PENDING = 0"
| "status_i32 RUNNING = 1"
| "status_i32 COMPLETED = 2"
| "status_i32 FAILED = 3"

text \<open>The generated enumerations are ordered by their numbers.\<close>

instantiation task_status :: linorder
begin

definition less_eq_task_status :: "task_status \<Rightarrow> task_status \<Rightarrow> bool" where
  "s \<le> t \<longleftrightarrow> status_i32 s \<le> status_i32 t"

definition less_task_status :: "task_status \<Rightarrow> task_status \<Rightarrow> bool" where
  "s < t \<longleftrightarrow> status_i32 s < status_i32 t"

instance
proof
  fix s t u :: task_status
  show "s < t \<longleftrightarrow> s \<le> t \<and> \<not> t \<le> s"
    by (auto simp: less_eq_task_status_def less_task_status_def)
  show "s \<le> s" by (simp add: less_eq_task_status_def)
  show "s \<le> t \<Longrightarrow> t \<le> u \<Longrightarrow> s \<le> u" by (simp add: less_eq_task_status_def)
  show "s \<le> t \<Longrightarrow> t \<le> s \<Longrightarrow> s = t"
    by (cases s; cases t) (simp_all add: less_eq_task_status_def word_le_nat_alt)
  show "s \<le> t \<or> t \<le> s" by (auto simp: less_eq_task_status_def)
qed

end

subsection \<open>Messages\<close>

record hardware_identity =
  hi_node_uuid :: string
  hi_ecdsa_public_key :: bytes
  hi_static_thumbprint :: bytes

record handshake_challenge =
  hc_high_entropy_token :: bytes
  hc_timestamp :: u64

record handshake_response =
  hr_signature :: bytes
  hr_identity :: "hardware_identity option"

record handshake_result =
  hs_authenticated :: bool
  hs_session_token :: string
  hs_message :: string

datatype resource_value = IntVal i64 | DoubleVal fp | StringVal string | BoolVal bool

record device_capability =
  dc_resource_name :: string
  dc_value_type :: string
  dc_resource_value :: "resource_value option"

record capability_profile =
  cp_node_id :: string
  cp_os_platform :: string
  cp_capabilities :: "device_capability list"
  cp_updated_timestamp :: u64

record task_definition =
  td_task_id :: string
  td_category :: i32
  td_module_target :: string
  td_payload :: bytes
  td_max_retries :: u32
  td_timeout_ms :: u32
  td_required_capabilities :: "string list"

record task_progress =
  tp_task_id :: string
  tp_status :: i32
  tp_progress_percentage :: fp
  tp_checkpoint_data :: bytes
  tp_error_message :: string
  tp_result_text :: string

record swarm_status_request =
  sq_access_key :: string

record swarm_status_response =
  sr_authorized :: bool
  sr_node_count :: i32
  sr_available_capabilities :: "string list"
  sr_message :: string

record task_submit_request =
  ts_access_key :: string
  ts_task_name :: string
  ts_category :: i32
  ts_required_capabilities :: "string list"
  ts_payload :: bytes

record task_submit_response =
  ta_accepted :: bool
  ta_task_id :: string
  ta_message :: string

subsection \<open>Generated codecs\<close>

record 'm codec =
  cd_encode :: "'m \<Rightarrow> bytes"
  cd_decode :: "bytes \<Rightarrow> string + 'm"

record codecs =
  c_challenge :: "handshake_challenge codec"
  c_response :: "handshake_response codec"
  c_result :: "handshake_result codec"
  c_profile :: "capability_profile codec"
  c_task :: "task_definition codec"
  c_progress :: "task_progress codec"
  c_status_req :: "swarm_status_request codec"
  c_status_resp :: "swarm_status_response codec"
  c_submit_req :: "task_submit_request codec"
  c_submit_resp :: "task_submit_response codec"

definition carries :: "'m codec \<Rightarrow> 'm \<Rightarrow> bool" where
  "carries c m \<longleftrightarrow>
     length (cd_encode c m) < 2 ^ 32 \<and> cd_decode c (cd_encode c m) = Inr m"

text \<open>A message in its frame, as every sender of the sources writes it.\<close>

definition frame_msg :: "u8 \<Rightarrow> 'm codec \<Rightarrow> 'm \<Rightarrow> bytes" where
  "frame_msg t c m = build_frame t (cd_encode c m)"

lemma read_body_frame_msg:
  "carries c m \<Longrightarrow> read_body t (frame_msg t c m) = Returns (Some (cd_encode c m))"
  by (simp add: carries_def frame_msg_def read_body_build)

lemma read_body_frame_msg_other:
  "carries c m \<Longrightarrow> t \<noteq> u \<Longrightarrow> read_body u (frame_msg t c m) = Returns None"
  by (simp add: carries_def frame_msg_def read_body_build)

lemma recv_frame_msg:
  "carries c m \<Longrightarrow> recv_framed (Inr (frame_msg t c m)) = Inr (t, cd_encode c m)"
  by (simp add: carries_def frame_msg_def recv_framed_build)

lemma frame_msg_long [simp]: "5 \<le> length (frame_msg t c m)"
  by (simp add: frame_msg_def)

lemma frame_msg_type [simp]: "frame_msg t c m ! 4 = t"
  by (simp add: frame_msg_def)

lemma slice_frame_msg:
  "carries c m \<Longrightarrow>
     slice (frame_msg t c m) 5 (5 + frame_len (frame_msg t c m)) = Returns (cd_encode c m)"
  by (simp add: carries_def frame_msg_def frame_len_build_frame slice_def)

lemma decode_carried: "carries c m \<Longrightarrow> cd_decode c (cd_encode c m) = Inr m"
  by (simp add: carries_def)

text \<open>A codec that knows one message, for concrete instances of the theorems.\<close>

definition one_message :: "bytes \<Rightarrow> 'm \<Rightarrow> 'm codec" where
  "one_message bs m =
     \<lparr>cd_encode = (\<lambda>_. bs), cd_decode = (\<lambda>b. if b = bs then Inr m else Inl ''decode error'')\<rparr>"

lemma carries_one_message: "length bs < 2 ^ 32 \<Longrightarrow> carries (one_message bs m) m"
  by (simp add: carries_def one_message_def)

text \<open>Demo messages and a set of codecs that carries each of them.\<close>

definition demo_heartbeat :: capability_profile where
  "demo_heartbeat =
     \<lparr>cp_node_id = ''n1'', cp_os_platform = ''linux'',
      cp_capabilities = [\<lparr>dc_resource_name = ''Local LLM'', dc_value_type = ''string'',
        dc_resource_value = Some (StringVal ''llm-inference'')\<rparr>],
      cp_updated_timestamp = 7\<rparr>"

definition demo_submit :: task_submit_request where
  "demo_submit = \<lparr>ts_access_key = ''key'', ts_task_name = ''task'', ts_category = 1,
     ts_required_capabilities = [''llm-inference''], ts_payload = [1, 2, 3]\<rparr>"

definition demo_done :: task_progress where
  "demo_done = \<lparr>tp_task_id = ''medium-abcdefgh'', tp_status = status_i32 COMPLETED,
     tp_progress_percentage = Fin 100, tp_checkpoint_data = [], tp_error_message = [],
     tp_result_text = ''ok''\<rparr>"

definition demo_codecs :: codecs where
  "demo_codecs =
     \<lparr>c_challenge = one_message [1] \<lparr>hc_high_entropy_token = [1, 2], hc_timestamp = 0\<rparr>,
      c_response = one_message [2] \<lparr>hr_signature = [], hr_identity = None\<rparr>,
      c_result = one_message [3]
        \<lparr>hs_authenticated = True, hs_session_token = ''s'', hs_message = ''m''\<rparr>,
      c_profile = one_message [4] demo_heartbeat,
      c_task = one_message [5]
        \<lparr>td_task_id = ''t'', td_category = 0, td_module_target = ''n1'', td_payload = [1, 2, 3],
         td_max_retries = 3, td_timeout_ms = 10000, td_required_capabilities = []\<rparr>,
      c_progress = one_message [6] demo_done,
      c_status_req = one_message [7] \<lparr>sq_access_key = ''key''\<rparr>,
      c_status_resp = one_message [8]
        \<lparr>sr_authorized = True, sr_node_count = 1, sr_available_capabilities = [],
         sr_message = []\<rparr>,
      c_submit_req = one_message [9] demo_submit,
      c_submit_resp = one_message [10]
        \<lparr>ta_accepted = True, ta_task_id = ''medium-abcdefgh'', ta_message = []\<rparr>\<rparr>"

lemma demo_codecs_simps [simp]:
  "c_profile demo_codecs = one_message [4] demo_heartbeat"
  "c_progress demo_codecs = one_message [6] demo_done"
  "c_submit_req demo_codecs = one_message [9] demo_submit"
  by (simp_all add: demo_codecs_def)

lemma one_message_simps [simp]:
  "cd_encode (one_message bs m) = (\<lambda>_. bs)"
  "cd_decode (one_message bs m) bs = Inr m"
  by (simp_all add: one_message_def)

end
