(* ===== verification/Auth.thy ===== *)
theory Auth
  imports Proto
begin

text \<open>
  Node identity: the hub's check of a challenge response (\<open>compute-module-core/src/auth.rs\<close>),
  the simulated secure element of a node (\<open>host-background-agent/src/secure_element.rs\<close>)
  and the provisioning tool (\<open>tools/provision-keys\<close>). The \<open>hex\<close>, \<open>sha2\<close> and \<open>p256\<close> crates
  are not in the repository: they are the fields of a record of operations, and \<open>crypto_laws\<close>
  states their documented behaviour.
\<close>

record ('sk, 'vk, 'sg) crypto =
  hex_decode :: "string \<Rightarrow> string + bytes"
  hex_encode :: "bytes \<Rightarrow> string"
  sha256 :: "bytes \<Rightarrow> bytes"
  vk_from_sec1 :: "bytes \<Rightarrow> 'vk option"
  vk_to_sec1 :: "'vk \<Rightarrow> bytes"
  sig_from_der :: "bytes \<Rightarrow> 'sg option"
  sig_from_slice :: "bytes \<Rightarrow> 'sg option"
  sig_to_der :: "'sg \<Rightarrow> bytes"
  ecdsa_verify :: "'vk \<Rightarrow> bytes \<Rightarrow> 'sg \<Rightarrow> bool"
  ecdsa_sign :: "'sk \<Rightarrow> bytes \<Rightarrow> 'sg"
  vk_of_sk :: "'sk \<Rightarrow> 'vk"
  sk_from_bytes :: "bytes \<Rightarrow> 'sk option outcome"
  sk_to_bytes :: "'sk \<Rightarrow> bytes"

definition crypto_laws :: "('sk, 'vk, 'sg) crypto \<Rightarrow> bool" where
  "crypto_laws cr \<longleftrightarrow>
     (\<forall>b. hex_decode cr (hex_encode cr b) = Inr b) \<and>
     (\<forall>v. vk_from_sec1 cr (vk_to_sec1 cr v) = Some v) \<and>
     (\<forall>s. sig_from_der cr (sig_to_der cr s) = Some s) \<and>
     (\<forall>k m. ecdsa_verify cr (vk_of_sk cr k) m (ecdsa_sign cr k m))"

text \<open>
  \<open>SigningKey::from_bytes\<close> takes a 32-byte array, and the conversion \<open>(&bytes[..]).into()\<close>
  panics on a slice of any other length; a key read back from its own bytes is itself.
\<close>

definition key_file_laws :: "('sk, 'vk, 'sg) crypto \<Rightarrow> bool" where
  "key_file_laws cr \<longleftrightarrow>
     (\<forall>b. length b \<noteq> 32 \<longrightarrow> sk_from_bytes cr b = Panics) \<and>
     (\<forall>k. sk_from_bytes cr (sk_to_bytes cr k) = Returns (Some k))"

subsection \<open>The hub's check\<close>

definition verify_challenge_response ::
    "('sk, 'vk, 'sg) crypto \<Rightarrow> string \<Rightarrow> bytes \<Rightarrow> string \<Rightarrow> bool" where
  "verify_challenge_response cr public_key_hex challenge signature_hex =
     (case hex_decode cr public_key_hex of
        Inl _ \<Rightarrow> False
      | Inr pk_bytes \<Rightarrow>
        (case vk_from_sec1 cr pk_bytes of
           None \<Rightarrow> False
         | Some verifying_key \<Rightarrow>
           (case hex_decode cr signature_hex of
              Inl _ \<Rightarrow> False
            | Inr sig_bytes \<Rightarrow>
              (case (case sig_from_der cr sig_bytes of
                       Some s \<Rightarrow> Some s
                     | None \<Rightarrow> sig_from_slice cr sig_bytes) of
                 None \<Rightarrow> False
               | Some signature \<Rightarrow> ecdsa_verify cr verifying_key challenge signature))))"

text \<open>The thumbprint of a public key: the hex digest of its bytes.\<close>

definition thumbprint_hex :: "('sk, 'vk, 'sg) crypto \<Rightarrow> bytes \<Rightarrow> string" where
  "thumbprint_hex cr pk = hex_encode cr (sha256 cr pk)"

subsection \<open>The secure element of a node\<close>

record 'sk secure_element =
  signing_key :: 'sk

text \<open>
  \<open>new\<close>: \<open>None\<close> is a key file that does not exist, \<open>Some (Inl e)\<close> one that cannot be read.
  The result is the element and the bytes written to the key file, if any; \<open>fresh\<close> is the
  key the random generator would give.
\<close>

definition generate_and_save_key :: "('sk, 'vk, 'sg) crypto \<Rightarrow> 'sk \<Rightarrow> 'sk \<times> bytes option" where
  "generate_and_save_key cr fresh = (fresh, Some (sk_to_bytes cr fresh))"

definition secure_element_new ::
    "('sk, 'vk, 'sg) crypto \<Rightarrow> (string + bytes) option \<Rightarrow> 'sk \<Rightarrow>
     ('sk secure_element \<times> bytes option) outcome" where
  "secure_element_new cr key_file fresh =
     and_then
       (case key_file of
          None \<Rightarrow> Returns (generate_and_save_key cr fresh)
        | Some (Inl _) \<Rightarrow> Returns (generate_and_save_key cr fresh)
        | Some (Inr bs) \<Rightarrow>
            and_then (sk_from_bytes cr bs) (\<lambda>r. case r of
                Some k \<Rightarrow> Returns (k, None)
              | None \<Rightarrow> Returns (generate_and_save_key cr fresh)))
       (\<lambda>(k, w). Returns (\<lparr>signing_key = k\<rparr>, w))"

definition get_public_key :: "('sk, 'vk, 'sg) crypto \<Rightarrow> 'sk secure_element \<Rightarrow> bytes" where
  "get_public_key cr se = vk_to_sec1 cr (vk_of_sk cr (signing_key se))"

definition get_static_thumbprint :: "('sk, 'vk, 'sg) crypto \<Rightarrow> 'sk secure_element \<Rightarrow> bytes" where
  "get_static_thumbprint cr se = sha256 cr (get_public_key cr se)"

definition sign_challenge :: "('sk, 'vk, 'sg) crypto \<Rightarrow> 'sk secure_element \<Rightarrow> bytes \<Rightarrow> bytes" where
  "sign_challenge cr se challenge = sig_to_der cr (ecdsa_sign cr (signing_key se) challenge)"

subsection \<open>The provisioning tool\<close>

text \<open>\<open>fill_bytes\<close> overwrites a buffer, whatever its contents, byte by byte with what the random
  generator gives next: \<open>rng i\<close> is its byte number \<open>i\<close>.\<close>

definition fill_bytes :: "(nat \<Rightarrow> u8) \<Rightarrow> bytes \<Rightarrow> bytes" where
  "fill_bytes rng buf = map rng [0..<length buf]"

definition generate_token :: "(nat \<Rightarrow> u8) \<Rightarrow> nat \<Rightarrow> bytes" where
  "generate_token rng n = (let token = replicate n 0 in fill_bytes rng token)"

definition calculate_thumbprint :: "('sk, 'vk, 'sg) crypto \<Rightarrow> string \<Rightarrow> string + string" where
  "calculate_thumbprint cr public_key =
     (case hex_decode cr public_key of
        Inl e \<Rightarrow> Inl e
      | Inr pk_bytes \<Rightarrow> Inr (hex_encode cr (sha256 cr pk_bytes)))"

definition validate_private_key :: "('sk, 'vk, 'sg) crypto \<Rightarrow> string \<Rightarrow> string + bytes" where
  "validate_private_key cr private_key_hex = hex_decode cr private_key_hex"

datatype provision_command =
    GenerateToken nat
  | CalculateThumbprint string
  | InjectKey u8 string

text \<open>What \<open>main\<close> of the tool does: the lines it prints (or the error line) and its exit code.\<close>

fun provision_main ::
    "('sk, 'vk, 'sg) crypto \<Rightarrow> (nat \<Rightarrow> u8) \<Rightarrow> provision_command \<Rightarrow> string list \<times> nat" where
  "provision_main cr rng (GenerateToken n) =
     ([''High-Entropy Token: '' @ hex_encode cr (generate_token rng n)], 0)"
| "provision_main cr rng (CalculateThumbprint pk) =
     (case calculate_thumbprint cr pk of
        Inr thumbprint \<Rightarrow> ([''ECDSA Thumbprint: '' @ thumbprint], 0)
      | Inl _ \<Rightarrow> ([''Invalid hex string for public key''], 1))"
| "provision_main cr rng (InjectKey slot key) =
     (case validate_private_key cr key of
        Inl _ \<Rightarrow> ([''Invalid private key hex format''], 1)
      | Inr _ \<Rightarrow>
          ([''Injecting key into hardware slot '' @ show_nat (unat slot) @ ''...'',
            ''Writing to hardware-locked zone...'',
            ''Locking configuration zone... Permanent protection enabled.''], 0))"

subsection \<open>Lemmas\<close>

lemma crypto_lawsD:
  assumes "crypto_laws cr"
  shows "hex_decode cr (hex_encode cr b) = Inr b"
    and "vk_from_sec1 cr (vk_to_sec1 cr v) = Some v"
    and "sig_from_der cr (sig_to_der cr s) = Some s"
    and "ecdsa_verify cr (vk_of_sk cr k) m (ecdsa_sign cr k m)"
  using assms by (simp_all add: crypto_laws_def)

text \<open>What the element signs, the hub accepts, for every key and every challenge.\<close>

lemma verify_signed:
  "crypto_laws cr \<Longrightarrow>
   verify_challenge_response cr (hex_encode cr (get_public_key cr se)) ch
     (hex_encode cr (sign_challenge cr se ch))"
  by (simp add: verify_challenge_response_def get_public_key_def sign_challenge_def crypto_lawsD)

text \<open>An accepted response decodes on both sides and its signature verifies.\<close>

lemma verify_challenge_responseD:
  assumes "verify_challenge_response cr pk ch sg"
  shows "\<exists>pkb vk sb s. hex_decode cr pk = Inr pkb \<and> vk_from_sec1 cr pkb = Some vk \<and>
           hex_decode cr sg = Inr sb \<and>
           (sig_from_der cr sb = Some s \<or> sig_from_der cr sb = None \<and> sig_from_slice cr sb = Some s) \<and>
           ecdsa_verify cr vk ch s"
proof -
  obtain pkb vk sb where k: "hex_decode cr pk = Inr pkb" "vk_from_sec1 cr pkb = Some vk"
      "hex_decode cr sg = Inr sb"
    using assms
    by (cases "hex_decode cr pk"; cases "hex_decode cr sg")
      (auto simp: verify_challenge_response_def split: option.splits)
  with assms show ?thesis
    by (cases "sig_from_der cr sb"; cases "sig_from_slice cr sb")
      (auto simp: verify_challenge_response_def)
qed

text \<open>A key file written by the element gives the same key back on the next start.\<close>

lemma secure_element_restart:
  assumes "key_file_laws cr"
    and "secure_element_new cr kf fresh = Returns (se, Some bs)"
  shows "secure_element_new cr (Some (Inr bs)) fresh' = Returns (se, None)"
proof -
  have "bs = sk_to_bytes cr (signing_key se) \<and> se = \<lparr>signing_key = signing_key se\<rparr>"
  proof (cases kf)
    case None
    with assms(2) show ?thesis
      by (auto simp: secure_element_new_def generate_and_save_key_def)
  next
    case (Some r)
    with assms(2) show ?thesis
      by (cases r; cases "sk_from_bytes cr (projr r)")
        (auto simp: secure_element_new_def generate_and_save_key_def split: option.splits)
  qed
  with assms(1) show ?thesis
    by (simp add: secure_element_new_def key_file_laws_def)
qed

lemma secure_element_new_Panics_iff:
  "secure_element_new cr kf fresh = Panics \<longleftrightarrow>
     (\<exists>bs. kf = Some (Inr bs) \<and> sk_from_bytes cr bs = Panics)"
proof (cases "\<exists>bs. kf = Some (Inr bs)")
  case True
  then obtain bs where kf: "kf = Some (Inr bs)" by blast
  then show ?thesis
    by (cases "sk_from_bytes cr bs")
      (auto simp: secure_element_new_def generate_and_save_key_def split: option.splits)
next
  case False
  then show ?thesis
    by (auto simp: secure_element_new_def generate_and_save_key_def split: option.splits sum.splits)
qed

text \<open>A small signature scheme over byte strings, for concrete instances of the theorems:
  a key signs a message by prefixing it.\<close>

definition demo_crypto :: "(u8, u8, bytes) crypto" where
  "demo_crypto =
     \<lparr>hex_decode = (\<lambda>s. Inr (as_bytes s)), hex_encode = bytes_string, sha256 = rev,
      vk_from_sec1 = (\<lambda>b. case b of [v] \<Rightarrow> Some v | _ \<Rightarrow> None), vk_to_sec1 = (\<lambda>v. [v]),
      sig_from_der = Some, sig_from_slice = Some, sig_to_der = (\<lambda>s. s),
      ecdsa_verify = (\<lambda>v m s. s = v # m), ecdsa_sign = (\<lambda>k m. k # m), vk_of_sk = (\<lambda>k. k),
      sk_from_bytes = (\<lambda>b. if length b = 32 then Returns (Some (hd b)) else Panics),
      sk_to_bytes = replicate 32\<rparr>"

lemma demo_crypto_laws: "crypto_laws demo_crypto"
  by (simp add: crypto_laws_def demo_crypto_def)

lemma demo_key_file_laws: "key_file_laws demo_crypto"
  by (simp add: key_file_laws_def demo_crypto_def)

end
