(* ===== verification/Registry.thy ===== *)
theory Registry
  imports Auth
begin

text \<open>
  The hub's ephemeral registry of nodes (\<open>compute-module-core/src/registry/mod.rs\<close>): a map
  from node ids to profiles behind a read-write lock. A poisoned lock makes every write a
  no-op, every lookup \<open>None\<close> and the listing empty, as the \<open>if let Ok(..)\<close> of the sources
  does. Clones of the registry share the map, so the model keeps one value and passes it to
  every user.
\<close>

record capability =
  cap_name :: string
  cap_val_type :: string
  cap_value :: string

record node_profile =
  np_node_id :: string
  np_os_platform :: string
  np_capabilities :: "capability list"
  np_last_seen :: u64
  np_public_key :: string

record registry =
  rg_nodes :: "string \<rightharpoonup> node_profile"
  rg_poisoned :: bool

definition registry_new :: registry where
  "registry_new = \<lparr>rg_nodes = Map.empty, rg_poisoned = False\<rparr>"

definition register_node :: "registry \<Rightarrow> node_profile \<Rightarrow> registry" where
  "register_node r p =
     (if rg_poisoned r then r else r\<lparr>rg_nodes := (rg_nodes r)(np_node_id p \<mapsto> p)\<rparr>)"

definition unregister_node :: "registry \<Rightarrow> string \<Rightarrow> registry" where
  "unregister_node r node_id =
     (if rg_poisoned r then r else r\<lparr>rg_nodes := (rg_nodes r)(node_id := None)\<rparr>)"

text \<open>A profile seen in the future is kept; otherwise its age must be below the threshold.\<close>

definition fresh_at :: "u64 \<Rightarrow> u64 \<Rightarrow> node_profile \<Rightarrow> bool" where
  "fresh_at current_time timeout_threshold p \<longleftrightarrow>
     (if np_last_seen p \<le> current_time
      then current_time - np_last_seen p < timeout_threshold else True)"

definition evict_offline_nodes :: "registry \<Rightarrow> u64 \<Rightarrow> u64 \<Rightarrow> registry" where
  "evict_offline_nodes r current_time timeout_threshold =
     (if rg_poisoned r then r
      else r\<lparr>rg_nodes := retain (\<lambda>_. fresh_at current_time timeout_threshold) (rg_nodes r)\<rparr>)"

definition get_node :: "registry \<Rightarrow> string \<Rightarrow> node_profile option" where
  "get_node r node_id = (if rg_poisoned r then None else rg_nodes r node_id)"

definition list_nodes :: "registry \<Rightarrow> string list \<Rightarrow> node_profile list" where
  "list_nodes r ks = (if rg_poisoned r then [] else values_in (rg_nodes r) ks)"

definition authenticate_and_register_node ::
    "('sk, 'vk, 'sg) crypto \<Rightarrow> registry \<Rightarrow> node_profile \<Rightarrow> bytes \<Rightarrow> string \<Rightarrow> string list \<Rightarrow>
     registry \<times> (string + unit)" where
  "authenticate_and_register_node cr r profile challenge signature_hex trusted_thumbprints =
     (case hex_decode cr (np_public_key profile) of
        Inl e \<Rightarrow> (r, Inl e)
      | Inr pk_bytes \<Rightarrow>
          if thumbprint_hex cr pk_bytes \<notin> set trusted_thumbprints
          then (r, Inl ''Node public key thumbprint not authorized in database'')
          else if \<not> verify_challenge_response cr (np_public_key profile) challenge signature_hex
          then (r, Inl ''Cryptographic ECDSA verification failed'')
          else (register_node r profile, Inr ()))"

subsection \<open>The registry is a keyed store\<close>

definition registry_ok :: "registry \<Rightarrow> bool" where
  "registry_ok r \<longleftrightarrow> \<not> rg_poisoned r"

lemmas registry_defs = register_node_def unregister_node_def evict_offline_nodes_def
  get_node_def list_nodes_def registry_ok_def

interpretation node_store: deleting_store np_node_id get_node register_node registry_ok
    unregister_node
  by unfold_locales (auto simp: registry_defs)

lemma registry_new_ok [simp]: "registry_ok registry_new"
  by (simp add: registry_new_def registry_ok_def)

lemma get_node_new [simp]: "get_node registry_new k = None"
  by (simp add: registry_new_def get_node_def)

lemma get_node_register [store_simps]:
  "registry_ok r \<Longrightarrow> get_node (register_node r p) k =
     (if k = np_node_id p then Some p else get_node r k)"
  by (rule node_store.look_put)

lemma get_node_unregister [store_simps]:
  "registry_ok r \<Longrightarrow> get_node (unregister_node r d) k = (if k = d then None else get_node r k)"
  by (rule node_store.look_del)

lemma get_node_evict [store_simps]:
  "registry_ok r \<Longrightarrow> get_node (evict_offline_nodes r t th) k =
     (case get_node r k of None \<Rightarrow> None
      | Some p \<Rightarrow> if fresh_at t th p then Some p else None)"
  by (simp add: registry_defs retain_def)

lemma registry_ok_ops [simp]:
  "registry_ok (register_node r p) = registry_ok r"
  "registry_ok (unregister_node r d) = registry_ok r"
  "registry_ok (evict_offline_nodes r t th) = registry_ok r"
  by (simp_all add: registry_defs)

lemma poisoned_ops:
  assumes "\<not> registry_ok r"
  shows "register_node r p = r" "unregister_node r d = r" "evict_offline_nodes r t th = r"
    "get_node r k = None" "list_nodes r ks = []"
  using assms by (simp_all add: registry_defs)

text \<open>Every profile sits under its own id; all operations keep it so.\<close>

definition registry_inv :: "registry \<Rightarrow> bool" where
  "registry_inv r \<longleftrightarrow> finite (dom (rg_nodes r)) \<and>
     (\<forall>k p. rg_nodes r k = Some p \<longrightarrow> np_node_id p = k)"

lemma registry_inv_new: "registry_inv registry_new"
  by (simp add: registry_inv_def registry_new_def)

lemma registry_inv_register: "registry_inv r \<Longrightarrow> registry_inv (register_node r p)"
  by (simp add: registry_inv_def register_node_def)

lemma registry_inv_unregister: "registry_inv r \<Longrightarrow> registry_inv (unregister_node r d)"
  by (simp add: registry_inv_def unregister_node_def)

lemma registry_inv_evict: "registry_inv r \<Longrightarrow> registry_inv (evict_offline_nodes r t th)"
  by (auto simp: registry_inv_def evict_offline_nodes_def dom_def
      elim!: finite_subset [rotated])

lemma registry_inv_authenticate:
  "registry_inv r \<Longrightarrow> registry_inv (fst (authenticate_and_register_node cr r p ch sg ths))"
  by (auto simp: authenticate_and_register_node_def registry_inv_register split: sum.split)

lemmas registry_inv_intros = registry_inv_new registry_inv_register registry_inv_unregister
  registry_inv_evict registry_inv_authenticate

lemma registry_inv_iterates: "registry_inv r \<Longrightarrow> \<exists>ks. iterates (rg_nodes r) ks"
  by (auto simp: registry_inv_def iterates_def dest: finite_distinct_list)

text \<open>The listing is the registered profiles, whatever the iteration order.\<close>

lemma set_list_nodes:
  "registry_ok r \<Longrightarrow> iterates (rg_nodes r) ks \<Longrightarrow>
   set (list_nodes r ks) = {p. \<exists>k. get_node r k = Some p}"
  by (auto simp: registry_defs iterates_set_values ran_def)

lemma distinct_list_nodes:
  assumes "registry_inv r" and "iterates (rg_nodes r) ks"
  shows "distinct (map np_node_id (list_nodes r ks))"
proof -
  have "map np_node_id (values_in (rg_nodes r) js) = js" if "set js \<subseteq> dom (rg_nodes r)" for js
    using that assms(1) by (induction js) (auto simp: registry_inv_def split: option.splits)
  with assms(2) have "map np_node_id (values_in (rg_nodes r) ks) = ks"
    by (simp add: iterates_def)
  with assms(2) show ?thesis by (simp add: list_nodes_def iterates_def)
qed

lemma list_nodes_Nil_iff:
  "registry_ok r \<Longrightarrow> iterates (rg_nodes r) ks \<Longrightarrow> list_nodes r ks = [] \<longleftrightarrow> rg_nodes r = Map.empty"
  by (simp add: registry_defs values_in_Nil_iff)

text \<open>Eviction twice keeps what is fresh at both times; a larger threshold keeps more.\<close>

lemma evict_evict:
  "evict_offline_nodes (evict_offline_nodes r t1 th1) t2 th2 =
     (if rg_poisoned r then r
      else r\<lparr>rg_nodes := retain (\<lambda>_ p. fresh_at t1 th1 p \<and> fresh_at t2 th2 p) (rg_nodes r)\<rparr>)"
  by (simp add: evict_offline_nodes_def retain_retain)

lemma fresh_at_iff:
  "fresh_at t th p \<longleftrightarrow> t < np_last_seen p \<or> unat t - unat (np_last_seen p) < unat th"
  by (auto simp: fresh_at_def not_le word_less_nat_alt word_diff_unat word_le_nat_alt)

lemma fresh_at_mono: "t \<le> t' \<Longrightarrow> fresh_at t' th p \<Longrightarrow> fresh_at t th p"
  by (auto simp: fresh_at_iff word_less_nat_alt word_le_nat_alt)

subsection \<open>Properties\<close>

text \<open>C10: Eviction decides each node by its own age: after \<open>evict_offline_nodes\<close> a node is
  found exactly when it was found before and it is seen in the future or, with ages computed
  without wrap-around, its age is below the threshold; the survivor's profile is unchanged.\<close>

theorem evict_keeps_exactly_fresh:
  assumes "registry_ok r"
  shows "get_node (evict_offline_nodes r now th) k = Some p \<longleftrightarrow>
     get_node r k = Some p \<and>
     (unat now < unat (np_last_seen p) \<or> unat now - unat (np_last_seen p) < unat th)"
  using assms by (auto simp: get_node_evict fresh_at_iff word_less_nat_alt split: option.splits)

definition demo_node :: "string \<Rightarrow> u64 \<Rightarrow> node_profile" where
  "demo_node i t = \<lparr>np_node_id = i, np_os_platform = ''linux'', np_capabilities = [],
     np_last_seen = t, np_public_key = []\<rparr>"

definition demo_registry :: registry where
  "demo_registry = register_node (register_node registry_new (demo_node ''a'' 900)) (demo_node ''b'' 300)"

lemma demo_registry_ok [simp]: "registry_ok demo_registry"
  by (simp add: demo_registry_def)

lemma demo_node_simps [simp]:
  "np_node_id (demo_node i t) = i" "np_last_seen (demo_node i t) = t"
  by (simp_all add: demo_node_def)

lemma get_demo_registry:
  "get_node demo_registry k = (if k = ''b'' then Some (demo_node ''b'' 300)
     else if k = ''a'' then Some (demo_node ''a'' 900) else None)"
  by (simp add: demo_registry_def store_simps)

theorem evict_keeps_exactly_fresh_witness:
  "get_node (evict_offline_nodes demo_registry 1000 500) ''a'' = Some (demo_node ''a'' 900) \<and>
   get_node (evict_offline_nodes demo_registry 1000 500) ''b'' \<noteq> Some (demo_node ''b'' 300)"
  by (simp add: evict_keeps_exactly_fresh get_demo_registry)

text \<open>C8: Authenticated registration: the registry changes only when the public key decodes,
  its thumbprint is on the trusted list and the signature of the challenge verifies; then
  exactly the submitted profile is filed under its node id, and in every other case the call
  returns an error and the registry is as before.\<close>

theorem authenticated_registration:
  assumes "authenticate_and_register_node cr r p ch sg trusted = (r', res)"
  shows "(res = Inr () \<longleftrightarrow>
           (\<exists>pk. hex_decode cr (np_public_key p) = Inr pk \<and>
              thumbprint_hex cr pk \<in> set trusted \<and>
              verify_challenge_response cr (np_public_key p) ch sg)) \<and>
         (res = Inr () \<longrightarrow> r' = register_node r p) \<and>
         (res \<noteq> Inr () \<longrightarrow> r' = r)"
  using assms
  by (cases "hex_decode cr (np_public_key p)")
    (auto simp: authenticate_and_register_node_def split: if_splits)

theorem authenticated_registration_witness:
  "\<exists>r'. authenticate_and_register_node demo_crypto registry_new
      ((demo_node ''n'' 5)\<lparr>np_public_key := bytes_string [7]\<rparr>) [1, 2]
      (bytes_string [7, 1, 2]) [bytes_string [7]] = (r', Inr ()) \<and>
      r' = register_node registry_new ((demo_node ''n'' 5)\<lparr>np_public_key := bytes_string [7]\<rparr>)"
proof -
  let ?p = "(demo_node ''n'' 5)\<lparr>np_public_key := bytes_string [7]\<rparr>"
  obtain r' res where e: "authenticate_and_register_node demo_crypto registry_new ?p [1, 2]
      (bytes_string [7, 1, 2]) [bytes_string [7]] = (r', res)" by fastforce
  have "hex_decode demo_crypto (np_public_key ?p) = Inr [7]"
    and "thumbprint_hex demo_crypto [7] = bytes_string [7]"
    and "verify_challenge_response demo_crypto (np_public_key ?p) [1, 2] (bytes_string [7, 1, 2])"
    by (simp_all add: demo_crypto_def thumbprint_hex_def verify_challenge_response_def)
  with authenticated_registration [OF e] e show ?thesis by auto
qed

end
