(* ===== verification/Scheduler.thy ===== *)
theory Scheduler
  imports Registry
begin

text \<open>
  The hub's task table (\<open>compute-module-core/src/scheduler/mod.rs\<close>): tasks in a map behind a
  read-write lock, the reports of workers, recovery when a node is lost, and the stand-alone
  placement test. The dispatch of pending tasks is in \<open>Dispatch\<close>. The scheduler holds a clone
  of the registry, which shares its map; the operations that read it take the registry as an
  argument.
\<close>

datatype task_type = StatelessIdempotent | StatefulLongRunning | InteractiveLowLatency

datatype task_state =
    Pending
  | Running (run_node: string) (run_since: u64)
  | Completed bytes
  | Failed string

record task =
  tk_id :: string
  tk_type :: task_type
  tk_payload :: bytes
  tk_max_retries :: usize
  tk_state :: task_state
  tk_current_retry :: usize
  tk_required :: "string list"

definition task_new :: "string \<Rightarrow> task_type \<Rightarrow> bytes \<Rightarrow> usize \<Rightarrow> task" where
  "task_new task_id task_type payload max_retries =
     \<lparr>tk_id = task_id, tk_type = task_type, tk_payload = payload,
      tk_max_retries = max_retries, tk_state = Pending, tk_current_retry = 0,
      tk_required = []\<rparr>"

definition with_capabilities :: "task \<Rightarrow> string list \<Rightarrow> task" where
  "with_capabilities t caps = t\<lparr>tk_required := caps\<rparr>"

datatype execution_result =
    Success
  | RetryNeeded string
  | CheckpointSaved bytes
  | ImmediateFailure string

record scheduler =
  sc_tasks :: "string \<rightharpoonup> task"
  sc_poisoned :: bool

definition scheduler_new :: scheduler where
  "scheduler_new = \<lparr>sc_tasks = Map.empty, sc_poisoned = False\<rparr>"

definition submit_task :: "scheduler \<Rightarrow> task \<Rightarrow> scheduler" where
  "submit_task s t =
     (if sc_poisoned s then s else s\<lparr>sc_tasks := (sc_tasks s)(tk_id t \<mapsto> t)\<rparr>)"

definition get_task :: "scheduler \<Rightarrow> string \<Rightarrow> task option" where
  "get_task s task_id = (if sc_poisoned s then None else sc_tasks s task_id)"

definition list_tasks :: "scheduler \<Rightarrow> string list \<Rightarrow> task list" where
  "list_tasks s ks = (if sc_poisoned s then [] else values_in (sc_tasks s) ks)"

subsection \<open>Reports and recovery\<close>

text \<open>The retry rule, which the sources write out at each of its three uses: with retries
  left, count one and queue the task again, otherwise fail it with the given reason.\<close>

definition retry_or_fail :: "string \<Rightarrow> task \<Rightarrow> task" where
  "retry_or_fail reason t =
     (if tk_current_retry t < tk_max_retries t
      then t\<lparr>tk_current_retry := tk_current_retry t + 1, tk_state := Pending\<rparr>
      else t\<lparr>tk_state := Failed reason\<rparr>)"

fun apply_result :: "execution_result \<Rightarrow> task \<Rightarrow> task" where
  "apply_result Success t = t\<lparr>tk_state := Completed []\<rparr>"
| "apply_result (CheckpointSaved checkpoint) t = t\<lparr>tk_payload := checkpoint\<rparr>"
| "apply_result (RetryNeeded reason) t = retry_or_fail (''Max retries exceeded: '' @ reason) t"
| "apply_result (ImmediateFailure reason) t = t\<lparr>tk_state := Failed reason\<rparr>"

definition update_task_progress :: "scheduler \<Rightarrow> string \<Rightarrow> execution_result \<Rightarrow> scheduler" where
  "update_task_progress s task_id result =
     (if sc_poisoned s then s
      else (case sc_tasks s task_id of
              None \<Rightarrow> s
            | Some t \<Rightarrow> s\<lparr>sc_tasks := (sc_tasks s)(task_id \<mapsto> apply_result result t)\<rparr>))"

fun recover_task :: "task_type \<Rightarrow> task \<Rightarrow> task" where
  "recover_task StatelessIdempotent t =
     retry_or_fail ''Stateless task failed: node lost and max retries exceeded'' t"
| "recover_task StatefulLongRunning t =
     retry_or_fail ''Stateful task failed: node lost and max retries exceeded'' t"
| "recover_task InteractiveLowLatency t =
     t\<lparr>tk_state := Failed ''Interactive node departed. Dropping execution.''\<rparr>"

definition lose_node :: "string \<Rightarrow> task \<Rightarrow> task" where
  "lose_node node_id t =
     (case tk_state t of
        Running running_node _ \<Rightarrow>
          if running_node = node_id then recover_task (tk_type t) t else t
      | _ \<Rightarrow> t)"

text \<open>The loop over \<open>values_mut()\<close> changes each task on its own, so its order is immaterial.\<close>

definition handle_node_failure :: "scheduler \<Rightarrow> string \<Rightarrow> scheduler" where
  "handle_node_failure s node_id =
     (if sc_poisoned s then s
      else s\<lparr>sc_tasks := (\<lambda>k. map_option (lose_node node_id) (sc_tasks s k))\<rparr>)"

subsection \<open>The stand-alone placement test\<close>

definition schedule_task :: "registry \<Rightarrow> task \<Rightarrow> string \<Rightarrow> execution_result" where
  "schedule_task reg t node_id =
     (case get_node reg node_id of
        None \<Rightarrow>
          (case tk_type t of
             StatelessIdempotent \<Rightarrow> RetryNeeded ''Node not registered, needs reallocation''
           | StatefulLongRunning \<Rightarrow> RetryNeeded ''Node lost, scheduling from last checkpoint''
           | InteractiveLowLatency \<Rightarrow>
               ImmediateFailure ''Interactive node departed. Dropping execution.'')
      | Some n \<Rightarrow>
          (case tk_type t of
             StatelessIdempotent \<Rightarrow>
               if np_last_seen n < 1000
               then RetryNeeded ''Node communication laggy. Retrying on another node.''
               else Success
           | StatefulLongRunning \<Rightarrow> CheckpointSaved [1, 2, 3, 4]
           | InteractiveLowLatency \<Rightarrow>
               if np_last_seen n < 500
               then ImmediateFailure ''Latency threshold violated. Immediate host fallback.''
               else Success))"

subsection \<open>The table is a keyed store\<close>

definition scheduler_ok :: "scheduler \<Rightarrow> bool" where
  "scheduler_ok s \<longleftrightarrow> \<not> sc_poisoned s"

lemmas scheduler_defs = submit_task_def get_task_def list_tasks_def update_task_progress_def
  handle_node_failure_def scheduler_ok_def

interpretation task_store: keyed_store tk_id get_task submit_task scheduler_ok
  by unfold_locales (auto simp: scheduler_defs)

lemma scheduler_new_ok [simp]: "scheduler_ok scheduler_new"
  by (simp add: scheduler_new_def scheduler_ok_def)

lemma get_task_new [simp]: "get_task scheduler_new k = None"
  by (simp add: scheduler_new_def get_task_def)

lemma get_task_submit [store_simps]:
  "scheduler_ok s \<Longrightarrow> get_task (submit_task s t) k = (if k = tk_id t then Some t else get_task s k)"
  by (rule task_store.look_put)

lemma get_task_update [store_simps]:
  "get_task (update_task_progress s tid res) k =
     (if k = tid then map_option (apply_result res) (get_task s k) else get_task s k)"
  by (auto simp: scheduler_defs split: option.split)

lemma get_task_node_failure [store_simps]:
  "get_task (handle_node_failure s n) k = map_option (lose_node n) (get_task s k)"
  by (simp add: scheduler_defs)

lemma scheduler_ok_ops [simp]:
  "scheduler_ok (submit_task s t) = scheduler_ok s"
  "scheduler_ok (update_task_progress s tid res) = scheduler_ok s"
  "scheduler_ok (handle_node_failure s n) = scheduler_ok s"
  by (simp_all add: scheduler_defs split: option.split)

subsection \<open>One task: what never changes, and the retry count\<close>

definition task_ok :: "task \<Rightarrow> bool" where
  "task_ok t \<longleftrightarrow> tk_current_retry t \<le> tk_max_retries t"

definition retries_left :: "task \<Rightarrow> nat" where
  "retries_left t = unat (tk_max_retries t) - unat (tk_current_retry t)"

lemma task_ok_new [simp]: "task_ok (task_new i ty p m)"
  by (simp add: task_ok_def task_new_def)

lemma task_ok_with_capabilities [simp]: "task_ok (with_capabilities t c) = task_ok t"
  by (simp add: task_ok_def with_capabilities_def)

lemma task_ok_fields [simp]:
  "task_ok (t\<lparr>tk_state := x\<rparr>) = task_ok t" "task_ok (t\<lparr>tk_payload := c\<rparr>) = task_ok t"
  "retries_left (t\<lparr>tk_state := x\<rparr>) = retries_left t"
  "retries_left (t\<lparr>tk_payload := c\<rparr>) = retries_left t"
  by (simp_all add: task_ok_def retries_left_def)

lemma task_new_fields [simp]:
  "tk_id (with_capabilities (task_new i ty p m) c) = i"
  "tk_state (with_capabilities (task_new i ty p m) c) = Pending"
  "tk_required (with_capabilities (task_new i ty p m) c) = c"
  "tk_payload (with_capabilities (task_new i ty p m) c) = p"
  by (simp_all add: task_new_def with_capabilities_def)

lemma retry_or_fail_id [simp]: "tk_id (retry_or_fail r t) = tk_id t"
  by (simp add: retry_or_fail_def)

lemma apply_result_id [simp]: "tk_id (apply_result res t) = tk_id t"
  by (cases res) simp_all

lemma recover_task_id [simp]: "tk_id (recover_task ty t) = tk_id t"
  by (cases ty) simp_all

lemma lose_node_id [simp]: "tk_id (lose_node n t) = tk_id t"
  by (simp add: lose_node_def split: task_state.split)

lemma retry_or_fail_ok: "task_ok t \<Longrightarrow> task_ok (retry_or_fail r t)"
  by (auto simp: task_ok_def retry_or_fail_def intro: inc_le)

lemma apply_result_ok: "task_ok t \<Longrightarrow> task_ok (apply_result res t)"
  by (cases res) (simp_all add: retry_or_fail_ok)

lemma recover_task_ok: "task_ok t \<Longrightarrow> task_ok (recover_task ty t)"
  by (cases ty) (simp_all add: retry_or_fail_ok)

lemma lose_node_ok: "task_ok t \<Longrightarrow> task_ok (lose_node n t)"
  by (simp add: lose_node_def recover_task_ok split: task_state.split)

lemma lose_node_other:
  "(\<And>since. tk_state t \<noteq> Running n since) \<Longrightarrow> lose_node n t = t"
  by (simp add: lose_node_def split: task_state.split)

lemma lose_node_not_running: "tk_state (lose_node n t) \<noteq> Running n since"
proof (cases "tk_state t")
  case (Running m s)
  then show ?thesis
    by (cases "tk_type t") (auto simp: lose_node_def retry_or_fail_def)
qed (auto simp: lose_node_def)

subsection \<open>The abstract life of a task\<close>

text \<open>
  The promise of the table, without reasons, payloads and times: a task is queued, assigned
  to a node, done or dead, and has a number of retries left. It is queued again only at the
  cost of one retry.
\<close>

datatype phase = Queued | Assigned string | Done | Dead

fun phase_of :: "task_state \<Rightarrow> phase" where
  "phase_of Pending = Queued"
| "phase_of (Running n _) = Assigned n"
| "phase_of (Completed _) = Done"
| "phase_of (Failed _) = Dead"

definition life_of :: "task \<Rightarrow> phase \<times> nat" where
  "life_of t = (phase_of (tk_state t), retries_left t)"

inductive life_step :: "phase \<times> nat \<Rightarrow> phase \<times> nat \<Rightarrow> bool" where
  keep: "life_step (p, r) (p, r)"
| assign: "life_step (Queued, r) (Assigned n, r)"
| finish: "life_step (p, r) (Done, r)"
| again: "life_step (p, Suc r) (Queued, r)"
| die: "life_step (p, r) (Dead, r)"

inductive_simps life_step_Queued: "life_step (p, r) (Queued, r')"
inductive_simps life_step_Assigned: "life_step (p, r) (Assigned n, r')"
inductive_cases life_step_from_Done: "life_step (Done, r) l"

lemma life_step_retries: "life_step l l' \<Longrightarrow> snd l' \<le> snd l"
  by (induction rule: life_step.induct) simp_all

lemma retry_or_fail_life: "life_step (life_of t) (life_of (retry_or_fail r t))"
proof (cases "tk_current_retry t < tk_max_retries t")
  case True
  then have "retries_left t = Suc (retries_left (retry_or_fail r t))"
    by (simp add: retries_left_def retry_or_fail_def word_less_imp_Suc_unat [OF True])
      (simp add: word_less_nat_alt)
  moreover have "tk_state (retry_or_fail r t) = Pending"
    using True by (simp add: retry_or_fail_def)
  ultimately show ?thesis by (simp add: life_of_def life_step.again)
next
  case False
  then show ?thesis
    by (simp add: retry_or_fail_def life_of_def retries_left_def life_step.die)
qed

lemma life_step_refl [simp]: "life_step l l"
  by (cases l) (simp add: life_step.keep)

lemma life_of_fields [simp]:
  "life_of (t\<lparr>tk_state := x\<rparr>) = (phase_of x, retries_left t)"
  "life_of (t\<lparr>tk_payload := c\<rparr>) = life_of t"
  by (simp_all add: life_of_def)

lemma life_step_finish: "life_step (life_of t) (Done, retries_left t)"
  by (simp add: life_of_def life_step.finish)

lemma life_step_die: "life_step (life_of t) (Dead, retries_left t)"
  by (simp add: life_of_def life_step.die)

lemma apply_result_life: "life_step (life_of t) (life_of (apply_result res t))"
  by (cases res) (simp_all add: retry_or_fail_life life_step_finish life_step_die)

lemma recover_task_life: "life_step (life_of t) (life_of (recover_task ty t))"
  by (cases ty) (simp_all add: retry_or_fail_life life_step_die)

lemma lose_node_life: "life_step (life_of t) (life_of (lose_node n t))"
  by (cases "tk_state t") (simp_all add: lose_node_def recover_task_life)

end
