(* ===== verification/Dispatch.thy ===== *)
theory Dispatch
  imports Scheduler
begin

text \<open>
  The dispatch of pending tasks (\<open>dispatch_pending_tasks\<close> of
  \<open>compute-module-core/src/scheduler/mod.rs\<close>): every pending task for which some registered
  node is capable is assigned to one of its capable nodes, chosen by a counter that runs over
  the dispatched tasks. The lemmas give the exact effect on the table, the exact list of
  assignments, and from it the balance of the round robin.
\<close>

subsection \<open>Dispatch\<close>

definition node_matches_capabilities :: "node_profile \<Rightarrow> string list \<Rightarrow> bool" where
  "node_matches_capabilities n required =
     (if required = [] then True
      else list_all (\<lambda>req. req \<in> set (map cap_value (np_capabilities n))) required)"

definition capable_nodes :: "node_profile list \<Rightarrow> task \<Rightarrow> node_profile list" where
  "capable_nodes nodes t = filter (\<lambda>n. node_matches_capabilities n (tk_required t)) nodes"

fun dispatch_loop ::
    "node_profile list \<Rightarrow> u64 \<Rightarrow> string list \<Rightarrow> nat \<Rightarrow> (string \<rightharpoonup> task) \<Rightarrow>
     (string \<rightharpoonup> task) \<times> (string \<times> string) list" where
  "dispatch_loop nodes now [] node_idx m = (m, [])"
| "dispatch_loop nodes now (k # ks) node_idx m =
     (case m k of
        None \<Rightarrow> dispatch_loop nodes now ks node_idx m
      | Some t \<Rightarrow>
          if tk_state t = Pending then
            (let capable = capable_nodes nodes t in
             if capable = [] then dispatch_loop nodes now ks node_idx m
             else
               (let target = capable ! (node_idx mod length capable);
                    t' = t\<lparr>tk_state := Running (np_node_id target) now\<rparr>;
                    (m', ds) = dispatch_loop nodes now ks (Suc node_idx) (m(k \<mapsto> t'))
                in (m', (tk_id t, np_node_id target) # ds)))
          else dispatch_loop nodes now ks node_idx m)"

definition dispatch_pending_tasks ::
    "registry \<Rightarrow> scheduler \<Rightarrow> u64 \<Rightarrow> string list \<Rightarrow> string list \<Rightarrow>
     scheduler \<times> (string \<times> string) list" where
  "dispatch_pending_tasks reg s now nks tks =
     (let nodes = list_nodes reg nks in
      if nodes = [] then (s, [])
      else if sc_poisoned s then (s, [])
      else (let (m', ds) = dispatch_loop nodes now tks 0 (sc_tasks s)
            in (s\<lparr>sc_tasks := m'\<rparr>, ds)))"


subsection \<open>The exact effect of the loop\<close>

definition dispatchable :: "node_profile list \<Rightarrow> task \<Rightarrow> bool" where
  "dispatchable nodes t \<longleftrightarrow> tk_state t = Pending \<and> capable_nodes nodes t \<noteq> []"

definition chosen_node :: "node_profile list \<Rightarrow> nat \<Rightarrow> task \<Rightarrow> node_profile" where
  "chosen_node nodes i t = capable_nodes nodes t ! (i mod length (capable_nodes nodes t))"

definition assigned :: "u64 \<Rightarrow> node_profile \<Rightarrow> task \<Rightarrow> task" where
  "assigned now n t = t\<lparr>tk_state := Running (np_node_id n) now\<rparr>"

lemma assigned_simps [simp]:
  "tk_state (assigned now n t) = Running (np_node_id n) now" "tk_id (assigned now n t) = tk_id t"
  "tk_required (assigned now n t) = tk_required t" "task_ok (assigned now n t) = task_ok t"
  "life_of (assigned now n t) = (Assigned (np_node_id n), retries_left t)"
  "dispatchable nodes (assigned now n t) = False"
  by (simp_all add: assigned_def dispatchable_def)

lemma chosen_node_capable:
  "dispatchable nodes t \<Longrightarrow> chosen_node nodes i t \<in> set (capable_nodes nodes t)"
  by (simp add: chosen_node_def dispatchable_def)

lemma set_capable_nodes:
  "n \<in> set (capable_nodes nodes t) \<longleftrightarrow> n \<in> set nodes \<and> node_matches_capabilities n (tk_required t)"
  by (simp add: capable_nodes_def)

text \<open>One turn of the loop, with its two guards as one.\<close>

lemma dispatch_loop_Cons:
  "dispatch_loop nodes now (k # ks) i m =
     (case m k of
        None \<Rightarrow> dispatch_loop nodes now ks i m
      | Some t \<Rightarrow>
          if dispatchable nodes t then
            (let r = dispatch_loop nodes now ks (Suc i) (m(k \<mapsto> assigned now (chosen_node nodes i t) t))
             in (fst r, (tk_id t, np_node_id (chosen_node nodes i t)) # snd r))
          else dispatch_loop nodes now ks i m)"
  by (auto simp: dispatchable_def chosen_node_def assigned_def Let_def split: option.split prod.split)

declare dispatch_loop.simps(2) [simp del]

lemma dispatch_loop_other:
  "k \<notin> set ks \<Longrightarrow> fst (dispatch_loop nodes now ks i m) k = m k"
  by (induction ks arbitrary: i m) (auto simp: dispatch_loop_Cons Let_def split: option.split)

text \<open>Whatever the list of keys, an entry stays or turns from pending to assigned.\<close>

lemma dispatch_loop_entry:
  assumes "m k = Some t"
  shows "\<exists>t'. fst (dispatch_loop nodes now ks i m) k = Some t' \<and>
    (t' = t \<or> tk_state t = Pending \<and> (\<exists>n. t' = assigned now n t))"
  using assms
proof (induction ks arbitrary: i m t)
  case Nil
  then show ?case by simp
next
  case (Cons j ks)
  show ?case
  proof (cases "\<exists>u. m j = Some u \<and> dispatchable nodes u")
    case True
    then obtain u where u: "m j = Some u" "dispatchable nodes u" by blast
    let ?m = "m(j \<mapsto> assigned now (chosen_node nodes i u) u)"
    from u have e: "fst (dispatch_loop nodes now (j # ks) i m) k =
        fst (dispatch_loop nodes now ks (Suc i) ?m) k"
      by (simp add: dispatch_loop_Cons Let_def)
    show ?thesis
    proof (cases "j = k")
      case True
      with u Cons.prems have "t = u" by simp
      have "?m k = Some (assigned now (chosen_node nodes i u) u)" using True by simp
      from Cons.IH [where m = ?m, OF this, of "Suc i"] have
        "fst (dispatch_loop nodes now ks (Suc i) ?m) k = Some (assigned now (chosen_node nodes i u) u)"
        by (auto simp del: fun_upd_apply)
      with e u \<open>t = u\<close> show ?thesis unfolding dispatchable_def by auto
    next
      case False
      then have "?m k = Some t" using Cons.prems by simp
      from Cons.IH [where m = ?m, OF this, of "Suc i"] e show ?thesis by (simp only:)
    qed
  next
    case False
    then have "dispatch_loop nodes now (j # ks) i m = dispatch_loop nodes now ks i m"
      by (auto simp: dispatch_loop_Cons split: option.split)
    with Cons show ?thesis by simp
  qed
qed

lemma dispatch_loop_none: "m k = None \<Longrightarrow> fst (dispatch_loop nodes now ks i m) k = None"
proof (induction ks arbitrary: i m)
  case (Cons j ks)
  have "fst (dispatch_loop nodes now ks (Suc i) (m(j \<mapsto> u))) k = None" if "m j \<noteq> None" for u
    using Cons that by (metis fun_upd_other)
  with Cons show ?case by (auto simp: dispatch_loop_Cons Let_def split: option.split)
qed simp

lemma dispatch_loop_dom: "dom (fst (dispatch_loop nodes now ks i m)) = dom m"
proof -
  have "fst (dispatch_loop nodes now ks i m) k = None \<longleftrightarrow> m k = None" for k
    using dispatch_loop_entry [of m k _ nodes now ks i] dispatch_loop_none [of m k nodes now ks i]
    by (metis not_None_eq)
  then show ?thesis by (auto simp: dom_def)
qed

text \<open>Over an order without repetition, the loop assigns exactly the dispatchable entries.\<close>

lemma dispatch_loop_hit:
  assumes "distinct ks" and "k \<in> set ks" and "m k = Some t"
  shows "if dispatchable nodes t
    then \<exists>n\<in>set (capable_nodes nodes t).
      fst (dispatch_loop nodes now ks i m) k = Some (assigned now n t) \<and>
      (tk_id t, np_node_id n) \<in> set (snd (dispatch_loop nodes now ks i m))
    else fst (dispatch_loop nodes now ks i m) k = Some t"
  using assms
proof (induction ks arbitrary: i m)
  case Nil
  then show ?case by simp
next
  case (Cons j ks)
  show ?case
  proof (cases "j = k")
    case True
    with Cons.prems chosen_node_capable [of nodes t i] show ?thesis
      by (auto simp: dispatch_loop_Cons Let_def dispatch_loop_other)
  next
    case False
    then have upd: "(m(j \<mapsto> u)) k = Some t" for u using Cons.prems by simp
    from False Cons.prems have ks: "distinct ks" "k \<in> set ks" by simp_all
    note keep = Cons.IH [where m = m, OF ks Cons.prems(3), of i]
    note step = Cons.IH [where i = "Suc i" and m = "m(j \<mapsto> u)" for u, OF ks upd]
    show ?thesis
    proof (cases "dispatchable nodes t")
      case True
      with keep step show ?thesis
        unfolding dispatch_loop_Cons Let_def by (fastforce split: option.split)
    next
      case False
      with keep step show ?thesis
        unfolding dispatch_loop_Cons Let_def by (simp split: option.split)
    qed
  qed
qed

subsection \<open>The exact list of assignments\<close>

text \<open>The reference: the dispatchable tasks in iteration order, the \<open>i\<close>-th given to the
  \<open>i\<close>-th of its capable nodes, cyclically.\<close>

fun round_robin :: "node_profile list \<Rightarrow> nat \<Rightarrow> task list \<Rightarrow> (string \<times> string) list" where
  "round_robin nodes i [] = []"
| "round_robin nodes i (t # ts) =
     (tk_id t, np_node_id (chosen_node nodes i t)) # round_robin nodes (Suc i) ts"

lemma values_in_update: "k \<notin> set ks \<Longrightarrow> values_in (m(k \<mapsto> v)) ks = values_in m ks"
  by (induction ks) (auto split: option.split)

lemma dispatch_loop_list:
  "distinct ks \<Longrightarrow> snd (dispatch_loop nodes now ks i m) =
     round_robin nodes i (filter (dispatchable nodes) (values_in m ks))"
proof (induction ks arbitrary: i m)
  case Nil
  then show ?case by simp
next
  case (Cons k ks)
  then show ?case
    by (auto simp: dispatch_loop_Cons Let_def values_in_update split: option.split)
qed

lemma map_fst_round_robin: "map fst (round_robin nodes i ts) = map tk_id ts"
  by (induction ts arbitrary: i) simp_all

lemma length_round_robin [simp]: "length (round_robin nodes i ts) = length ts"
  by (induction ts arbitrary: i) simp_all

lemma round_robin_nth:
  "j < length ts \<Longrightarrow> round_robin nodes i ts ! j =
     (tk_id (ts ! j), np_node_id (chosen_node nodes (i + j) (ts ! j)))"
proof (induction ts arbitrary: i j)
  case (Cons t ts)
  then show ?case by (cases j) simp_all
qed simp

subsection \<open>The effect on the table\<close>

definition sched_inv :: "scheduler \<Rightarrow> bool" where
  "sched_inv s \<longleftrightarrow> finite (dom (sc_tasks s)) \<and>
     (\<forall>k t. sc_tasks s k = Some t \<longrightarrow> tk_id t = k \<and> task_ok t)"

lemma sched_inv_new: "sched_inv scheduler_new"
  by (simp add: sched_inv_def scheduler_new_def)

lemma sched_inv_task: "sched_inv s \<Longrightarrow> get_task s k = Some t \<Longrightarrow> tk_id t = k \<and> task_ok t"
  by (simp add: sched_inv_def get_task_def split: if_splits)

lemma sched_inv_iterates: "sched_inv s \<Longrightarrow> \<exists>ks. iterates (sc_tasks s) ks"
  by (auto simp: sched_inv_def iterates_def dest: finite_distinct_list)

lemma sched_inv_submit: "sched_inv s \<Longrightarrow> task_ok t \<Longrightarrow> sched_inv (submit_task s t)"
  by (simp add: sched_inv_def submit_task_def)

lemma sched_inv_update: "sched_inv s \<Longrightarrow> sched_inv (update_task_progress s k res)"
  by (auto simp: sched_inv_def update_task_progress_def apply_result_ok split: option.split)

lemma sched_inv_node_failure: "sched_inv s \<Longrightarrow> sched_inv (handle_node_failure s n)"
  by (auto simp: sched_inv_def handle_node_failure_def lose_node_ok dom_def)

lemma dispatch_pending_tasks_cases:
  "dispatch_pending_tasks reg s now nks tks =
     (if sc_poisoned s \<or> list_nodes reg nks = [] then (s, [])
      else (s\<lparr>sc_tasks := fst (dispatch_loop (list_nodes reg nks) now tks 0 (sc_tasks s))\<rparr>,
            snd (dispatch_loop (list_nodes reg nks) now tks 0 (sc_tasks s))))"
  by (simp add: dispatch_pending_tasks_def Let_def split: prod.split)

lemma sched_inv_dispatch: "sched_inv s \<Longrightarrow> sched_inv (fst (dispatch_pending_tasks reg s now nks tks))"
proof -
  assume inv: "sched_inv s"
  let ?m = "fst (dispatch_loop (list_nodes reg nks) now tks 0 (sc_tasks s))"
  have "tk_id t' = k \<and> task_ok t'" if m': "?m k = Some t'" for k t'
  proof -
    have "sc_tasks s k \<noteq> None"
    proof
      assume "sc_tasks s k = None"
      with m' show False by (simp add: dispatch_loop_none)
    qed
    then obtain t where "sc_tasks s k = Some t" by blast
    with dispatch_loop_entry [where m = "sc_tasks s", OF this, of "list_nodes reg nks" now tks 0] m' inv
    show ?thesis by (auto simp: sched_inv_def)
  qed
  with inv show ?thesis
    by (simp add: dispatch_pending_tasks_cases sched_inv_def dispatch_loop_dom)
qed

lemmas sched_inv_intros = sched_inv_new sched_inv_submit sched_inv_update sched_inv_node_failure
  sched_inv_dispatch

lemma scheduler_ok_dispatch [simp]:
  "scheduler_ok (fst (dispatch_pending_tasks reg s now nks tks)) = scheduler_ok s"
  by (simp add: dispatch_pending_tasks_cases scheduler_ok_def)

lemma get_task_dispatch_entry:
  assumes "get_task s k = Some t"
  shows "\<exists>t'. get_task (fst (dispatch_pending_tasks reg s now nks tks)) k = Some t' \<and>
    (t' = t \<or> tk_state t = Pending \<and> (\<exists>n. t' = assigned now n t))"
  using assms dispatch_loop_entry [of "sc_tasks s" k t "list_nodes reg nks" now tks 0]
  by (auto simp: dispatch_pending_tasks_cases get_task_def split: if_splits)

lemma get_task_dispatch_none:
  "get_task s k = None \<Longrightarrow> get_task (fst (dispatch_pending_tasks reg s now nks tks)) k = None"
  by (auto simp: dispatch_pending_tasks_cases get_task_def dispatch_loop_none split: if_splits)

lemma dispatchable_Nil [simp]: "\<not> dispatchable [] t"
  by (simp add: dispatchable_def capable_nodes_def)

lemma get_task_dispatch:
  assumes "scheduler_ok s" and "iterates (sc_tasks s) tks" and "get_task s k = Some t"
  shows "if dispatchable (list_nodes reg nks) t
    then \<exists>n\<in>set (capable_nodes (list_nodes reg nks) t).
      get_task (fst (dispatch_pending_tasks reg s now nks tks)) k = Some (assigned now n t) \<and>
      (tk_id t, np_node_id n) \<in> set (snd (dispatch_pending_tasks reg s now nks tks))
    else get_task (fst (dispatch_pending_tasks reg s now nks tks)) k = Some t"
proof (cases "list_nodes reg nks = []")
  case True
  with assms show ?thesis by (simp add: dispatch_pending_tasks_cases)
next
  case False
  have "sc_tasks s k = Some t" and "distinct tks" and "k \<in> set tks"
    using assms by (auto simp: scheduler_defs iterates_def)
  with dispatch_loop_hit [where m = "sc_tasks s", OF this(2,3,1), of "list_nodes reg nks" now 0] False assms(1)
  show ?thesis by (simp add: dispatch_pending_tasks_cases scheduler_defs)
qed

definition ready_tasks :: "node_profile list \<Rightarrow> scheduler \<Rightarrow> string list \<Rightarrow> task list" where
  "ready_tasks nodes s tks = filter (dispatchable nodes) (list_tasks s tks)"

lemma dispatch_list:
  assumes "iterates (sc_tasks s) tks"
  shows "snd (dispatch_pending_tasks reg s now nks tks) =
    round_robin (list_nodes reg nks) 0 (ready_tasks (list_nodes reg nks) s tks)"
  using assms
  by (auto simp: dispatch_pending_tasks_cases dispatch_loop_list iterates_def ready_tasks_def
      list_tasks_def)

lemma ids_of_tasks:
  assumes "sched_inv s" and "iterates (sc_tasks s) tks"
  shows "distinct (map tk_id (list_tasks s tks))"
proof -
  have "map tk_id (values_in (sc_tasks s) js) = js" if "set js \<subseteq> dom (sc_tasks s)" for js
    using that assms(1) by (induction js) (auto simp: sched_inv_def split: option.splits)
  with assms(2) show ?thesis by (simp add: list_tasks_def iterates_def)
qed

lemma set_list_tasks:
  "scheduler_ok s \<Longrightarrow> iterates (sc_tasks s) tks \<Longrightarrow>
   set (list_tasks s tks) = {t. \<exists>k. get_task s k = Some t}"
  by (auto simp: scheduler_defs iterates_set_values ran_def)

lemma distinct_dispatch:
  assumes "sched_inv s" and "iterates (sc_tasks s) tks"
  shows "distinct (map fst (snd (dispatch_pending_tasks reg s now nks tks)))"
  using ids_of_tasks [OF assms]
  by (simp add: dispatch_list [OF assms(2)] map_fst_round_robin ready_tasks_def distinct_map_filter)

lemma dispatched_ids:
  assumes "scheduler_ok s" and "iterates (sc_tasks s) tks"
  shows "fst ` set (snd (dispatch_pending_tasks reg s now nks tks)) =
    {tk_id t | t. (\<exists>k. get_task s k = Some t) \<and> dispatchable (list_nodes reg nks) t}"
proof -
  have "fst ` set (round_robin ns i ts) = tk_id ` set ts" for ns i ts
    using map_fst_round_robin [of ns i ts] by (metis set_map)
  then show ?thesis
    using assms by (auto simp: dispatch_list ready_tasks_def set_list_tasks)
qed

lemma dispatchable_list_nodes:
  assumes "registry_ok reg" and "iterates (rg_nodes reg) nks"
  shows "dispatchable (list_nodes reg nks) t \<longleftrightarrow> tk_state t = Pending \<and>
    (\<exists>i n. get_node reg i = Some n \<and> node_matches_capabilities n (tk_required t))"
proof -
  have "capable_nodes (list_nodes reg nks) t \<noteq> [] \<longleftrightarrow>
      (\<exists>n. n \<in> set (capable_nodes (list_nodes reg nks) t))"
    by (metis length_greater_0_conv length_pos_if_in_set nth_mem)
  then show ?thesis
    by (auto simp: dispatchable_def set_capable_nodes set_list_nodes [OF assms])
qed

lemma iterates_dispatch [simp]:
  "iterates (sc_tasks (fst (dispatch_pending_tasks reg s now nks tks))) ks = iterates (sc_tasks s) ks"
  by (simp add: iterates_def dispatch_pending_tasks_cases dispatch_loop_dom)

lemma iterates_swap: "iterates m [a, b] \<Longrightarrow> iterates m [b, a]"
  by (auto simp: iterates_def)

subsection \<open>Balance of the round robin\<close>

definition load :: "(string \<times> string) list \<Rightarrow> string \<Rightarrow> nat" where
  "load ds node_id = length (filter (\<lambda>d. snd d = node_id) ds)"

lemma load_map: "load ds node_id = length (filter (\<lambda>i. i = node_id) (map snd ds))"
  by (simp add: load_def filter_map comp_def)

lemma residue_count:
  fixes m n r :: nat
  assumes "r < n"
  shows "length (filter (\<lambda>j. j mod n = r) [0..<m]) = (m + (n - 1 - r)) div n"
proof (induction m)
  case 0
  then show ?case using assms by simp
next
  case (Suc m)
  have "Suc (m + (n - 1 - r)) mod n = 0 \<longleftrightarrow> m mod n = r"
  proof -
    have "Suc (m + (n - 1 - r)) = m + (n - r)" using assms by simp
    moreover have "(m + (n - r)) mod n = 0 \<longleftrightarrow> m mod n = r"
    proof -
      have lt: "m mod n < n" using assms by simp
      have "(m + (n - r)) mod n = (m mod n + (n - r)) mod n" by (simp add: mod_add_left_eq)
      also have "\<dots> = 0 \<longleftrightarrow> m mod n = r"
      proof (cases "m mod n < r")
        case True
        then have "m mod n + (n - r) < n" and "0 < m mod n + (n - r)" using assms by simp_all
        then show ?thesis using True assms by simp
      next
        case False
        then have "m mod n + (n - r) = n + (m mod n - r)" using assms lt by simp
        moreover have "(n + (m mod n - r)) mod n = m mod n - r"
          using lt False by (metis less_imp_diff_less mod_add_self1 mod_less)
        ultimately show ?thesis using False by simp
      qed
      finally show ?thesis .
    qed
    ultimately show ?thesis by (simp only:)
  qed
  with Suc.IH show ?case by (simp add: div_Suc)
qed

lemma residue_count_balanced:
  assumes "r < n" and "q < (n :: nat)"
  shows "length (filter (\<lambda>j. j mod n = r) [0..<m]) \<le> length (filter (\<lambda>j. j mod n = q) [0..<m]) + 1"
proof -
  have "(m + (n - 1 - r)) div n \<le> (m + n) div n" by (rule div_le_mono) simp
  also have "\<dots> = m div n + 1" using assms by simp
  also have "\<dots> \<le> (m + (n - 1 - q)) div n + 1" by (simp add: div_le_mono)
  finally show ?thesis by (simp add: residue_count [OF assms(1)] residue_count [OF assms(2)])
qed

lemma round_robin_load:
  assumes "\<forall>t\<in>set ts. capable_nodes nodes t = C" and "distinct (map np_node_id C)"
    and "r < length C"
  shows "load (round_robin nodes 0 ts) (np_node_id (C ! r)) =
    length (filter (\<lambda>j. j mod length C = r) [0..<length ts])"
proof -
  let ?n = "length C"
  have "map snd (round_robin nodes 0 ts) = map (\<lambda>j. np_node_id (C ! (j mod ?n))) [0..<length ts]"
    using assms(1) by (intro nth_equalityI) (simp_all add: round_robin_nth chosen_node_def)
  then have "load (round_robin nodes 0 ts) (np_node_id (C ! r)) =
      length (filter (\<lambda>j. np_node_id (C ! (j mod ?n)) = np_node_id (C ! r)) [0..<length ts])"
    by (simp only: load_map) (simp add: filter_map comp_def)
  also have "(\<lambda>j. np_node_id (C ! (j mod ?n)) = np_node_id (C ! r)) = (\<lambda>j. j mod ?n = r)"
  proof
    fix j
    have "j mod ?n < ?n" using assms(3) by (intro mod_less_divisor) linarith
    then show "(np_node_id (C ! (j mod ?n)) = np_node_id (C ! r)) = (j mod ?n = r)"
      using assms(2,3) nth_eq_iff_index_eq [of "map np_node_id C" "j mod ?n" r] by simp
  qed
  finally show ?thesis .
qed

subsection \<open>A small hub, for concrete instances\<close>

definition demo_task :: "string \<Rightarrow> task" where
  "demo_task i = task_new i StatelessIdempotent [1] 2"

definition demo_scheduler :: scheduler where
  "demo_scheduler = submit_task (submit_task scheduler_new (demo_task ''t1'')) (demo_task ''t2'')"

lemma demo_task_simps [simp]:
  "tk_id (demo_task i) = i" "tk_state (demo_task i) = Pending" "tk_required (demo_task i) = []"
  "task_ok (demo_task i)"
  by (simp_all add: demo_task_def task_new_def task_ok_def)

lemma demo_scheduler_ok [simp]: "scheduler_ok demo_scheduler"
  by (simp add: demo_scheduler_def)

lemma demo_scheduler_inv: "sched_inv demo_scheduler"
  by (simp add: demo_scheduler_def sched_inv_intros)

lemma get_demo_scheduler:
  "get_task demo_scheduler k = (if k = ''t2'' then Some (demo_task ''t2'')
     else if k = ''t1'' then Some (demo_task ''t1'') else None)"
  by (simp add: demo_scheduler_def store_simps)

lemma demo_iterates:
  "iterates (rg_nodes demo_registry) [''a'', ''b'']"
  "iterates (sc_tasks demo_scheduler) [''t1'', ''t2'']"
  by (auto simp: iterates_def demo_registry_def register_node_def registry_new_def
      demo_scheduler_def submit_task_def scheduler_new_def)

lemma demo_registry_inv: "registry_inv demo_registry"
  by (simp add: demo_registry_def registry_inv_intros)

lemma node_matches_nothing [simp]: "node_matches_capabilities n []"
  by (simp add: node_matches_capabilities_def)

subsection \<open>Properties\<close>

text \<open>C1: Dispatch is sound and complete for every iteration order of the two maps: a pending
  task that some registered node can run is assigned to a registered node that offers every
  capability value the task requires, is marked running there since the dispatch time and is
  reported in the list; every other task keeps its value and is not reported; no task is
  reported twice.\<close>

theorem dispatch_sound_and_complete:
  assumes "registry_ok reg" and "iterates (rg_nodes reg) nks"
    and "scheduler_ok s" and "sched_inv s" and "iterates (sc_tasks s) tks"
    and "dispatch_pending_tasks reg s now nks tks = (s', ds)"
    and "get_task s k = Some t"
  shows "(if tk_state t = Pending \<and>
            (\<exists>i n. get_node reg i = Some n \<and> node_matches_capabilities n (tk_required t))
          then \<exists>i n. get_node reg i = Some n \<and> node_matches_capabilities n (tk_required t) \<and>
            (k, np_node_id n) \<in> set ds \<and>
            get_task s' k = Some (t\<lparr>tk_state := Running (np_node_id n) now\<rparr>)
          else get_task s' k = Some t \<and> k \<notin> fst ` set ds) \<and>
         distinct (map fst ds)"
proof -
  let ?ns = "list_nodes reg nks"
  have eq: "s' = fst (dispatch_pending_tasks reg s now nks tks)"
      "ds = snd (dispatch_pending_tasks reg s now nks tks)" using assms(6) by simp_all
  have dist: "distinct (map fst ds)" using distinct_dispatch [OF assms(4,5)] eq by simp
  have id: "tk_id t = k" using sched_inv_task [OF assms(4,7)] by simp
  have hit: "dispatchable ?ns t \<longleftrightarrow> tk_state t = Pending \<and>
      (\<exists>i n. get_node reg i = Some n \<and> node_matches_capabilities n (tk_required t))"
    by (rule dispatchable_list_nodes [OF assms(1,2)])
  note effect = get_task_dispatch [OF assms(3,5,7), of reg nks now, folded eq]
  show ?thesis
  proof (cases "dispatchable ?ns t")
    case True
    with effect id obtain n where n: "n \<in> set (capable_nodes ?ns t)"
        "get_task s' k = Some (assigned now n t)" "(k, np_node_id n) \<in> set ds" by auto
    with True hit dist show ?thesis
      by (auto simp: set_capable_nodes set_list_nodes [OF assms(1,2)] assigned_def)
  next
    case False
    have "k \<notin> fst ` set ds"
    proof
      assume "k \<in> fst ` set ds"
      then obtain t' k' where "get_task s k' = Some t'" "tk_id t' = k" "dispatchable ?ns t'"
        by (auto simp: dispatched_ids [OF assms(3,5)] eq)
      with sched_inv_task [OF assms(4)] assms(7) False show False by fastforce
    qed
    moreover have "\<not> (tk_state t = Pending \<and>
        (\<exists>i n. get_node reg i = Some n \<and> node_matches_capabilities n (tk_required t)))"
      using hit False by blast
    ultimately show ?thesis using effect False dist by (simp only: if_False simp_thms)
  qed
qed

theorem dispatch_sound_and_complete_witness:
  "\<exists>i n. get_node demo_registry i = Some n \<and>
     get_task (fst (dispatch_pending_tasks demo_registry demo_scheduler 77 [''a'', ''b''] [''t1'', ''t2'']))
       ''t1'' = Some ((demo_task ''t1'')\<lparr>tk_state := Running (np_node_id n) 77\<rparr>)"
proof -
  obtain s' ds where d: "dispatch_pending_tasks demo_registry demo_scheduler 77 [''a'', ''b'']
      [''t1'', ''t2''] = (s', ds)" by fastforce
  have t: "get_task demo_scheduler ''t1'' = Some (demo_task ''t1'')"
    by (simp add: get_demo_scheduler)
  have "get_node demo_registry ''a'' = Some (demo_node ''a'' 900)"
    by (simp add: get_demo_registry)
  then have n: "\<exists>i n. get_node demo_registry i = Some n" by blast
  show ?thesis
    using dispatch_sound_and_complete [OF demo_registry_ok demo_iterates(1) demo_scheduler_ok
        demo_scheduler_inv demo_iterates(2) d t] n d by auto
qed

text \<open>C14: The round robin is fair: when the pending tasks all require the same capabilities,
  the numbers of tasks that one dispatch gives to any two nodes able to run them differ by at
  most one, whatever the iteration orders.\<close>

theorem round_robin_fair:
  assumes "registry_ok reg" and "registry_inv reg" and "iterates (rg_nodes reg) nks"
    and "scheduler_ok s" and "iterates (sc_tasks s) tks"
    and "\<And>k t. get_task s k = Some t \<Longrightarrow> tk_state t = Pending \<Longrightarrow> tk_required t = req"
    and "get_node reg i = Some n" and "node_matches_capabilities n req"
    and "get_node reg j = Some n'" and "node_matches_capabilities n' req"
  shows "load (snd (dispatch_pending_tasks reg s now nks tks)) i
       \<le> load (snd (dispatch_pending_tasks reg s now nks tks)) j + 1"
proof -
  let ?ns = "list_nodes reg nks"
  let ?ts = "ready_tasks ?ns s tks"
  let ?C = "filter (\<lambda>n. node_matches_capabilities n req) ?ns"
  have same: "\<forall>t\<in>set ?ts. capable_nodes ?ns t = ?C"
    using assms(6) set_list_tasks [OF assms(4,5)]
    by (auto simp: ready_tasks_def dispatchable_def capable_nodes_def)
  have dist: "distinct (map np_node_id ?C)"
    using distinct_list_nodes [OF assms(2,3)] by (rule distinct_map_filter)
  have ids: "np_node_id n = i" "np_node_id n' = j"
    using assms(2,7,9) by (auto simp: registry_inv_def get_node_def split: if_splits)
  have "n \<in> set ?C" "n' \<in> set ?C"
    using assms(7-10) by (auto simp: set_list_nodes [OF assms(1,3)])
  then obtain r q where r: "r < length ?C" "?C ! r = n" and q: "q < length ?C" "?C ! q = n'"
    by (metis in_set_conv_nth)
  show ?thesis
    using round_robin_load [OF same dist r(1)] round_robin_load [OF same dist q(1)]
      residue_count_balanced [OF r(1) q(1)]
    by (simp add: dispatch_list [OF assms(5)] r(2) q(2) ids)
qed

theorem round_robin_fair_witness:
  "load (snd (dispatch_pending_tasks demo_registry demo_scheduler 77 [''a'', ''b''] [''t1'', ''t2''])) ''a''
   \<le> load (snd (dispatch_pending_tasks demo_registry demo_scheduler 77 [''a'', ''b''] [''t1'', ''t2''])) ''b'' + 1"
  by (rule round_robin_fair [OF demo_registry_ok demo_registry_inv demo_iterates(1)
        demo_scheduler_ok demo_iterates(2), where req = "[]" and n = "demo_node ''a'' 900"
        and n' = "demo_node ''b'' 300"])
    (auto simp: get_demo_scheduler get_demo_registry split: if_splits)

text \<open>Dispatch reaches a fixed point at once: dispatching again right after, at any time
  and in any iteration orders, assigns nothing and leaves the table as it is.\<close>

theorem dispatch_idempotent:
  assumes "registry_ok reg" and "iterates (rg_nodes reg) nks" and "iterates (rg_nodes reg) nks'"
    and "scheduler_ok s" and "iterates (sc_tasks s) tks"
    and "dispatch_pending_tasks reg s now nks tks = (s', ds)"
    and "iterates (sc_tasks s') tks'"
  shows "dispatch_pending_tasks reg s' now' nks' tks' = (s', [])"
proof -
  have eq: "s' = fst (dispatch_pending_tasks reg s now nks tks)" using assms(6) by simp
  have same: "dispatchable (list_nodes reg nks') t \<longleftrightarrow> dispatchable (list_nodes reg nks) t" for t
    by (simp add: dispatchable_list_nodes assms(1-3))
  have ok: "scheduler_ok s'" using assms(4) eq by simp
  have none: "\<not> dispatchable (list_nodes reg nks) t'" if t': "get_task s' k = Some t'" for k t'
  proof (cases "get_task s k")
    case None
    with t' eq show ?thesis by (simp add: get_task_dispatch_none)
  next
    case (Some t)
    from get_task_dispatch [OF assms(4,5) this, of reg nks now, folded eq] t'
    show ?thesis by (auto split: if_splits)
  qed
  then have "ready_tasks (list_nodes reg nks') s' tks' = []"
    using set_list_tasks [OF ok assms(7)] by (auto simp: ready_tasks_def same filter_empty_conv)
  then have ds: "snd (dispatch_pending_tasks reg s' now' nks' tks') = []"
    by (simp add: dispatch_list [OF assms(7)])
  have "fst (dispatch_pending_tasks reg s' now' nks' tks') = s'"
  proof -
    have "fst (dispatch_loop (list_nodes reg nks') now' tks' 0 (sc_tasks s')) k = sc_tasks s' k" for k
    proof (cases "sc_tasks s' k")
      case None
      then show ?thesis by (simp add: dispatch_loop_none)
    next
      case (Some t')
      then have g: "get_task s' k = Some t'" using ok by (simp add: scheduler_defs)
      have "distinct tks'" "k \<in> set tks'" using assms(7) Some by (auto simp: iterates_def)
      from dispatch_loop_hit [where m = "sc_tasks s'", OF this Some, of "list_nodes reg nks'" now' 0]
      show ?thesis using none [OF g] Some by (simp add: same)
    qed
    then have "fst (dispatch_loop (list_nodes reg nks') now' tks' 0 (sc_tasks s')) = sc_tasks s'"
      by (rule ext)
    then show ?thesis by (simp add: dispatch_pending_tasks_cases)
  qed
  with ds show ?thesis by (simp add: prod_eq_iff)
qed

theorem dispatch_idempotent_witness:
  "dispatch_pending_tasks demo_registry
     (fst (dispatch_pending_tasks demo_registry demo_scheduler 77 [''a'', ''b''] [''t1'', ''t2'']))
     99 [''b'', ''a''] [''t2'', ''t1''] =
   (fst (dispatch_pending_tasks demo_registry demo_scheduler 77 [''a'', ''b''] [''t1'', ''t2'']), [])"
  by (rule dispatch_idempotent [OF demo_registry_ok demo_iterates(1)
        iterates_swap [OF demo_iterates(1)] demo_scheduler_ok demo_iterates(2) prod.collapse [symmetric]])
    (simp add: iterates_swap demo_iterates)

end
