(* ===== verification/Lifecycle.thy ===== *)
theory Lifecycle
  imports Dispatch
begin

text \<open>
  The task table over time: every public operation of the scheduler as an event, runs of
  events, and the step relation of the table. The properties are about whole histories: the
  table's invariant, the refinement of the abstract life of a task, the bound on how often a
  task is queued again, the recovery table for a lost node, and the finality of completion
  under the events the hub's servers cause.
\<close>

datatype sched_event =
    SubmitTask task
  | Report string execution_result
  | NodeLost string
  | DispatchAll registry u64 "string list" "string list"

fun sched_apply :: "scheduler \<Rightarrow> sched_event \<Rightarrow> scheduler" where
  "sched_apply s (SubmitTask t) = submit_task s t"
| "sched_apply s (Report k res) = update_task_progress s k res"
| "sched_apply s (NodeLost n) = handle_node_failure s n"
| "sched_apply s (DispatchAll reg now nks tks) = fst (dispatch_pending_tasks reg s now nks tks)"

fun sched_run :: "scheduler \<Rightarrow> sched_event list \<Rightarrow> scheduler" where
  "sched_run s [] = s"
| "sched_run s (e # es) = sched_run (sched_apply s e) es"

text \<open>Tasks are submitted with their retry count within bounds, as \<open>Task::new\<close> builds them.\<close>

fun event_ok :: "sched_event \<Rightarrow> bool" where
  "event_ok (SubmitTask t) = task_ok t"
| "event_ok e = True"

inductive sched_step :: "scheduler \<Rightarrow> scheduler \<Rightarrow> bool" where
  "event_ok e \<Longrightarrow> sched_step s (sched_apply s e)"

inductive_cases sched_stepE: "sched_step s s'"

lemma sched_apply_inv: "event_ok e \<Longrightarrow> sched_inv s \<Longrightarrow> sched_inv (sched_apply s e)"
  by (cases e) (simp_all add: sched_inv_intros)

interpretation task_table: invariant_system sched_step sched_inv
  by unfold_locales (auto elim!: sched_stepE intro: sched_apply_inv)

lemma sched_apply_ok [simp]: "scheduler_ok (sched_apply s e) = scheduler_ok s"
  by (cases e) simp_all

subsection \<open>What one event does to one task\<close>

fun resubmits :: "string \<Rightarrow> sched_event \<Rightarrow> bool" where
  "resubmits k (SubmitTask t) = (tk_id t = k)"
| "resubmits k e = False"

lemma retry_or_fail_frame [simp]:
  "tk_max_retries (retry_or_fail r t) = tk_max_retries t" "tk_type (retry_or_fail r t) = tk_type t"
  "tk_payload (retry_or_fail r t) = tk_payload t" "tk_required (retry_or_fail r t) = tk_required t"
  by (simp_all add: retry_or_fail_def)

lemma apply_result_max [simp]: "tk_max_retries (apply_result res t) = tk_max_retries t"
  by (cases res) simp_all

lemma lose_node_max [simp]: "tk_max_retries (lose_node n t) = tk_max_retries t"
proof (cases "tk_state t")
  case (Running m s)
  then show ?thesis by (cases "tk_type t") (simp_all add: lose_node_def)
qed (simp_all add: lose_node_def)

lemma assigned_max [simp]: "tk_max_retries (assigned now n t) = tk_max_retries t"
  by (simp add: assigned_def)

lemma assigned_life: "tk_state t = Pending \<Longrightarrow> life_step (life_of t) (life_of (assigned now n t))"
  by (simp add: life_of_def retries_left_def assigned_def life_step.assign)

lemma sched_apply_task:
  assumes "scheduler_ok s" and "get_task s k = Some t" and "\<not> resubmits k e"
  shows "\<exists>t'. get_task (sched_apply s e) k = Some t' \<and> life_step (life_of t) (life_of t') \<and>
    tk_max_retries t' = tk_max_retries t \<and> tk_id t' = tk_id t"
proof (cases e)
  case (SubmitTask u)
  with assms show ?thesis by (simp add: store_simps)
next
  case (Report j res)
  with assms show ?thesis by (cases "k = j") (auto simp: store_simps apply_result_life)
next
  case (NodeLost n)
  with assms show ?thesis by (simp add: store_simps lose_node_life)
next
  case (DispatchAll reg now nks tks)
  with get_task_dispatch_entry [OF assms(2), of reg now nks tks] show ?thesis
    using assigned_life by auto
qed

subsection \<open>Counting returns to the queue\<close>

definition queued :: "scheduler \<Rightarrow> string \<Rightarrow> bool" where
  "queued s k = (case get_task s k of None \<Rightarrow> False | Some t \<Rightarrow> tk_state t = Pending)"

fun requeues :: "string \<Rightarrow> scheduler \<Rightarrow> sched_event list \<Rightarrow> nat" where
  "requeues k s [] = 0"
| "requeues k s (e # es) =
     (if \<not> queued s k \<and> queued (sched_apply s e) k then 1 else 0) + requeues k (sched_apply s e) es"

lemma phase_Queued_iff:
  "phase_of st = Queued \<longleftrightarrow> st = Pending" "Queued = phase_of st \<longleftrightarrow> st = Pending"
  by (cases st; simp)+

lemma life_step_queue_cost:
  "life_step (life_of t) (life_of t') \<Longrightarrow> tk_state t \<noteq> Pending \<Longrightarrow> tk_state t' = Pending \<Longrightarrow>
   Suc (retries_left t') \<le> retries_left t"
  by (auto simp: life_of_def life_step_Queued phase_Queued_iff)

lemma requeues_cost:
  assumes "scheduler_ok s" and "get_task s k = Some t" and "\<forall>e\<in>set es. \<not> resubmits k e"
  shows "\<exists>t'. get_task (sched_run s es) k = Some t' \<and>
    requeues k s es + retries_left t' \<le> retries_left t \<and> tk_max_retries t' = tk_max_retries t"
  using assms
proof (induction es arbitrary: s t)
  case Nil
  then show ?case by simp
next
  case (Cons e es)
  then obtain u where u: "get_task (sched_apply s e) k = Some u"
      "life_step (life_of t) (life_of u)" "tk_max_retries u = tk_max_retries t"
    using sched_apply_task [of s k t e] by auto
  with Cons.IH [of "sched_apply s e" u] Cons.prems obtain t' where
    t': "get_task (sched_run (sched_apply s e) es) k = Some t'"
      "requeues k (sched_apply s e) es + retries_left t' \<le> retries_left u"
      "tk_max_retries t' = tk_max_retries t" by auto
  have "(if \<not> queued s k \<and> queued (sched_apply s e) k then 1 else 0) + retries_left u
      \<le> retries_left t"
    using u(1,2) Cons.prems(2) life_step_queue_cost [OF u(2)] life_step_retries [OF u(2)]
    by (auto simp: queued_def life_of_def)
  with t' show ?case by auto
qed

subsection \<open>Properties\<close>

text \<open>In every state the task table can reach from an empty one, by any sequence of
  submissions, reports, node losses and dispatches, every task is filed under its own id and
  has used no more retries than it was given.\<close>

theorem task_table_invariant:
  assumes "sched_step\<^sup>*\<^sup>* scheduler_new s" and "get_task s k = Some t"
  shows "tk_id t = k \<and> tk_current_retry t \<le> tk_max_retries t"
  using task_table.run_inv [OF assms(1) sched_inv_new] sched_inv_task [of s k t] assms(2)
  by (simp add: task_ok_def)

theorem task_table_invariant_witness:
  "tk_id (demo_task ''t1'') = ''t1'' \<and>
   tk_current_retry (demo_task ''t1'') \<le> tk_max_retries (demo_task ''t1'')"
proof (rule task_table_invariant)
  have "sched_step scheduler_new (sched_apply scheduler_new (SubmitTask (demo_task ''t1'')))"
    by (rule sched_step.intros) simp
  then show "sched_step\<^sup>*\<^sup>* scheduler_new (submit_task scheduler_new (demo_task ''t1''))" by simp
  show "get_task (submit_task scheduler_new (demo_task ''t1'')) ''t1'' = Some (demo_task ''t1'')"
    by (simp add: store_simps)
qed

text \<open>C19: The table refines the abstract life of a task: whatever operation is performed on
  it (other than submitting the same id again), a task stays in the table and its phase and
  remaining retries take one step of the abstract machine, in which a task returns to the
  queue only at the cost of a retry and never gains one.\<close>

theorem table_refines_life:
  assumes "scheduler_ok s" and "get_task s k = Some t" and "\<not> resubmits k e"
  shows "\<exists>t'. get_task (sched_apply s e) k = Some t' \<and> life_step (life_of t) (life_of t')"
  using sched_apply_task [OF assms] by blast

theorem table_refines_life_witness:
  "\<exists>t'. get_task (sched_apply demo_scheduler (NodeLost ''a'')) ''t1'' = Some t' \<and>
     life_step (life_of (demo_task ''t1'')) (life_of t')"
  by (rule table_refines_life) (simp_all add: get_demo_scheduler)

text \<open>C12: Retries are bounded: along any history without a resubmission of its id, a task
  goes from another state back to the queue at most as often as it had retries left, so at
  most \<open>max_retries\<close> times in its life; the retry counter never wraps around.\<close>

theorem requeues_bounded:
  assumes "scheduler_ok s" and "get_task s k = Some t" and "\<forall>e\<in>set es. \<not> resubmits k e"
  shows "requeues k s es \<le> unat (tk_max_retries t) - unat (tk_current_retry t)"
proof -
  obtain t' where "requeues k s es + retries_left t' \<le> retries_left t"
    using requeues_cost [OF assms] by blast
  then show ?thesis by (simp add: retries_left_def)
qed

definition lossy_history :: "sched_event list" where
  "lossy_history =
     [DispatchAll demo_registry 5 [''a'', ''b''] [''t1'', ''t2''], NodeLost ''a'', NodeLost ''b'',
      DispatchAll demo_registry 6 [''a'', ''b''] [''t1'', ''t2''], NodeLost ''a'', NodeLost ''b'']"

theorem requeues_bounded_witness: "requeues ''t1'' demo_scheduler lossy_history \<le> 2"
proof -
  have g: "get_task demo_scheduler ''t1'' = Some (demo_task ''t1'')"
    by (simp add: get_demo_scheduler)
  have n: "\<forall>e\<in>set lossy_history. \<not> resubmits ''t1'' e" by (simp add: lossy_history_def)
  show ?thesis
    using requeues_bounded [OF demo_scheduler_ok g n] by (simp add: demo_task_def task_new_def)
qed

text \<open>C2: Losing a node recovers exactly its own tasks, by their type: a stateless or stateful
  task with retries left is queued again with one more retry counted and its payload (the
  last checkpoint) kept; without retries it fails; an interactive task fails at once with its
  retry count untouched; tasks elsewhere are unchanged, and no task is left running on the
  lost node.\<close>

theorem node_loss_recovery:
  assumes "scheduler_ok s" and "get_task s k = Some t"
  shows "\<exists>t'. get_task (handle_node_failure s n) k = Some t' \<and>
     (\<forall>since. tk_state t' \<noteq> Running n since) \<and>
     ((\<nexists>since. tk_state t = Running n since) \<longrightarrow> t' = t) \<and>
     ((\<exists>since. tk_state t = Running n since) \<longrightarrow>
        tk_payload t' = tk_payload t \<and>
        (if tk_type t = InteractiveLowLatency
         then (\<exists>r. tk_state t' = Failed r) \<and> tk_current_retry t' = tk_current_retry t
         else if tk_current_retry t < tk_max_retries t
         then tk_state t' = Pending \<and> unat (tk_current_retry t') = unat (tk_current_retry t) + 1
         else (\<exists>r. tk_state t' = Failed r) \<and> tk_current_retry t' = tk_current_retry t))"
proof -
  have g: "get_task (handle_node_failure s n) k = Some (lose_node n t)"
    using assms(2) by (simp add: store_simps)
  show ?thesis
  proof (cases "\<exists>since. tk_state t = Running n since")
    case True
    then obtain since where r: "tk_state t = Running n since" by blast
    then have l: "lose_node n t = recover_task (tk_type t) t" by (simp add: lose_node_def)
    have w: "tk_current_retry t < tk_max_retries t \<Longrightarrow>
        unat (tk_current_retry t + 1) = unat (tk_current_retry t) + 1"
      by (rule word_less_imp_Suc_unat)
    show ?thesis
      using w by (cases "tk_type t") (simp_all add: g l r retry_or_fail_def)
  next
    case False
    then have "lose_node n t = t" by (intro lose_node_other) blast
    with g False show ?thesis by simp
  qed
qed

definition running_task :: task where
  "running_task = (demo_task ''r'')\<lparr>tk_state := Running ''a'' 3, tk_payload := [9, 9]\<rparr>"

theorem node_loss_recovery_witness:
  "\<exists>t'. get_task (handle_node_failure (submit_task scheduler_new running_task) ''a'') ''r'' = Some t' \<and>
     tk_state t' = Pending \<and> tk_payload t' = [9, 9]"
proof -
  have "get_task (submit_task scheduler_new running_task) ''r'' = Some running_task"
    by (simp add: store_simps running_task_def)
  from node_loss_recovery [OF _ this, of "''a''"] show ?thesis
    by (auto simp: running_task_def demo_task_def task_new_def)
qed

text \<open>What the hub's servers can do to the table: reports arrive only as success or checkpoints.\<close>

fun hub_event :: "sched_event \<Rightarrow> bool" where
  "hub_event (Report k res) = (case res of Success \<Rightarrow> True | CheckpointSaved _ \<Rightarrow> True | _ \<Rightarrow> False)"
| "hub_event e = True"

lemma hub_event_keeps_completed:
  assumes "scheduler_ok s" and "get_task s k = Some t" and "tk_state t = Completed r"
    and "hub_event e" and "\<not> resubmits k e"
  shows "\<exists>t' r'. get_task (sched_apply s e) k = Some t' \<and> tk_state t' = Completed r'"
proof (cases e)
  case (SubmitTask u)
  with assms show ?thesis by (simp add: store_simps)
next
  case (Report j res)
  with assms show ?thesis by (cases res) (auto simp: store_simps)
next
  case (NodeLost n)
  with assms show ?thesis by (simp add: store_simps lose_node_def)
next
  case (DispatchAll reg now nks tks)
  with assms get_task_dispatch_entry [OF assms(2), of reg now nks tks] show ?thesis by auto
qed

text \<open>Completion is final under what the hub's servers do to the table (progress reports,
  which arrive only as success or checkpoints, dispatches and node losses): a completed task
  stays completed.\<close>

theorem completion_is_final:
  assumes "scheduler_ok s" and "get_task s k = Some t" and "tk_state t = Completed r"
    and "\<forall>e\<in>set es. hub_event e \<and> \<not> resubmits k e"
  shows "\<exists>t' r'. get_task (sched_run s es) k = Some t' \<and> tk_state t' = Completed r'"
  using assms
proof (induction es arbitrary: s t r)
  case Nil
  then show ?case by auto
next
  case (Cons e es)
  then obtain u r' where "get_task (sched_apply s e) k = Some u" "tk_state u = Completed r'"
    using hub_event_keeps_completed [of s k t r e] by auto
  with Cons.IH [of "sched_apply s e" u r'] Cons.prems show ?case by simp
qed

definition finished_scheduler :: scheduler where
  "finished_scheduler = update_task_progress demo_scheduler ''t1'' Success"

theorem completion_is_final_witness:
  "\<exists>t' r'. get_task (sched_run finished_scheduler
     [Report ''t1'' (CheckpointSaved [4]), NodeLost ''a'',
      DispatchAll demo_registry 6 [''a'', ''b''] [''t1'', ''t2'']]) ''t1'' = Some t' \<and>
     tk_state t' = Completed r'"
proof (rule completion_is_final)
  show "get_task finished_scheduler ''t1'' = Some (apply_result Success (demo_task ''t1''))"
    by (simp add: finished_scheduler_def store_simps get_demo_scheduler)
  show "tk_state (apply_result Success (demo_task ''t1'')) = Completed []" by simp
qed (simp_all add: finished_scheduler_def)

text \<open>The stand-alone placement test agrees with node loss: for a task running on a node
  that is no longer registered, feeding the verdict of \<open>schedule_task\<close> to
  \<open>update_task_progress\<close> leaves the same phase, retries and payload as
  \<open>handle_node_failure\<close> does (only the texts of the failure reasons differ).\<close>

theorem placement_agrees_with_node_loss:
  assumes "scheduler_ok s" and "get_task s k = Some t" and "tk_state t = Running n since"
    and "get_node reg n = None"
  shows "map_option (\<lambda>u. (life_of u, tk_payload u))
           (get_task (update_task_progress s k (schedule_task reg t n)) k) =
         map_option (\<lambda>u. (life_of u, tk_payload u)) (get_task (handle_node_failure s n) k)"
proof -
  have l: "lose_node n t = recover_task (tk_type t) t" using assms(3) by (simp add: lose_node_def)
  have rf: "(life_of (retry_or_fail r t), tk_payload (retry_or_fail r t)) =
      (life_of (retry_or_fail r' t), tk_payload (retry_or_fail r' t))" for r r'
    by (simp add: retry_or_fail_def life_of_def retries_left_def)
  show ?thesis
    using assms(2,4) rf by (cases "tk_type t") (simp_all add: store_simps schedule_task_def l)
qed

theorem placement_agrees_with_node_loss_witness:
  "map_option (\<lambda>u. (life_of u, tk_payload u))
     (get_task (update_task_progress (submit_task scheduler_new running_task) ''r''
        (schedule_task registry_new running_task ''a'')) ''r'') =
   map_option (\<lambda>u. (life_of u, tk_payload u))
     (get_task (handle_node_failure (submit_task scheduler_new running_task) ''a'') ''r'')"
  by (rule placement_agrees_with_node_loss [where since = 3])
    (simp_all add: store_simps running_task_def)

end
