(* ===== verification/HubServer.thy ===== *)
theory HubServer
  imports Lifecycle
begin

text \<open>
  The hub's servers (\<open>compute-module-core/src/server.rs\<close>). Each server is a loop around one
  blocking receive; one turn of the loop is a function from the hub's state and what the
  receive returned to the new state, the frames it sends, and whether the loop goes on, ends
  with an error, or panics. Clocks, random tokens, UUIDs and the outcome of socket calls are
  arguments; log output is left out. The registry, the scheduler, the list of thumbprints
  and the two shared sockets form the hub's state.
\<close>

datatype recv_result = Received bytes | RecvTimedOut | RecvError string

text \<open>\<open>Serving\<close>: the loop goes on; \<open>Stopped\<close>: the server function returns this error;
  \<open>Crashed\<close>: the server's task panics.\<close>

datatype 'a served = Serving 'a | Stopped string | Crashed

record ('sk, 'vk, 'sg) hub_env =
  he_codecs :: codecs
  he_crypto :: "('sk, 'vk, 'sg) crypto"
  he_show_f64 :: "fp \<Rightarrow> string"
  he_timed_out :: string

record hub =
  hub_registry :: registry
  hub_scheduler :: scheduler
  hub_thumbprints :: "string list"
  hub_task_push :: "string option"
  hub_progress_pub :: "string option"
  hub_bind_ip :: string

definition hub_new :: "registry \<Rightarrow> scheduler \<Rightarrow> string \<Rightarrow> hub" where
  "hub_new reg sched bind_ip =
     \<lparr>hub_registry = reg, hub_scheduler = sched, hub_thumbprints = [],
      hub_task_push = None, hub_progress_pub = None, hub_bind_ip = bind_ip\<rparr>"

text \<open>
  \<open>start_servers\<close>: the two shared sockets are opened with \<open>expect\<close>, so that a socket that
  cannot be made or an address that cannot be bound panics; the five servers are spawned on
  their addresses.
\<close>

definition hub_addr :: "hub \<Rightarrow> string \<Rightarrow> string" where
  "hub_addr h port = ''tcp://'' @ hub_bind_ip h @ '':'' @ port"

definition start_servers ::
    "(string \<Rightarrow> bool) \<Rightarrow> (string \<Rightarrow> bool) \<Rightarrow> hub \<Rightarrow> (hub \<times> string list) outcome" where
  "start_servers new_socket listen h =
     (let task_addr = hub_addr h ''5556''; pub_addr = hub_addr h ''5560'' in
      if \<not> new_socket task_addr then Panics
      else if \<not> listen task_addr then Panics
      else if \<not> new_socket pub_addr then Panics
      else if \<not> listen pub_addr then Panics
      else Returns
        (h\<lparr>hub_task_push := Some task_addr, hub_progress_pub := Some pub_addr\<rparr>,
         [hub_addr h ''5555'', hub_addr h ''5557'', hub_addr h ''5559'', hub_addr h ''5558'']))"

subsection \<open>Sending tasks\<close>

fun category_of :: "task_type \<Rightarrow> i32" where
  "category_of StatelessIdempotent = category_i32 STATELESS_IDEMPOTENT"
| "category_of StatefulLongRunning = category_i32 STATEFUL_LONG_RUNNING"
| "category_of InteractiveLowLatency = category_i32 INTERACTIVE_LOW_LATENCY"

definition task_definition_of :: "task \<Rightarrow> string \<Rightarrow> string \<Rightarrow> task_definition" where
  "task_definition_of t task_id node_id =
     \<lparr>td_task_id = task_id, td_category = category_of (tk_type t), td_module_target = node_id,
      td_payload = tk_payload t, td_max_retries = ucast (tk_max_retries t),
      td_timeout_ms = 10000, td_required_capabilities = tk_required t\<rparr>"

text \<open>The frame pushed to the shared socket, and whether the socket took it.\<close>

definition push_task_frame ::
    "('sk, 'vk, 'sg) hub_env \<Rightarrow> hub \<Rightarrow> (bytes \<Rightarrow> bool) \<Rightarrow> task \<Rightarrow> string \<Rightarrow> string \<Rightarrow> bytes \<times> bool" where
  "push_task_frame env h send t task_id node_id =
     (let frame = frame_msg 6 (c_task (he_codecs env)) (task_definition_of t task_id node_id)
      in (frame, case hub_task_push h of Some _ \<Rightarrow> send frame | None \<Rightarrow> False))"

definition dispatch_now ::
    "('sk, 'vk, 'sg) hub_env \<Rightarrow> hub \<Rightarrow> (bytes \<Rightarrow> bool) \<Rightarrow> u64 \<Rightarrow> string list \<Rightarrow> string list \<Rightarrow>
     hub \<times> (bytes \<times> bool) list" where
  "dispatch_now env h send now nks tks =
     (let (sched, ds) = dispatch_pending_tasks (hub_registry h) (hub_scheduler h) now nks tks in
      (h\<lparr>hub_scheduler := sched\<rparr>,
       List.map_filter (\<lambda>(task_id, node_id).
         map_option (\<lambda>t. push_task_frame env h send t task_id node_id) (get_task sched task_id)) ds))"

text \<open>One turn of \<open>run_task_sender_loop\<close>, after its sleep.\<close>

definition task_sender_turn ::
    "('sk, 'vk, 'sg) hub_env \<Rightarrow> hub \<Rightarrow> (bytes \<Rightarrow> bool) \<Rightarrow> u64 \<Rightarrow> string list \<Rightarrow> string list \<Rightarrow>
     hub \<times> (bytes \<times> bool) list" where
  "task_sender_turn env h send now nks tks =
     (if list_nodes (hub_registry h) nks = [] then (h, [])
      else if 0 < length (filter (\<lambda>t. tk_state t = Pending) (list_tasks (hub_scheduler h) tks))
      then dispatch_now env h send now nks tks
      else (h, []))"

subsection \<open>Heartbeats\<close>

definition render_value :: "(fp \<Rightarrow> string) \<Rightarrow> resource_value option \<Rightarrow> string" where
  "render_value show_f64 v =
     (case v of
        Some (BoolVal b) \<Rightarrow> show_bool b
      | Some (IntVal i) \<Rightarrow> show_int (sint i)
      | Some (DoubleVal d) \<Rightarrow> show_f64 d
      | Some (StringVal s) \<Rightarrow> s
      | None \<Rightarrow> [])"

definition core_capability :: "(fp \<Rightarrow> string) \<Rightarrow> device_capability \<Rightarrow> capability" where
  "core_capability show_f64 c =
     \<lparr>cap_name = dc_resource_name c, cap_val_type = dc_value_type c,
      cap_value = render_value show_f64 (dc_resource_value c)\<rparr>"

definition heartbeat_profile :: "(fp \<Rightarrow> string) \<Rightarrow> capability_profile \<Rightarrow> node_profile" where
  "heartbeat_profile show_f64 p =
     \<lparr>np_node_id = cp_node_id p, np_os_platform = cp_os_platform p,
      np_capabilities = map (core_capability show_f64) (cp_capabilities p),
      np_last_seen = 1200, np_public_key = []\<rparr>"

definition heartbeat_turn :: "('sk, 'vk, 'sg) hub_env \<Rightarrow> hub \<Rightarrow> recv_result \<Rightarrow> hub served" where
  "heartbeat_turn env h r =
     (case r of
        RecvTimedOut \<Rightarrow> Serving h
      | RecvError e \<Rightarrow> Stopped e
      | Received s \<Rightarrow>
        (case read_body 5 s of
           Panics \<Rightarrow> Crashed
         | Returns None \<Rightarrow> Serving h
         | Returns (Some body) \<Rightarrow>
           (case cd_decode (c_profile (he_codecs env)) body of
              Inl _ \<Rightarrow> Serving h
            | Inr p \<Rightarrow> Serving (h\<lparr>hub_registry :=
                register_node (hub_registry h) (heartbeat_profile (he_show_f64 env) p)\<rparr>))))"

subsection \<open>Progress\<close>

definition progress_result :: "task_progress \<Rightarrow> execution_result option" where
  "progress_result p =
     (if tp_status p = status_i32 COMPLETED then Some Success
      else if tp_checkpoint_data p \<noteq> [] then Some (CheckpointSaved (tp_checkpoint_data p))
      else None)"

text \<open>One turn of \<open>run_progress_receiver_server\<close>: the new state and the frames published.\<close>

definition progress_turn ::
    "('sk, 'vk, 'sg) hub_env \<Rightarrow> hub \<Rightarrow> recv_result \<Rightarrow> (hub \<times> bytes list) served" where
  "progress_turn env h r =
     (case r of
        RecvTimedOut \<Rightarrow> Serving (h, [])
      | RecvError e \<Rightarrow> Stopped e
      | Received s \<Rightarrow>
        (case read_body 7 s of
           Panics \<Rightarrow> Crashed
         | Returns None \<Rightarrow> Serving (h, [])
         | Returns (Some body) \<Rightarrow>
           (case cd_decode (c_progress (he_codecs env)) body of
              Inl _ \<Rightarrow> Serving (h, [])
            | Inr p \<Rightarrow>
              (let published = (case hub_progress_pub h of Some _ \<Rightarrow> [s] | None \<Rightarrow> []) in
               case progress_result p of
                 None \<Rightarrow> Serving (h, published)
               | Some result \<Rightarrow> Serving
                   (h\<lparr>hub_scheduler :=
                        update_task_progress (hub_scheduler h) (tp_task_id p) result\<rparr>, published)))))"

subsection \<open>The medium interface\<close>

record medium_out =
  mo_hub :: hub
  mo_reply :: "bytes option"
  mo_pushed :: "(bytes \<times> bool) list"

definition just_reply :: "hub \<Rightarrow> bytes \<Rightarrow> medium_out served" where
  "just_reply h frame = Serving \<lparr>mo_hub = h, mo_reply = Some frame, mo_pushed = []\<rparr>"

definition empty_ack :: bytes where
  "empty_ack = [0, 0, 0, 0, 0]"

text \<open>The distinct capability names of all nodes, sorted.\<close>

definition available_capabilities :: "node_profile list \<Rightarrow> string list" where
  "available_capabilities nodes =
     sort (remdups (concat (map (\<lambda>n. map cap_name (np_capabilities n)) nodes)))"

definition status_response :: "hub \<Rightarrow> string list \<Rightarrow> swarm_status_request \<Rightarrow> swarm_status_response" where
  "status_response h nks req =
     (let authorized = sq_access_key req \<noteq> []; nodes = list_nodes (hub_registry h) nks in
      \<lparr>sr_authorized = authorized, sr_node_count = word_of_nat (length nodes),
       sr_available_capabilities = available_capabilities nodes,
       sr_message = (if authorized then ''Access granted'' else ''Invalid access key'')\<rparr>)"

definition submitted_type :: "i32 \<Rightarrow> task_type" where
  "submitted_type category =
     (if category = 1 then StatefulLongRunning
      else if category = 2 then InteractiveLowLatency
      else StatelessIdempotent)"

definition submitted_task :: "string \<Rightarrow> task_submit_request \<Rightarrow> task" where
  "submitted_task task_id req =
     with_capabilities
       (task_new task_id (submitted_type (ts_category req)) (ts_payload req) 3)
       (ts_required_capabilities req)"

definition medium_submit ::
    "('sk, 'vk, 'sg) hub_env \<Rightarrow> hub \<Rightarrow> (bytes \<Rightarrow> bool) \<Rightarrow> u64 \<Rightarrow> string \<Rightarrow> string list \<Rightarrow> string list \<Rightarrow>
     task_submit_request \<Rightarrow> medium_out served" where
  "medium_submit env h send now uuid nks tks req =
     (if ts_access_key req = [] then
        just_reply h (frame_msg 13 (c_submit_resp (he_codecs env))
          \<lparr>ta_accepted = False, ta_task_id = [], ta_message = ''Invalid access key''\<rparr>)
      else
        (case str_upto uuid 8 of
           Panics \<Rightarrow> Crashed
         | Returns short \<Rightarrow>
           (let task_id = ''medium-'' @ short;
                h1 = h\<lparr>hub_scheduler := submit_task (hub_scheduler h) (submitted_task task_id req)\<rparr>;
                (h2, pushed) = dispatch_now env h1 send now nks tks
            in Serving \<lparr>mo_hub = h2,
                 mo_reply = Some (frame_msg 13 (c_submit_resp (he_codecs env))
                   \<lparr>ta_accepted = True, ta_task_id = task_id,
                    ta_message = ''Task queued for dispatch to swarm''\<rparr>),
                 mo_pushed = pushed\<rparr>)))"

definition medium_turn ::
    "('sk, 'vk, 'sg) hub_env \<Rightarrow> hub \<Rightarrow> (bytes \<Rightarrow> bool) \<Rightarrow> u64 \<Rightarrow> string \<Rightarrow> string list \<Rightarrow> string list \<Rightarrow>
     recv_result \<Rightarrow> medium_out served" where
  "medium_turn env h send now uuid nks tks r =
     (case r of
        RecvTimedOut \<Rightarrow> Serving \<lparr>mo_hub = h, mo_reply = None, mo_pushed = []\<rparr>
      | RecvError e \<Rightarrow> Stopped e
      | Received s \<Rightarrow>
        if length s < 5 then just_reply h empty_ack
        else if s ! 4 = 10 then
          (case slice s 5 (5 + frame_len s) of
             Panics \<Rightarrow> Crashed
           | Returns body \<Rightarrow>
             (case cd_decode (c_status_req (he_codecs env)) body of
                Inl _ \<Rightarrow> just_reply h empty_ack
              | Inr req \<Rightarrow> just_reply h
                  (frame_msg 11 (c_status_resp (he_codecs env)) (status_response h nks req))))
        else if s ! 4 = 12 then
          (case slice s 5 (5 + frame_len s) of
             Panics \<Rightarrow> Crashed
           | Returns body \<Rightarrow>
             (case cd_decode (c_submit_req (he_codecs env)) body of
                Inl _ \<Rightarrow> just_reply h empty_ack
              | Inr req \<Rightarrow> medium_submit env h send now uuid nks tks req))
        else just_reply h empty_ack)"

subsection \<open>Authentication\<close>

text \<open>Between two receives the server either waits for a join or, having sent a challenge
  token, for the response to it.\<close>

datatype auth_phase = AwaitJoin | AwaitResponse bytes

record auth_out =
  ao_hub :: hub
  ao_phase :: auth_phase
  ao_reply :: "bytes option"

definition auth_idle :: "hub \<Rightarrow> auth_out served" where
  "auth_idle h = Serving \<lparr>ao_hub = h, ao_phase = AwaitJoin, ao_reply = None\<rparr>"

definition auth_send :: "(bytes \<Rightarrow> string + unit) \<Rightarrow> hub \<Rightarrow> auth_phase \<Rightarrow> bytes \<Rightarrow> auth_out served" where
  "auth_send send h phase frame =
     (case send frame of
        Inl e \<Rightarrow> Stopped e
      | Inr _ \<Rightarrow> Serving \<lparr>ao_hub = h, ao_phase = phase, ao_reply = Some frame\<rparr>)"

definition auth_join ::
    "('sk, 'vk, 'sg) hub_env \<Rightarrow> hub \<Rightarrow> bytes \<Rightarrow> u64 \<Rightarrow> (bytes \<Rightarrow> string + unit) \<Rightarrow> recv_result \<Rightarrow>
     auth_out served" where
  "auth_join env h token ts send r =
     (case r of
        RecvTimedOut \<Rightarrow> auth_idle h
      | RecvError e \<Rightarrow> Stopped e
      | Received s \<Rightarrow>
        if length s < 5 then auth_idle h
        else if s ! 4 \<noteq> 1 then auth_idle h
        else auth_send send h (AwaitResponse token)
          (frame_msg 2 (c_challenge (he_codecs env))
             \<lparr>hc_high_entropy_token = token, hc_timestamp = ts\<rparr>))"

text \<open>The verdict on a decoded response: the hub with the thumbprint of the presented key
  added to its list, whether the node is authenticated, the node's id and the reason of a
  failure.\<close>

definition auth_verdict ::
    "('sk, 'vk, 'sg) hub_env \<Rightarrow> hub \<Rightarrow> bytes \<Rightarrow> handshake_response \<Rightarrow> hub \<times> bool \<times> string \<times> string" where
  "auth_verdict env h token response =
     (let cr = he_crypto env in
      case hr_identity response of
        None \<Rightarrow> (h, False, [], ''Missing identity block'')
      | Some identity \<Rightarrow>
          (let pk = hi_ecdsa_public_key identity;
               th = thumbprint_hex cr pk;
               h1 = (if th \<in> set (hub_thumbprints h) then h
                     else h\<lparr>hub_thumbprints := hub_thumbprints h @ [th]\<rparr>)
           in if verify_challenge_response cr (hex_encode cr pk) token
                   (hex_encode cr (hr_signature response))
              then (h1, True, hi_node_uuid identity, [])
              else (h1, False, hi_node_uuid identity, ''ECDSA verification failed'')))"

definition auth_result :: "bool \<Rightarrow> string \<Rightarrow> string \<Rightarrow> string \<Rightarrow> handshake_result" where
  "auth_result authenticated uuid node_id fail_reason =
     \<lparr>hs_authenticated = authenticated,
      hs_session_token = (if authenticated then uuid else []),
      hs_message =
        (if authenticated
         then ''Welcome '' @ node_id @ '', swarm authentication granted!''
         else ''Authentication failed: '' @ fail_reason)\<rparr>"

definition auth_response ::
    "('sk, 'vk, 'sg) hub_env \<Rightarrow> hub \<Rightarrow> bytes \<Rightarrow> string \<Rightarrow> (bytes \<Rightarrow> string + unit) \<Rightarrow> recv_result \<Rightarrow>
     auth_out served" where
  "auth_response env h token uuid send r =
     (case r of
        RecvTimedOut \<Rightarrow> Stopped (he_timed_out env)
      | RecvError e \<Rightarrow> Stopped e
      | Received s \<Rightarrow>
        if length s < 5 then auth_idle h
        else if s ! 4 \<noteq> 3 then auth_idle h
        else
          (case slice s 5 (5 + frame_len s) of
             Panics \<Rightarrow> Crashed
           | Returns body \<Rightarrow>
             (case cd_decode (c_response (he_codecs env)) body of
                Inl _ \<Rightarrow> auth_idle h
              | Inr response \<Rightarrow>
                (case auth_verdict env h token response of
                   (h1, authenticated, node_id, fail_reason) \<Rightarrow>
                     auth_send send h1 AwaitJoin
                       (frame_msg 4 (c_result (he_codecs env))
                          (auth_result authenticated uuid node_id fail_reason))))))"

fun auth_turn ::
    "('sk, 'vk, 'sg) hub_env \<Rightarrow> hub \<Rightarrow> auth_phase \<Rightarrow> bytes \<Rightarrow> u64 \<Rightarrow> string \<Rightarrow>
     (bytes \<Rightarrow> string + unit) \<Rightarrow> recv_result \<Rightarrow> auth_out served" where
  "auth_turn env h AwaitJoin token ts uuid send r = auth_join env h token ts send r"
| "auth_turn env h (AwaitResponse challenge) token ts uuid send r =
     auth_response env h challenge uuid send r"

text \<open>A turn that ends the server by an error may have changed the hub before: a response whose
  result cannot be sent has recorded its thumbprint. \<open>auth_after\<close> is the hub after any turn that
  does not panic.\<close>

definition auth_left :: "('sk, 'vk, 'sg) hub_env \<Rightarrow> hub \<Rightarrow> auth_phase \<Rightarrow> recv_result \<Rightarrow> hub" where
  "auth_left env h phase r =
     (case (phase, r) of
        (AwaitResponse challenge, Received s) \<Rightarrow>
          (if length s < 5 \<or> s ! 4 \<noteq> 3 then h
           else (case cd_decode (c_response (he_codecs env)) (take (frame_len s) (drop 5 s)) of
                   Inl _ \<Rightarrow> h
                 | Inr response \<Rightarrow> fst (auth_verdict env h challenge response)))
      | _ \<Rightarrow> h)"

definition auth_after ::
    "('sk, 'vk, 'sg) hub_env \<Rightarrow> hub \<Rightarrow> auth_phase \<Rightarrow> bytes \<Rightarrow> u64 \<Rightarrow> string \<Rightarrow>
     (bytes \<Rightarrow> string + unit) \<Rightarrow> recv_result \<Rightarrow> hub option" where
  "auth_after env h phase token ts uuid send r =
     (case auth_turn env h phase token ts uuid send r of
        Serving out \<Rightarrow> Some (ao_hub out)
      | Stopped _ \<Rightarrow> Some (auth_left env h phase r)
      | Crashed \<Rightarrow> None)"

end
