(* ===== verification/HubProperties.thy ===== *)
theory HubProperties
  imports HubServer
begin

text \<open>
  What the hub's servers guarantee: the step relation of the hub (one turn of one server), its
  invariant, the exact effect of each kind of message, and the limits that follow from the
  code (what no server ever does to a node or a task, which frames panic a server, when the
  authentication server ends).
\<close>

subsection \<open>The hub as a transition system\<close>

text \<open>
  One turn of one server. The predicate \<open>uuid_ok\<close> restricts the UUIDs the medium server may
  draw: \<open>\<lambda>_ _. True\<close> for the unrestricted hub, \<open>fresh_uuid\<close> where a statement needs that the
  eight digits it keeps do not name an existing task.
\<close>

definition fresh_uuid :: "hub \<Rightarrow> string \<Rightarrow> bool" where
  "fresh_uuid h uuid \<longleftrightarrow> sc_tasks (hub_scheduler h) (''medium-'' @ take 8 uuid) = None"

inductive hub_step ::
    "('sk, 'vk, 'sg) hub_env \<Rightarrow> (hub \<Rightarrow> string \<Rightarrow> bool) \<Rightarrow> hub \<Rightarrow> hub \<Rightarrow> bool"
  for env uuid_ok where
  heartbeat: "heartbeat_turn env h r = Serving h' \<Longrightarrow> hub_step env uuid_ok h h'"
| progress: "progress_turn env h r = Serving (h', frames) \<Longrightarrow> hub_step env uuid_ok h h'"
| medium: "uuid_ok h uuid \<Longrightarrow> medium_turn env h send now uuid nks tks r = Serving out \<Longrightarrow>
    hub_step env uuid_ok h (mo_hub out)"
| sender: "task_sender_turn env h send now nks tks = (h', sent) \<Longrightarrow> hub_step env uuid_ok h h'"
| auth: "auth_after env h phase token ts uuid' asend r = Some h' \<Longrightarrow> hub_step env uuid_ok h h'"

inductive_cases hub_stepE: "hub_step env uuid_ok h h'"

definition hub_inv :: "hub \<Rightarrow> bool" where
  "hub_inv h \<longleftrightarrow> registry_inv (hub_registry h) \<and> sched_inv (hub_scheduler h) \<and>
     distinct (hub_thumbprints h)"

subsection \<open>What a turn can change\<close>

lemma heartbeat_turn_cases:
  "heartbeat_turn env h r = Serving h' \<Longrightarrow>
   h' = h \<or> (\<exists>p. h' = h\<lparr>hub_registry := register_node (hub_registry h) p\<rparr>)"
  by (auto simp: heartbeat_turn_def split: recv_result.splits outcome.splits option.splits sum.splits)

lemma progress_turn_cases:
  assumes "progress_turn env h r = Serving (h', frames)"
  shows "h' = h \<or> (\<exists>k res. (res = Success \<or> (\<exists>c. res = CheckpointSaved c)) \<and>
     h' = h\<lparr>hub_scheduler := update_task_progress (hub_scheduler h) k res\<rparr>)"
proof -
  have "res = Success \<or> (\<exists>c. res = CheckpointSaved c)" if "progress_result p = Some res" for p res
    using that by (auto simp: progress_result_def split: if_splits)
  with assms show ?thesis
    by (auto simp: progress_turn_def Let_def
        split: recv_result.splits outcome.splits option.splits sum.splits)
      blast+
qed

lemma dispatch_now_state:
  "fst (dispatch_now env h send now nks tks) =
     h\<lparr>hub_scheduler := fst (dispatch_pending_tasks (hub_registry h) (hub_scheduler h) now nks tks)\<rparr>"
  by (simp add: dispatch_now_def split: prod.split)

lemma task_sender_turn_cases:
  "task_sender_turn env h send now nks tks = (h', sent) \<Longrightarrow>
   h' = h \<or> h' = fst (dispatch_now env h send now nks tks)"
  by (auto simp: task_sender_turn_def split: if_splits)

lemma str_upto_Returns: "str_upto s n = Returns t \<Longrightarrow> t = take n s"
  by (simp add: str_upto_def split: if_splits)

lemma medium_submit_cases:
  "medium_submit env h send now uuid nks tks req = Serving out \<Longrightarrow>
   mo_hub out = h \<or>
   mo_hub out = fst (dispatch_now env
     (h\<lparr>hub_scheduler := submit_task (hub_scheduler h) (submitted_task (''medium-'' @ take 8 uuid) req)\<rparr>)
     send now nks tks)"
  by (auto simp: medium_submit_def just_reply_def Let_def dest!: str_upto_Returns
      split: if_splits outcome.splits prod.splits)

lemma medium_turn_cases:
  assumes "medium_turn env h send now uuid nks tks r = Serving out"
  shows "mo_hub out = h \<or> (\<exists>req. mo_hub out = fst (dispatch_now env
     (h\<lparr>hub_scheduler := submit_task (hub_scheduler h) (submitted_task (''medium-'' @ take 8 uuid) req)\<rparr>)
     send now nks tks))"
  using assms medium_submit_cases [of env h send now uuid nks tks _ out]
  by (auto simp: medium_turn_def just_reply_def
      split: recv_result.splits if_splits outcome.splits sum.splits)

lemma auth_send_hub: "auth_send send h ph f = Serving out \<Longrightarrow> ao_hub out = h"
  by (auto simp: auth_send_def split: sum.splits)

lemma auth_verdict_hub:
  "fst (auth_verdict env h token resp) = h \<or>
   (\<exists>th. th \<notin> set (hub_thumbprints h) \<and>
      fst (auth_verdict env h token resp) = h\<lparr>hub_thumbprints := hub_thumbprints h @ [th]\<rparr>)"
  by (auto simp: auth_verdict_def Let_def split: option.splits)

lemma auth_turn_cases:
  assumes "auth_turn env h ph token ts uuid send r = Serving out"
  shows "ao_hub out = h \<or> (\<exists>th. th \<notin> set (hub_thumbprints h) \<and>
     ao_hub out = h\<lparr>hub_thumbprints := hub_thumbprints h @ [th]\<rparr>)"
proof (cases ph)
  case AwaitJoin
  with assms show ?thesis
    by (auto simp: auth_join_def auth_idle_def dest!: auth_send_hub
        split: recv_result.splits if_splits)
next
  case (AwaitResponse ch)
  have "ao_hub out = h \<or> (\<exists>resp. ao_hub out = fst (auth_verdict env h ch resp))"
    using assms AwaitResponse
    by (auto simp: auth_response_def auth_idle_def dest!: auth_send_hub
        split: recv_result.splits if_splits outcome.splits sum.splits prod.splits)
      (metis fst_conv)
  with auth_verdict_hub [of env h ch] show ?thesis by metis
qed

lemma auth_after_cases:
  assumes "auth_after env h ph token ts uuid send r = Some h'"
  shows "h' = h \<or> (\<exists>th. th \<notin> set (hub_thumbprints h) \<and>
     h' = h\<lparr>hub_thumbprints := hub_thumbprints h @ [th]\<rparr>)"
proof (cases "auth_turn env h ph token ts uuid send r")
  case (Serving out)
  with assms auth_turn_cases [OF Serving] show ?thesis by (simp add: auth_after_def)
next
  case (Stopped e)
  with assms have "h' = auth_left env h ph r" by (simp add: auth_after_def)
  then show ?thesis
    using auth_verdict_hub [of env h]
    by (auto simp: auth_left_def split: auth_phase.split recv_result.split sum.split)
qed (use assms in \<open>simp add: auth_after_def\<close>)

text \<open>Every turn makes one of five changes to the registry and the table.\<close>

inductive hub_change ::
    "(hub \<Rightarrow> string \<Rightarrow> bool) \<Rightarrow> hub \<Rightarrow> registry \<Rightarrow> scheduler \<Rightarrow> bool"
  for uuid_ok h where
  unchanged: "hub_change uuid_ok h (hub_registry h) (hub_scheduler h)"
| registered: "hub_change uuid_ok h (register_node (hub_registry h) p) (hub_scheduler h)"
| reported: "res = Success \<or> (\<exists>c. res = CheckpointSaved c) \<Longrightarrow>
    hub_change uuid_ok h (hub_registry h) (update_task_progress (hub_scheduler h) k res)"
| submitted: "uuid_ok h uuid \<Longrightarrow> hub_change uuid_ok h (hub_registry h)
    (fst (dispatch_pending_tasks (hub_registry h)
      (submit_task (hub_scheduler h) (submitted_task (''medium-'' @ take 8 uuid) req)) now nks tks))"
| dispatched: "hub_change uuid_ok h (hub_registry h)
    (fst (dispatch_pending_tasks (hub_registry h) (hub_scheduler h) now nks tks))"

lemma hub_step_effect:
  assumes "hub_step env uuid_ok h h'"
  shows "hub_change uuid_ok h (hub_registry h') (hub_scheduler h')"
  using assms
proof (cases rule: hub_step.cases)
  case (heartbeat r)
  from heartbeat_turn_cases [OF this] show ?thesis
    by (elim disjE exE) (simp_all add: hub_change.unchanged hub_change.registered)
next
  case (progress r frames)
  from progress_turn_cases [OF this] show ?thesis
    by (elim disjE exE conjE) (simp_all add: hub_change.unchanged hub_change.reported)
next
  case (medium uuid send now nks tks r out)
  from medium_turn_cases [OF this(3)] show ?thesis
    using hub_change.submitted [of uuid_ok h, OF medium(2)]
    by (elim disjE exE) (simp_all add: medium(1) hub_change.unchanged dispatch_now_state)
next
  case (sender send now nks tks sent)
  from task_sender_turn_cases [OF this] show ?thesis
    by (elim disjE) (simp_all add: hub_change.unchanged hub_change.dispatched dispatch_now_state)
next
  case (auth phase token ts uuid' asend r)
  from auth_after_cases [OF this] show ?thesis
    by (elim disjE exE conjE) (simp_all add: hub_change.unchanged)
qed

lemma hub_step_thumbprints:
  assumes "hub_step env uuid_ok h h'" and "distinct (hub_thumbprints h)"
  shows "distinct (hub_thumbprints h')"
  using assms(1)
proof (cases rule: hub_step.cases)
  case (heartbeat r)
  from heartbeat_turn_cases [OF this] assms(2) show ?thesis by auto
next
  case (progress r frames)
  from progress_turn_cases [OF this] assms(2) show ?thesis by auto
next
  case (medium uuid send now nks tks r out)
  from medium_turn_cases [OF this(3)] medium(1) assms(2) show ?thesis
    by (auto simp: dispatch_now_state)
next
  case (sender send now nks tks sent)
  from task_sender_turn_cases [OF this] assms(2) show ?thesis by (auto simp: dispatch_now_state)
next
  case (auth phase token ts uuid' asend r)
  from auth_after_cases [OF this] assms(2) show ?thesis by auto
qed

lemma submitted_task_simps [simp]:
  "tk_id (submitted_task i req) = i" "tk_state (submitted_task i req) = Pending"
  "tk_required (submitted_task i req) = ts_required_capabilities req" "task_ok (submitted_task i req)"
  "tk_payload (submitted_task i req) = ts_payload req"
  by (simp_all add: submitted_task_def)

lemma hub_change_inv:
  assumes "hub_change uuid_ok h reg s" and "registry_inv (hub_registry h)" "sched_inv (hub_scheduler h)"
  shows "registry_inv reg \<and> sched_inv s"
  using assms by cases (simp_all add: registry_inv_register sched_inv_intros)

lemma hub_step_inv: "hub_step env uuid_ok h h' \<Longrightarrow> hub_inv h \<Longrightarrow> hub_inv h'"
  using hub_change_inv [OF hub_step_effect, of env uuid_ok h h'] hub_step_thumbprints [of env uuid_ok h h']
  by (simp add: hub_inv_def)

interpretation hub_system: invariant_system "hub_step env uuid_ok" hub_inv for env uuid_ok
  by unfold_locales (rule hub_step_inv)

lemma hub_new_inv: "hub_inv (hub_new registry_new scheduler_new ip)"
  by (simp add: hub_inv_def hub_new_def registry_inv_new sched_inv_new)

subsection \<open>A hub for concrete instances\<close>

definition demo_env :: "(u8, u8, bytes) hub_env" where
  "demo_env = \<lparr>he_codecs = demo_codecs, he_crypto = demo_crypto, he_show_f64 = (\<lambda>_. ''1''),
     he_timed_out = ''TimedOut''\<rparr>"

definition demo_hub :: hub where
  "demo_hub = hub_new registry_new scheduler_new ''127.0.0.1''"

lemma demo_hub_simps [simp]:
  "hub_registry demo_hub = registry_new" "hub_scheduler demo_hub = scheduler_new"
  "hub_thumbprints demo_hub = []" "hub_task_push demo_hub = None"
  "hub_progress_pub demo_hub = None"
  by (simp_all add: demo_hub_def hub_new_def)

lemma demo_env_simps [simp]:
  "he_codecs demo_env = demo_codecs" "he_crypto demo_env = demo_crypto"
  "he_show_f64 demo_env = (\<lambda>_. ''1'')" "he_timed_out demo_env = ''TimedOut''"
  by (simp_all add: demo_env_def)

text \<open>The body of a framed demo message.\<close>

lemma read_one_message:
  "length bs < 2 ^ 32 \<Longrightarrow> read_body t (frame_msg t (one_message bs m) x) = Returns (Some bs)"
  by (simp add: frame_msg_def read_body_build)

end
