(* ===== verification/HubGuarantees.thy ===== *)
theory HubGuarantees
  imports HubProperties
begin

text \<open>
  The guarantees of the hub's servers over whole runs and for single messages: the invariant
  of every reachable hub, what no server ever does (forget a node, take a task back), the
  exact effect of a heartbeat and of a progress report, the frames that panic a server, the
  verdict of the authentication server, the status reply, submission, and the independence of
  the task table from the outcome of the push.
\<close>

subsection \<open>Nodes and tasks over one step\<close>

lemma hub_step_registry_ok:
  assumes "hub_step env uuid_ok h h'"
  shows "registry_ok (hub_registry h') = registry_ok (hub_registry h)"
proof -
  have "registry_ok reg = registry_ok (hub_registry h)" if "hub_change uuid_ok h reg s" for reg s
    using that by cases simp_all
  with hub_step_effect [OF assms] show ?thesis by blast
qed

lemma hub_step_keeps_node:
  assumes "hub_step env uuid_ok h h'" and "registry_ok (hub_registry h)"
    and "get_node (hub_registry h) k \<noteq> None"
  shows "get_node (hub_registry h') k \<noteq> None"
proof -
  have "get_node reg k \<noteq> None" if "hub_change uuid_ok h reg s" for reg s
    using that assms(2,3) by cases (simp_all add: store_simps)
  with hub_step_effect [OF assms(1)] show ?thesis by blast
qed

lemma hub_step_scheduler_ok:
  assumes "hub_step env uuid_ok h h'"
  shows "scheduler_ok (hub_scheduler h') = scheduler_ok (hub_scheduler h)"
proof -
  have "scheduler_ok s = scheduler_ok (hub_scheduler h)" if "hub_change uuid_ok h reg s" for reg s
    using that by cases simp_all
  with hub_step_effect [OF assms] show ?thesis by blast
qed

text \<open>A task past the queue: running on a fixed node since a fixed time, or completed.\<close>

definition kept_or_done :: "string \<Rightarrow> u64 \<Rightarrow> task \<Rightarrow> bool" where
  "kept_or_done n since t \<longleftrightarrow> tk_state t = Running n since \<or> (\<exists>r. tk_state t = Completed r)"

lemma kept_or_done_dispatch:
  assumes "get_task s k = Some t" and "kept_or_done n since t"
  shows "get_task (fst (dispatch_pending_tasks reg s now nks tks)) k = Some t"
  using get_task_dispatch_entry [OF assms(1), of reg now nks tks] assms(2)
  by (auto simp: kept_or_done_def)

lemma hub_step_keeps_running:
  assumes "hub_step env fresh_uuid h h'" and "scheduler_ok (hub_scheduler h)"
    and t: "get_task (hub_scheduler h) k = Some t" "kept_or_done n since t"
  shows "\<exists>t'. get_task (hub_scheduler h') k = Some t' \<and> kept_or_done n since t'"
proof -
  have "\<exists>t'. get_task s k = Some t' \<and> kept_or_done n since t'"
    if c: "hub_change fresh_uuid h reg s" for reg s
    using c
  proof cases
    case (reported res j)
    then show ?thesis using t by (auto simp: store_simps kept_or_done_def)
  next
    case (submitted uuid req now nks tks)
    then have "k \<noteq> ''medium-'' @ take 8 uuid"
      using t(1) assms(2) by (auto simp: fresh_uuid_def get_task_def scheduler_ok_def split: if_splits)
    then have "get_task (submit_task (hub_scheduler h)
        (submitted_task (''medium-'' @ take 8 uuid) req)) k = Some t"
      using t(1) assms(2) by (simp add: store_simps)
    from kept_or_done_dispatch [OF this t(2)] submitted(2) t(2) show ?thesis by blast
  qed (use t kept_or_done_dispatch [OF t] in auto)
  with hub_step_effect [OF assms(1)] show ?thesis by blast
qed

lemma hub_run_keeps_running:
  assumes "(hub_step env fresh_uuid)\<^sup>*\<^sup>* h h'" and "scheduler_ok (hub_scheduler h)"
    and "get_task (hub_scheduler h) k = Some t" and "kept_or_done n since t"
  shows "scheduler_ok (hub_scheduler h') \<and>
    (\<exists>t'. get_task (hub_scheduler h') k = Some t' \<and> kept_or_done n since t')"
  using assms
proof (induction rule: rtranclp_induct)
  case base
  then show ?case by blast
next
  case (step u v)
  then show ?case using hub_step_keeps_running hub_step_scheduler_ok by blast
qed

lemma hub_run_keeps_node:
  assumes "(hub_step env uuid_ok)\<^sup>*\<^sup>* h h'" and "registry_ok (hub_registry h)"
    and "get_node (hub_registry h) k \<noteq> None"
  shows "registry_ok (hub_registry h') \<and> get_node (hub_registry h') k \<noteq> None"
  using assms
proof (induction rule: rtranclp_induct)
  case base
  then show ?case by blast
next
  case (step u v)
  then show ?case using hub_step_keeps_node hub_step_registry_ok by blast
qed

subsection \<open>A demo run\<close>

definition demo_profile :: node_profile where
  "demo_profile = heartbeat_profile (\<lambda>_. ''1'') demo_heartbeat"

definition demo_hub1 :: hub where
  "demo_hub1 = demo_hub\<lparr>hub_registry := register_node registry_new demo_profile\<rparr>"

lemma demo_profile_simps [simp]:
  "np_node_id demo_profile = ''n1''" "np_last_seen demo_profile = 1200"
  by (simp_all add: demo_profile_def heartbeat_profile_def demo_heartbeat_def)

lemma demo_hub1_simps [simp]:
  "hub_registry demo_hub1 = register_node registry_new demo_profile"
  "hub_scheduler demo_hub1 = scheduler_new" "hub_thumbprints demo_hub1 = []"
  "hub_task_push demo_hub1 = None" "hub_progress_pub demo_hub1 = None"
  by (simp_all add: demo_hub1_def)

lemma demo_heartbeat_turn:
  "heartbeat_turn demo_env demo_hub (Received (frame_msg 5 (one_message [4] demo_heartbeat) demo_heartbeat)) =
     Serving demo_hub1"
  by (simp add: heartbeat_turn_def read_one_message demo_hub1_def demo_profile_def)

lemma demo_heartbeat_step: "hub_step demo_env uuid_ok demo_hub demo_hub1"
  by (rule hub_step.heartbeat [OF demo_heartbeat_turn])

subsection \<open>Frames that crash a server\<close>

definition truncated :: "u8 \<Rightarrow> bytes \<Rightarrow> bool" where
  "truncated t s \<longleftrightarrow> 5 \<le> length s \<and> s ! 4 = t \<and> length s < 5 + frame_len s"

lemma heartbeat_crash_iff: "heartbeat_turn env h (Received s) = Crashed \<longleftrightarrow> truncated 5 s"
  unfolding truncated_def read_body_Panics_iff [symmetric]
  by (auto simp: heartbeat_turn_def split: outcome.split option.split sum.split)

lemma progress_crash_iff: "progress_turn env h (Received s) = Crashed \<longleftrightarrow> truncated 7 s"
  unfolding truncated_def read_body_Panics_iff [symmetric]
  by (auto simp: progress_turn_def Let_def split: outcome.split option.split sum.split)

lemma auth_send_not_crashed [simp]: "auth_send send h ph f \<noteq> Crashed"
  by (simp add: auth_send_def split: sum.split)

lemma auth_join_not_crashed: "auth_join env h token ts send r \<noteq> Crashed"
  by (simp add: auth_join_def auth_idle_def split: recv_result.split)

lemma auth_crash_iff:
  "auth_turn env h ph token ts uuid send (Received s) = Crashed \<longleftrightarrow>
     (\<exists>ch. ph = AwaitResponse ch) \<and> truncated 3 s"
  by (cases ph)
    (auto simp: auth_join_not_crashed auth_response_def auth_idle_def truncated_def slice_def
      split: sum.split prod.split)

text \<open>A node that stays silent after its challenge ends the authentication server.\<close>

lemma silent_peer_stops_auth:
  "auth_turn env h (AwaitResponse ch) token ts uuid send RecvTimedOut = Stopped (he_timed_out env)"
  by (simp add: auth_response_def)

lemma medium_submit_not_crashed:
  "str_upto uuid 8 \<noteq> Panics \<Longrightarrow> medium_submit env h send now uuid nks tks req \<noteq> Crashed"
  by (cases "str_upto uuid 8") (simp_all add: medium_submit_def just_reply_def Let_def split: prod.split)

lemma medium_crash_iff:
  assumes "str_upto uuid 8 \<noteq> Panics"
  shows "medium_turn env h send now uuid nks tks (Received s) = Crashed \<longleftrightarrow>
    truncated 10 s \<or> truncated 12 s"
  by (auto simp: medium_turn_def just_reply_def truncated_def slice_def
      medium_submit_not_crashed [OF assms] split: sum.split)

subsection \<open>A framed progress report\<close>

definition published_to :: "hub \<Rightarrow> bytes \<Rightarrow> bytes list" where
  "published_to h f = (if hub_progress_pub h = None then [] else [f])"

lemma progress_turn_frame:
  assumes "carries (c_progress (he_codecs env)) p"
  shows "progress_turn env h (Received (frame_msg 7 (c_progress (he_codecs env)) p)) = Serving
    (case progress_result p of
       None \<Rightarrow> h
     | Some res \<Rightarrow> h\<lparr>hub_scheduler := update_task_progress (hub_scheduler h) (tp_task_id p) res\<rparr>,
     published_to h (frame_msg 7 (c_progress (he_codecs env)) p))"
proof -
  have "read_body 7 (frame_msg 7 (c_progress (he_codecs env)) p) =
      Returns (Some (cd_encode (c_progress (he_codecs env)) p))"
    "cd_decode (c_progress (he_codecs env)) (cd_encode (c_progress (he_codecs env)) p) = Inr p"
    using assms by (simp_all add: read_body_frame_msg) (simp add: carries_def)
  then show ?thesis
    by (simp add: progress_turn_def published_to_def Let_def split: option.split)
qed

subsection \<open>The pushed frames\<close>

lemma round_robin_set:
  "(k, n) \<in> set (round_robin nodes i ts) \<Longrightarrow>
   \<exists>j<length ts. k = tk_id (ts ! j) \<and> n = np_node_id (chosen_node nodes (i + j) (ts ! j))"
  by (auto simp: in_set_conv_nth round_robin_nth)

lemma dispatched_running:
  assumes "scheduler_ok s" and "sched_inv s" and "iterates (sc_tasks s) tks"
    and d: "(k, n) \<in> set (snd (dispatch_pending_tasks reg s now nks tks))"
  shows "\<exists>t. get_task (fst (dispatch_pending_tasks reg s now nks tks)) k = Some t \<and>
    tk_state t = Running n now"
proof -
  let ?ns = "list_nodes reg nks"
  have "k \<in> fst ` set (snd (dispatch_pending_tasks reg s now nks tks))" using d by force
  then obtain j t where t: "get_task s j = Some t" "tk_id t = k" "dispatchable ?ns t"
    by (auto simp: dispatched_ids [OF assms(1,3)])
  with sched_inv_task [OF assms(2) t(1)] have "j = k" by simp
  with get_task_dispatch [OF assms(1,3) t(1), of reg nks now] t obtain m where
    m: "get_task (fst (dispatch_pending_tasks reg s now nks tks)) k = Some (assigned now m t)"
      "(k, np_node_id m) \<in> set (snd (dispatch_pending_tasks reg s now nks tks))" by auto
  have "np_node_id m = n"
    using distinct_dispatch [OF assms(2,3), of reg now nks] d m(2) by (metis eq_key_imp_eq_value)
  with m(1) show ?thesis by simp
qed

lemma map_filter_total:
  "(\<And>x. x \<in> set xs \<Longrightarrow> f x = Some (g x)) \<Longrightarrow> List.map_filter f xs = map g xs"
  by (induction xs) (simp_all add: List.map_filter_simps)

subsection \<open>Properties\<close>

text \<open>C15: In every state the hub's five servers can reach from a new hub, whatever messages
  arrive in whatever order, every node and every task is filed under its own id, no task has
  used more retries than it was given, and no thumbprint is listed twice.\<close>

theorem hub_invariant:
  assumes "(hub_step env uuid_ok)\<^sup>*\<^sup>* (hub_new registry_new scheduler_new ip) h"
  shows "(\<forall>k p. get_node (hub_registry h) k = Some p \<longrightarrow> np_node_id p = k) \<and>
    (\<forall>k t. get_task (hub_scheduler h) k = Some t \<longrightarrow>
       tk_id t = k \<and> tk_current_retry t \<le> tk_max_retries t) \<and>
    distinct (hub_thumbprints h)"
proof -
  have inv: "hub_inv h" by (rule hub_system.run_inv [OF assms hub_new_inv])
  then have "sched_inv (hub_scheduler h)" by (simp add: hub_inv_def)
  from sched_inv_task [OF this] inv show ?thesis
    by (auto simp: hub_inv_def registry_inv_def get_node_def task_ok_def split: if_splits)
qed

theorem hub_invariant_witness:
  "get_node (hub_registry demo_hub1) ''n1'' = Some demo_profile \<and> np_node_id demo_profile = ''n1'' \<and>
   distinct (hub_thumbprints demo_hub1)"
proof -
  have run: "(hub_step demo_env (\<lambda>_ _. True))\<^sup>*\<^sup>* (hub_new registry_new scheduler_new ''127.0.0.1'') demo_hub1"
    using demo_heartbeat_step by (simp add: demo_hub_def r_into_rtranclp)
  have "get_node (hub_registry demo_hub1) ''n1'' = Some demo_profile" by (simp add: store_simps)
  with hub_invariant [OF run] show ?thesis by blast
qed

text \<open>The running hub never forgets a node: no turn of any server unregisters or evicts
  one, so a registered node stays registered in every later state.\<close>

theorem hub_never_forgets_nodes:
  assumes "(hub_step env uuid_ok)\<^sup>*\<^sup>* h h'" and "registry_ok (hub_registry h)"
    and "get_node (hub_registry h) k \<noteq> None"
  shows "get_node (hub_registry h') k \<noteq> None"
  using hub_run_keeps_node [OF assms] by blast

theorem hub_never_forgets_nodes_witness:
  "get_node (hub_registry demo_hub1) ''n1'' \<noteq> None"
  by (rule hub_never_forgets_nodes [where h = demo_hub1 and env = demo_env and uuid_ok = fresh_uuid])
    (simp_all add: store_simps)

text \<open>As long as the medium server draws fresh task ids, no turn of any server takes a
  running task from its node, queues it again or fails it: it keeps running on the same node
  since the same time until it is completed, and stays completed. So a failed report or a
  vanished worker never leads to a retry at the hub.\<close>

theorem hub_never_requeues:
  assumes "(hub_step env fresh_uuid)\<^sup>*\<^sup>* h h'" and "scheduler_ok (hub_scheduler h)"
    and "get_task (hub_scheduler h) k = Some t" and "tk_state t = Running n since"
  shows "\<exists>t'. get_task (hub_scheduler h') k = Some t' \<and>
    (tk_state t' = Running n since \<or> (\<exists>r. tk_state t' = Completed r))"
  using hub_run_keeps_running [OF assms(1-3), of n since] assms(4)
  by (simp add: kept_or_done_def)

definition busy_hub :: hub where
  "busy_hub = demo_hub\<lparr>hub_scheduler := submit_task scheduler_new
     ((demo_task ''medium-abcdefgh'')\<lparr>tk_state := Running ''n1'' 5\<rparr>)\<rparr>"

lemma busy_hub_simps [simp]:
  "hub_registry busy_hub = registry_new"
  "hub_scheduler busy_hub = submit_task scheduler_new
     ((demo_task ''medium-abcdefgh'')\<lparr>tk_state := Running ''n1'' 5\<rparr>)"
  "hub_progress_pub busy_hub = None"
  by (simp_all add: busy_hub_def)

lemma busy_hub_done:
  "progress_turn demo_env busy_hub (Received (frame_msg 7 (one_message [6] demo_done) demo_done)) =
     Serving (busy_hub\<lparr>hub_scheduler :=
       update_task_progress (hub_scheduler busy_hub) ''medium-abcdefgh'' Success\<rparr>, [])"
  by (simp add: progress_turn_def read_one_message progress_result_def demo_done_def)

theorem hub_never_requeues_witness:
  "\<exists>t'. get_task (update_task_progress (hub_scheduler busy_hub) ''medium-abcdefgh'' Success)
      ''medium-abcdefgh'' = Some t' \<and>
    (tk_state t' = Running ''n1'' 5 \<or> (\<exists>r. tk_state t' = Completed r))"
proof -
  have "(hub_step demo_env fresh_uuid)\<^sup>*\<^sup>* busy_hub (busy_hub\<lparr>hub_scheduler :=
       update_task_progress (hub_scheduler busy_hub) ''medium-abcdefgh'' Success\<rparr>)"
    by (rule r_into_rtranclp, rule hub_step.progress, rule busy_hub_done)
  from hub_never_requeues [OF this, of "''medium-abcdefgh''" _ "''n1''" 5] show ?thesis
    by (simp add: store_simps)
qed

text \<open>A heartbeat files the sender's rendered profile under its id and changes nothing
  else. The time recorded is the constant 1200, so an eviction at any clock of 1200 seconds
  plus the threshold or later removes the node, however recent the heartbeat.\<close>

theorem heartbeat_effect:
  assumes "carries (c_profile (he_codecs env)) p" and "registry_ok (hub_registry h)"
  shows "\<exists>h'. heartbeat_turn env h (Received (frame_msg 5 (c_profile (he_codecs env)) p)) = Serving h' \<and>
    (\<forall>k. get_node (hub_registry h') k =
       (if k = cp_node_id p
        then Some \<lparr>np_node_id = cp_node_id p, np_os_platform = cp_os_platform p,
          np_capabilities = map (core_capability (he_show_f64 env)) (cp_capabilities p),
          np_last_seen = 1200, np_public_key = []\<rparr>
        else get_node (hub_registry h) k)) \<and>
    hub_scheduler h' = hub_scheduler h \<and> hub_thumbprints h' = hub_thumbprints h \<and>
    (\<forall>now th. 1200 + unat th \<le> unat now \<longrightarrow>
       get_node (evict_offline_nodes (hub_registry h') now th) (cp_node_id p) = None)"
proof -
  let ?p = "heartbeat_profile (he_show_f64 env) p"
  let ?h' = "h\<lparr>hub_registry := register_node (hub_registry h) ?p\<rparr>"
  have id: "np_node_id ?p = cp_node_id p" "np_last_seen ?p = 1200"
    by (simp_all add: heartbeat_profile_def)
  have "heartbeat_turn env h (Received (frame_msg 5 (c_profile (he_codecs env)) p)) = Serving ?h'"
    using assms(1) by (simp add: heartbeat_turn_def read_body_frame_msg carries_def)
  moreover have "\<forall>k. get_node (hub_registry ?h') k =
      (if k = cp_node_id p then Some ?p else get_node (hub_registry h) k)"
    using assms(2) by (simp add: store_simps id)
  moreover have "\<not> fresh_at now th ?p" if "1200 + unat th \<le> unat now" for now th
    using that by (simp add: fresh_at_iff id word_less_nat_alt)
  ultimately show ?thesis
    using assms(2) by (auto simp: store_simps id heartbeat_profile_def)
qed

theorem heartbeat_effect_witness:
  "\<exists>h'. heartbeat_turn demo_env demo_hub
      (Received (frame_msg 5 (one_message [4] demo_heartbeat) demo_heartbeat)) = Serving h' \<and>
    get_node (evict_offline_nodes (hub_registry h') 1700000000 5) ''n1'' = None"
proof -
  have "carries (c_profile (he_codecs demo_env)) demo_heartbeat"
    by (simp add: carries_one_message)
  from heartbeat_effect [OF this, of demo_hub] obtain h' where
    "heartbeat_turn demo_env demo_hub
      (Received (frame_msg 5 (one_message [4] demo_heartbeat) demo_heartbeat)) = Serving h'"
    and "\<forall>now th. 1200 + unat th \<le> unat now \<longrightarrow>
      get_node (evict_offline_nodes (hub_registry h') now th) (cp_node_id demo_heartbeat) = None"
    by auto
  then show ?thesis by (auto simp: demo_heartbeat_def)
qed

text \<open>A progress report is published as received when the publishing socket is open, and
  changes at most the task it names: status COMPLETED completes it, any other status stores a
  checkpoint that is not empty, and everything else, a failure included, leaves the task as it
  is.\<close>

theorem progress_effect:
  assumes "carries (c_progress (he_codecs env)) p"
  shows "\<exists>h'. progress_turn env h (Received (frame_msg 7 (c_progress (he_codecs env)) p)) =
      Serving (h', if hub_progress_pub h = None then []
                   else [frame_msg 7 (c_progress (he_codecs env)) p]) \<and>
    hub_registry h' = hub_registry h \<and>
    (\<forall>k. get_task (hub_scheduler h') k =
       (if k = tp_task_id p
        then map_option (\<lambda>t. if tp_status p = 2 then t\<lparr>tk_state := Completed []\<rparr>
               else if tp_checkpoint_data p \<noteq> [] then t\<lparr>tk_payload := tp_checkpoint_data p\<rparr>
               else t) (get_task (hub_scheduler h) k)
        else get_task (hub_scheduler h) k))"
proof (cases "progress_result p")
  case None
  then have "tp_status p \<noteq> 2" "tp_checkpoint_data p = []"
    by (auto simp: progress_result_def split: if_splits)
  with None show ?thesis
    by (simp add: progress_turn_frame [OF assms] published_to_def option.map_ident)
next
  case (Some res)
  then have "apply_result res = (\<lambda>t. if tp_status p = 2 then t\<lparr>tk_state := Completed []\<rparr>
      else if tp_checkpoint_data p \<noteq> [] then t\<lparr>tk_payload := tp_checkpoint_data p\<rparr> else t)"
    by (auto simp: progress_result_def split: if_splits)
  with Some show ?thesis
    by (simp add: progress_turn_frame [OF assms] published_to_def get_task_update)
qed

theorem progress_effect_witness:
  "\<exists>h'. progress_turn demo_env busy_hub (Received (frame_msg 7 (one_message [6] demo_done) demo_done)) =
      Serving (h', []) \<and>
    (\<exists>t. get_task (hub_scheduler h') ''medium-abcdefgh'' = Some t \<and> tk_state t = Completed [])"
proof -
  have "carries (c_progress (he_codecs demo_env)) demo_done" by (simp add: carries_one_message)
  from progress_effect [OF this, of busy_hub] obtain h' where
    "progress_turn demo_env busy_hub (Received (frame_msg 7 (one_message [6] demo_done) demo_done)) =
      Serving (h', [])"
    and "\<forall>k. get_task (hub_scheduler h') k =
       (if k = tp_task_id demo_done
        then map_option (\<lambda>t. if tp_status demo_done = 2 then t\<lparr>tk_state := Completed []\<rparr>
               else if tp_checkpoint_data demo_done \<noteq> []
               then t\<lparr>tk_payload := tp_checkpoint_data demo_done\<rparr> else t)
             (get_task (hub_scheduler busy_hub) k)
        else get_task (hub_scheduler busy_hub) k)"
    by auto
  then show ?thesis by (auto simp: demo_done_def store_simps)
qed

text \<open>C17: The hub's servers crash on exactly the truncated frames of the type they read: a
  frame with a complete header whose announced payload is longer than what follows panics the
  server (the authentication server only while it waits for a response), and no other message
  does, whatever its bytes.\<close>

theorem crash_iff_truncated:
  assumes "str_upto uuid 8 \<noteq> Panics"
  shows "(heartbeat_turn env h (Received s) = Crashed \<longleftrightarrow> truncated 5 s) \<and>
    (progress_turn env h (Received s) = Crashed \<longleftrightarrow> truncated 7 s) \<and>
    (medium_turn env h send now uuid nks tks (Received s) = Crashed \<longleftrightarrow>
       truncated 10 s \<or> truncated 12 s) \<and>
    (auth_turn env h ph token ts session asend (Received s) = Crashed \<longleftrightarrow>
       (\<exists>ch. ph = AwaitResponse ch) \<and> truncated 3 s)"
  by (simp only: heartbeat_crash_iff progress_crash_iff medium_crash_iff [OF assms] auth_crash_iff)

theorem crash_iff_truncated_witness:
  "progress_turn demo_env demo_hub (Received [0, 0, 0, 9, 7]) = Crashed \<and>
   progress_turn demo_env demo_hub (Received [0, 0, 0, 0, 7]) \<noteq> Crashed"
proof -
  have u: "str_upto ''abcdefgh-1'' 8 \<noteq> Panics"
    by (simp add: str_upto_def cont_byte_def)
  have "truncated 7 [0, 0, 0, 9, 7]" and "\<not> truncated 7 [0, 0, 0, 0, 7]"
    by (simp_all add: truncated_def frame_len_def from_be_bytes_def)
  with crash_iff_truncated [OF u] show ?thesis by blast
qed

text \<open>C16: The authentication server's verdict on a response is exactly the signature check: a
  node is authenticated, and gets a session token, if and only if its response carries an
  identity whose key verifies the signature of the challenge; no list of trusted thumbprints
  is consulted. The presented key's thumbprint is recorded in either case, once, and nothing
  else in the hub changes.\<close>

theorem auth_decision:
  assumes "carries (c_response (he_codecs env)) resp"
  shows "\<exists>h1 ok node_id reason.
    auth_turn env h (AwaitResponse ch) token ts uuid send
      (Received (frame_msg 3 (c_response (he_codecs env)) resp)) =
    auth_send send h1 AwaitJoin
      (frame_msg 4 (c_result (he_codecs env)) (auth_result ok uuid node_id reason)) \<and>
    (ok \<longleftrightarrow> (\<exists>ident. hr_identity resp = Some ident \<and>
       verify_challenge_response (he_crypto env)
         (hex_encode (he_crypto env) (hi_ecdsa_public_key ident)) ch
         (hex_encode (he_crypto env) (hr_signature resp)))) \<and>
    hub_registry h1 = hub_registry h \<and> hub_scheduler h1 = hub_scheduler h \<and>
    set (hub_thumbprints h1) = set (hub_thumbprints h) \<union>
      (case hr_identity resp of None \<Rightarrow> {}
       | Some ident \<Rightarrow> {thumbprint_hex (he_crypto env) (hi_ecdsa_public_key ident)}) \<and>
    (distinct (hub_thumbprints h) \<longrightarrow> distinct (hub_thumbprints h1))"
proof -
  let ?f = "frame_msg 3 (c_response (he_codecs env)) resp"
  note slice = slice_frame_msg [OF assms] and dec = decode_carried [OF assms]
  obtain h1 ok n reason where v: "auth_verdict env h ch resp = (h1, ok, n, reason)"
    by (metis prod_cases4)
  have turn: "auth_turn env h (AwaitResponse ch) token ts uuid send (Received ?f) =
      auth_send send h1 AwaitJoin
        (frame_msg 4 (c_result (he_codecs env)) (auth_result ok uuid n reason))"
    by (simp add: auth_response_def slice dec v frame_msg_long [THEN leD])
  have "(ok \<longleftrightarrow> (\<exists>ident. hr_identity resp = Some ident \<and>
       verify_challenge_response (he_crypto env)
         (hex_encode (he_crypto env) (hi_ecdsa_public_key ident)) ch
         (hex_encode (he_crypto env) (hr_signature resp)))) \<and>
    hub_registry h1 = hub_registry h \<and> hub_scheduler h1 = hub_scheduler h \<and>
    set (hub_thumbprints h1) = set (hub_thumbprints h) \<union>
      (case hr_identity resp of None \<Rightarrow> {}
       | Some ident \<Rightarrow> {thumbprint_hex (he_crypto env) (hi_ecdsa_public_key ident)}) \<and>
    (distinct (hub_thumbprints h) \<longrightarrow> distinct (hub_thumbprints h1))"
    using v by (auto simp: auth_verdict_def Let_def split: option.splits if_splits)
  with turn show ?thesis by blast
qed

definition demo_response :: handshake_response where
  "demo_response = \<lparr>hr_signature = [7, 1, 2], hr_identity = Some
     \<lparr>hi_node_uuid = ''n1'', hi_ecdsa_public_key = [7], hi_static_thumbprint = [7]\<rparr>\<rparr>"

definition auth_env :: "(u8, u8, bytes) hub_env" where
  "auth_env = demo_env\<lparr>he_codecs := demo_codecs\<lparr>c_response := one_message [2] demo_response\<rparr>\<rparr>"

lemma auth_env_simps [simp]:
  "c_response (he_codecs auth_env) = one_message [2] demo_response"
  "he_crypto auth_env = demo_crypto"
  by (simp_all add: auth_env_def)

lemma demo_response_verifies:
  "\<exists>ident. hr_identity demo_response = Some ident \<and>
     verify_challenge_response (he_crypto auth_env)
       (hex_encode (he_crypto auth_env) (hi_ecdsa_public_key ident)) [1, 2]
       (hex_encode (he_crypto auth_env) (hr_signature demo_response))"
  by (simp add: demo_response_def verify_challenge_response_def demo_crypto_def)

theorem auth_decision_witness:
  "\<exists>h1 node_id reason.
    auth_turn auth_env demo_hub (AwaitResponse [1, 2]) [] 0 ''session'' (\<lambda>_. Inr ())
      (Received (frame_msg 3 (c_response (he_codecs auth_env)) demo_response)) =
    auth_send (\<lambda>_. Inr ()) h1 AwaitJoin
      (frame_msg 4 (c_result (he_codecs auth_env)) (auth_result True ''session'' node_id reason))"
proof -
  have "carries (c_response (he_codecs auth_env)) demo_response"
    by (simp add: carries_one_message)
  from auth_decision [OF this, of demo_hub "[1, 2]" "[]" 0 "''session''" "\<lambda>_. Inr ()"]
  obtain h1 ok n r where ok: "ok"
    and t: "auth_turn auth_env demo_hub (AwaitResponse [1, 2]) [] 0 ''session'' (\<lambda>_. Inr ())
        (Received (frame_msg 3 (c_response (he_codecs auth_env)) demo_response)) =
      auth_send (\<lambda>_. Inr ()) h1 AwaitJoin
        (frame_msg 4 (c_result (he_codecs auth_env)) (auth_result ok ''session'' n r))"
    unfolding demo_response_verifies [THEN eqTrueI] eq_True by (elim exE conjE) (rule that)
  from ok have "ok = True" by (rule eqTrueI)
  show ?thesis by (intro exI) (rule t [unfolded \<open>ok = True\<close>])
qed

text \<open>C39: The status reply is faithful for every iteration order of the registry: it counts
  the registered nodes, and lists each capability name some registered node offers exactly
  once, in increasing order; a client is authorized exactly when its key is not empty.\<close>

theorem status_is_faithful:
  assumes "registry_ok (hub_registry h)" and "iterates (rg_nodes (hub_registry h)) nks"
  shows "sr_node_count (status_response h nks req) =
      word_of_nat (card {k. get_node (hub_registry h) k \<noteq> None}) \<and>
    sorted (sr_available_capabilities (status_response h nks req)) \<and>
    distinct (sr_available_capabilities (status_response h nks req)) \<and>
    set (sr_available_capabilities (status_response h nks req)) =
      {cap_name c | c. \<exists>k n. get_node (hub_registry h) k = Some n \<and> c \<in> set (np_capabilities n)} \<and>
    (sr_authorized (status_response h nks req) \<longleftrightarrow> sq_access_key req \<noteq> [])"
proof -
  have ids: "{k. get_node (hub_registry h) k \<noteq> None} = dom (rg_nodes (hub_registry h))"
    using assms(1) by (auto simp: registry_defs)
  have len: "length (list_nodes (hub_registry h) nks) = card (dom (rg_nodes (hub_registry h)))"
    using assms by (simp add: list_nodes_def registry_ok_def iterates_length_values)
  have names: "set (available_capabilities (list_nodes (hub_registry h) nks)) =
      {cap_name c | c. \<exists>k n. get_node (hub_registry h) k = Some n \<and> c \<in> set (np_capabilities n)}"
    by (auto simp: available_capabilities_def set_list_nodes [OF assms])
  show ?thesis
    unfolding ids by (simp add: status_response_def Let_def len names)
      (simp add: available_capabilities_def)
qed

theorem status_is_faithful_witness:
  "sr_node_count (status_response demo_hub1 [''n1''] \<lparr>sq_access_key = ''k''\<rparr>) =
     word_of_nat (card {k. get_node (hub_registry demo_hub1) k \<noteq> None}) \<and>
   sr_authorized (status_response demo_hub1 [''n1''] \<lparr>sq_access_key = ''k''\<rparr>)"
proof -
  have "registry_ok (hub_registry demo_hub1)"
    and "iterates (rg_nodes (hub_registry demo_hub1)) [''n1'']"
    by (simp, simp add: iterates_def register_node_def registry_new_def)
  from status_is_faithful [OF this, of "\<lparr>sq_access_key = ''k''\<rparr>"] show ?thesis by simp
qed

text \<open>C33: A dispatch pushes exactly one frame per assignment, in order, with the task as the
  table now holds it; every task it reports is running on the reported node whether or not the
  socket took its frame, so a push that fails leaves the task running on a node that never
  received it.\<close>

theorem dispatch_pushes_once:
  assumes "scheduler_ok (hub_scheduler h)" and "sched_inv (hub_scheduler h)"
    and "iterates (sc_tasks (hub_scheduler h)) tks"
    and "dispatch_pending_tasks (hub_registry h) (hub_scheduler h) now nks tks = (s', ds)"
  shows "dispatch_now env h send now nks tks =
      (h\<lparr>hub_scheduler := s'\<rparr>,
       map (\<lambda>(k, n). let f = frame_msg 6 (c_task (he_codecs env))
                               (task_definition_of (the (get_task s' k)) k n)
                     in (f, hub_task_push h \<noteq> None \<and> send f)) ds) \<and>
    (\<forall>(k, n)\<in>set ds. \<exists>t. get_task s' k = Some t \<and> tk_state t = Running n now)"
proof -
  have run: "\<exists>t. get_task s' k = Some t \<and> tk_state t = Running n now" if "(k, n) \<in> set ds" for k n
    using dispatched_running [OF assms(1-3), of k n "hub_registry h" now nks] assms(4) that by simp
  have "List.map_filter (\<lambda>(k, n). map_option (\<lambda>t. push_task_frame env h send t k n) (get_task s' k)) ds =
      map (\<lambda>(k, n). push_task_frame env h send (the (get_task s' k)) k n) ds"
    using run by (intro map_filter_total) force
  then show ?thesis
    using run by (cases "hub_task_push h") (auto simp: dispatch_now_def assms(4) push_task_frame_def Let_def)
qed

theorem dispatch_pushes_once_witness:
  "hub_scheduler (fst (dispatch_now demo_env (hub_new demo_registry demo_scheduler []) (\<lambda>_. False) 77
     [''a'', ''b''] [''t1'', ''t2''])) =
   fst (dispatch_pending_tasks demo_registry demo_scheduler 77 [''a'', ''b''] [''t1'', ''t2''])"
proof -
  have h: "hub_scheduler (hub_new demo_registry demo_scheduler []) = demo_scheduler"
      "hub_registry (hub_new demo_registry demo_scheduler []) = demo_registry"
    by (simp_all add: hub_new_def)
  from dispatch_pushes_once [of "hub_new demo_registry demo_scheduler []", unfolded h,
      OF demo_scheduler_ok demo_scheduler_inv demo_iterates(2) prod.collapse [symmetric],
      where env = demo_env and send = "\<lambda>_. False"]
  show ?thesis by simp
qed

text \<open>A submission with a key is accepted under a new id, and the task is filed with the
  client's payload, the class of its category and three retries: running on a registered node
  that offers every required capability if there is one, queued otherwise. Without a key the
  hub is left as it is and the reply refuses.\<close>

theorem submission_effect:
  assumes "str_upto uuid 8 = Returns short" and "k = ''medium-'' @ short"
    and "registry_ok (hub_registry h)" and "iterates (rg_nodes (hub_registry h)) nks"
    and "scheduler_ok (hub_scheduler h)"
    and "iterates (sc_tasks (submit_task (hub_scheduler h) (submitted_task k req))) tks"
  shows "if ts_access_key req = []
    then medium_submit env h send now uuid nks tks req =
      just_reply h (frame_msg 13 (c_submit_resp (he_codecs env))
        \<lparr>ta_accepted = False, ta_task_id = [], ta_message = ''Invalid access key''\<rparr>)
    else \<exists>out t. medium_submit env h send now uuid nks tks req = Serving out \<and>
      mo_reply out = Some (frame_msg 13 (c_submit_resp (he_codecs env))
        \<lparr>ta_accepted = True, ta_task_id = k,
         ta_message = ''Task queued for dispatch to swarm''\<rparr>) \<and>
      get_task (hub_scheduler (mo_hub out)) k = Some t \<and>
      tk_payload t = ts_payload req \<and> tk_type t = submitted_type (ts_category req) \<and>
      tk_required t = ts_required_capabilities req \<and>
      tk_max_retries t = 3 \<and> tk_current_retry t = 0 \<and>
      (if \<exists>i n. get_node (hub_registry h) i = Some n \<and>
            node_matches_capabilities n (ts_required_capabilities req)
       then \<exists>i n. get_node (hub_registry h) i = Some n \<and>
            node_matches_capabilities n (ts_required_capabilities req) \<and>
            tk_state t = Running (np_node_id n) now
       else tk_state t = Pending)"
proof (cases "ts_access_key req = []")
  case True
  then show ?thesis by (simp add: medium_submit_def)
next
  case False
  let ?s = "submit_task (hub_scheduler h) (submitted_task k req)"
  let ?h = "h\<lparr>hub_scheduler := ?s\<rparr>" and ?ns = "list_nodes (hub_registry h) nks"
  obtain h2 pushed where d: "dispatch_now env ?h send now nks tks = (h2, pushed)" by fastforce
  have out: "medium_submit env h send now uuid nks tks req = Serving
      \<lparr>mo_hub = h2, mo_reply = Some (frame_msg 13 (c_submit_resp (he_codecs env))
        \<lparr>ta_accepted = True, ta_task_id = k, ta_message = ''Task queued for dispatch to swarm''\<rparr>),
       mo_pushed = pushed\<rparr>"
    using False d by (simp add: medium_submit_def assms(1,2))
  have s2: "hub_scheduler h2 = fst (dispatch_pending_tasks (hub_registry h) ?s now nks tks)"
    using dispatch_now_state [of env ?h send now nks tks] by (simp add: d)
  have t: "get_task ?s k = Some (submitted_task k req)" using assms(5) by (simp add: store_simps)
  have ok: "scheduler_ok ?s" using assms(5) by simp
  note hit = dispatchable_list_nodes [OF assms(3,4), of "submitted_task k req", simplified]
  note effect = get_task_dispatch [OF ok assms(6) t, of "hub_registry h" nks now, folded s2]
  have base: "tk_type (submitted_task k req) = submitted_type (ts_category req)"
      "tk_max_retries (submitted_task k req) = 3" "tk_current_retry (submitted_task k req) = 0"
    by (simp_all add: submitted_task_def with_capabilities_def task_new_def)
  show ?thesis
  proof (cases "dispatchable ?ns (submitted_task k req)")
    case True
    with effect obtain n where "n \<in> set (capable_nodes ?ns (submitted_task k req))"
        "get_task (hub_scheduler h2) k = Some (assigned now n (submitted_task k req))" by auto
    with False True hit out base show ?thesis
      by (auto simp: set_capable_nodes set_list_nodes [OF assms(3,4)] assigned_def)
  next
    case no: False
    with effect have "get_task (hub_scheduler h2) k = Some (submitted_task k req)" by simp
    with False no hit out base show ?thesis by simp
  qed
qed

theorem submission_effect_witness:
  "\<exists>out t. medium_submit demo_env demo_hub1 (\<lambda>_. True) 9 ''abcdefgh-x'' [''n1'']
      [''medium-abcdefgh''] demo_submit = Serving out \<and>
    get_task (hub_scheduler (mo_hub out)) ''medium-abcdefgh'' = Some t \<and>
    tk_state t = Running ''n1'' 9"
proof -
  have u: "str_upto ''abcdefgh-x'' 8 = Returns ''abcdefgh''"
    by (simp add: str_upto_def cont_byte_def)
  have k: "''medium-abcdefgh'' = ''medium-'' @ ''abcdefgh''" by simp
  have n: "registry_ok (hub_registry demo_hub1)"
    "iterates (rg_nodes (hub_registry demo_hub1)) [''n1'']"
    by (simp, simp add: iterates_def register_node_def registry_new_def)
  have t: "scheduler_ok (hub_scheduler demo_hub1)"
    "iterates (sc_tasks (submit_task (hub_scheduler demo_hub1)
       (submitted_task ''medium-abcdefgh'' demo_submit))) [''medium-abcdefgh'']"
    by (simp, simp add: iterates_def submit_task_def scheduler_new_def)
  have m: "node_matches_capabilities demo_profile (ts_required_capabilities demo_submit)"
    by (simp add: node_matches_capabilities_def demo_profile_def heartbeat_profile_def
        demo_heartbeat_def core_capability_def render_value_def demo_submit_def)
  have g: "get_node (hub_registry demo_hub1) i = Some n \<longleftrightarrow> i = ''n1'' \<and> n = demo_profile" for i n
    by (auto simp: store_simps)
  have key: "ts_access_key demo_submit \<noteq> []" by (simp add: demo_submit_def)
  from submission_effect [OF u k n t, of demo_env "\<lambda>_. True" 9] key m show ?thesis
    by (simp only: g if_False) auto
qed

end
