(* ===== verification/Scout.thy ===== *)
theory Scout
  imports Proto
begin

text \<open>
  Capability discovery (\<open>host-background-agent/src/scout\<close>): the five profilers, the medium
  profile derived from their raw capabilities, and the older synchronous listing. What the
  profilers ask of the machine (parallelism, files, directories, the output of \<open>sysctl\<close>,
  measured times, whether a blocking task was joined) is the record \<open>host\<close>. The result of the
  matrix benchmark is not used by the program, only the time it took, so the model keeps the
  time. Lower-casing of application names is the field \<open>ho_lowercase\<close> (Unicode tables).
\<close>

datatype os = MacOS | Linux | Windows | OtherOS string

fun os_name :: "os \<Rightarrow> string" where
  "os_name MacOS = ''macos''"
| "os_name Linux = ''linux''"
| "os_name Windows = ''windows''"
| "os_name (OtherOS s) = s"

record dir_entry =
  de_name :: string
  de_is_dir :: bool

record host =
  ho_parallelism :: "usize option"
  ho_aarch64 :: bool
  ho_avx2 :: bool
  ho_os :: os
  ho_exists :: "string \<Rightarrow> bool"
  ho_read_dir :: "string \<Rightarrow> dir_entry list option"
  ho_lowercase :: "string \<Rightarrow> string"
  ho_path :: "string option"
  ho_sysctl :: "bytes option"
  ho_meminfo :: "string option"
  ho_gpu_secs :: "real option"
  ho_nvme_secs :: "real option option"
  ho_mem_joined :: bool
  ho_apps_joined :: bool
  ho_round :: rounding

definition int_cap :: "string \<Rightarrow> i64 \<Rightarrow> device_capability" where
  "int_cap n v = \<lparr>dc_resource_name = n, dc_value_type = ''integer'', dc_resource_value = Some (IntVal v)\<rparr>"

definition bool_cap :: "string \<Rightarrow> bool \<Rightarrow> device_capability" where
  "bool_cap n v = \<lparr>dc_resource_name = n, dc_value_type = ''boolean'', dc_resource_value = Some (BoolVal v)\<rparr>"

definition float_cap :: "string \<Rightarrow> fp \<Rightarrow> device_capability" where
  "float_cap n v = \<lparr>dc_resource_name = n, dc_value_type = ''float'', dc_resource_value = Some (DoubleVal v)\<rparr>"

definition string_cap :: "string \<Rightarrow> string \<Rightarrow> device_capability" where
  "string_cap n v = \<lparr>dc_resource_name = n, dc_value_type = ''string'', dc_resource_value = Some (StringVal v)\<rparr>"

subsection \<open>The profilers\<close>

definition cpu_profile :: "host \<Rightarrow> string + device_capability list" where
  "cpu_profile h = Inr
     [int_cap ''cpu_cores'' (case ho_parallelism h of Some n \<Rightarrow> n | None \<Rightarrow> 8),
      bool_cap ''has_neon'' (ho_aarch64 h),
      bool_cap ''has_avx2'' (ho_avx2 h),
      int_cap ''cpu_clock_mhz'' 3200]"

text \<open>\<open>x / b\<close> for a positive finite \<open>b\<close>.\<close>

fun fp_div_pos :: "rounding \<Rightarrow> fp \<Rightarrow> real \<Rightarrow> fp" where
  "fp_div_pos rnd (Fin a) b = fp_div_fin rnd a b"
| "fp_div_pos rnd x b = x"

text \<open>\<open>ops\<close> is 2 * 128 * 128 * 128; without a measured time (the task was not joined) the
  result is 0.5.\<close>

definition gpu_gflops :: "host \<Rightarrow> fp" where
  "gpu_gflops h =
     (case ho_gpu_secs h of
        None \<Rightarrow> Fin (1 / 2)
      | Some elapsed \<Rightarrow> fp_div_pos (ho_round h) (fp_div_fin (ho_round h) (2 * 128 * 128 * 128) elapsed) (10 ^ 9))"

definition gpu_profile :: "host \<Rightarrow> string + device_capability list" where
  "gpu_profile h = Inr
     ([bool_cap ''has_cuda'' (if ho_os h = Linux then ho_exists h ''/dev/nvidia0'' else False),
       bool_cap ''has_metal'' (ho_os h = MacOS),
       float_cap ''gpu_gflops_benchmark'' (gpu_gflops h)] @
      (if ho_os h = MacOS then [int_cap ''metal_vram_gb'' 16] else []))"

text \<open>\<open>val as f64\<close> divided by a power of two.\<close>

definition scaled :: "rounding \<Rightarrow> nat \<Rightarrow> real \<Rightarrow> fp" where
  "scaled rnd v d = fp_div_pos rnd (rnd (of_nat v)) d"

fun meminfo_gb :: "rounding \<Rightarrow> string list \<Rightarrow> fp option" where
  "meminfo_gb rnd [] = None"
| "meminfo_gb rnd (line # rest) =
     (if starts_with line ''MemTotal:'' then
        (case split_whitespace line of
           _ # w # _ \<Rightarrow>
             (case parse_u64 w of
                Some val_kb \<Rightarrow> Some (scaled rnd val_kb (1024 * 1024))
              | None \<Rightarrow> meminfo_gb rnd rest)
         | _ \<Rightarrow> meminfo_gb rnd rest)
      else meminfo_gb rnd rest)"

definition memory_gb :: "host \<Rightarrow> fp" where
  "memory_gb h =
     (if \<not> ho_mem_joined h then Fin 16
      else
        (case (if ho_os h = MacOS then
                 (case ho_sysctl h of
                    None \<Rightarrow> None
                  | Some out \<Rightarrow>
                    (case from_utf8 out of
                       None \<Rightarrow> None
                     | Some s \<Rightarrow>
                       (case parse_u64 (trim s) of
                          None \<Rightarrow> None
                        | Some val \<Rightarrow> Some (scaled (ho_round h) val (1024 * 1024 * 1024)))))
               else if ho_os h = Linux then
                 (case ho_meminfo h of
                    None \<Rightarrow> None
                  | Some content \<Rightarrow> meminfo_gb (ho_round h) (lines_of content))
               else None) of
           Some gb \<Rightarrow> gb
         | None \<Rightarrow> Fin 16))"

text \<open>\<open>Some None\<close>: the test file could not be written.\<close>

definition nvme_mbps :: "host \<Rightarrow> fp" where
  "nvme_mbps h =
     (case ho_nvme_secs h of
        Some (Some elapsed) \<Rightarrow>
          if 0 < elapsed then fp_div_fin (ho_round h) 10 elapsed else Fin 500
      | _ \<Rightarrow> Fin 500)"

definition memory_profile :: "host \<Rightarrow> string + device_capability list" where
  "memory_profile h = Inr
     [float_cap ''total_memory_gb'' (memory_gb h), float_cap ''nvme_write_mbps'' (nvme_mbps h)]"

definition network_profile :: "host \<Rightarrow> string + device_capability list" where
  "network_profile h = Inr
     [float_cap ''link_latency_ms'' (Fin (125 / 100)), int_cap ''link_bandwidth_mbps'' 1000]"

subsection \<open>Installed software\<close>

definition KNOWN_CLI_TOOLS :: "(string \<times> string) list" where
  "KNOWN_CLI_TOOLS =
     [(''ffmpeg'', ''ffmpeg''), (''blender'', ''blender''), (''inkscape'', ''inkscape''),
      (''HandBrakeCLI'', ''handbrake''), (''gimp'', ''gimp''), (''convert'', ''imagemagick''),
      (''python3'', ''python3''), (''node'', ''node''), (''docker'', ''docker''),
      (''claude'', ''claude''), (''ollama'', ''ollama'')]"

text \<open>Paths: \<open>join\<close> adds a separator unless there is one; two paths are equal when their
  components are (a repeated or trailing separator does not count, nor does a \<open>.\<close> other than
  at the start of a relative path).\<close>

definition path_join :: "string \<Rightarrow> string \<Rightarrow> string" where
  "path_join d f = (if d = [] \<or> last d = CHR ''/'' then d @ f else d @ ''/'' @ f)"

definition path_components :: "string \<Rightarrow> bool \<times> string list" where
  "path_components p =
     (starts_with p ''/'',
      (if hd (split_on (CHR ''/'') p) = ''.'' then [''.''] else []) @
      filter (\<lambda>w. w \<noteq> [] \<and> w \<noteq> ''.'') (split_on (CHR ''/'') p))"

definition add_dir :: "(string \<Rightarrow> bool) \<Rightarrow> string \<Rightarrow> string list \<Rightarrow> string list" where
  "add_dir exists_at p dirs =
     (if exists_at p \<and> path_components p \<notin> set (map path_components dirs) then p # dirs else dirs)"

definition search_dirs :: "host \<Rightarrow> string list" where
  "search_dirs h =
     fold (add_dir (ho_exists h))
       [''/opt/homebrew/bin'', ''/opt/homebrew/sbin'', ''/usr/local/bin'', ''/usr/local/sbin'']
       (filter (\<lambda>s. s \<noteq> []) (split_on (CHR '':'') (case ho_path h of Some p \<Rightarrow> p | None \<Rightarrow> [])))"

definition discover_cli_tools :: "host \<Rightarrow> string list" where
  "discover_cli_tools h =
     map snd (filter (\<lambda>(exe, _). list_ex (\<lambda>d. ho_exists h (path_join d exe)) (search_dirs h))
       KNOWN_CLI_TOOLS)"

text \<open>\<open>extension\<close> and \<open>file_stem\<close> of a file name: split at the last dot, unless it is the first
  character.\<close>

definition last_dot :: "string \<Rightarrow> nat option" where
  "last_dot s = (case rev (filter (\<lambda>i. s ! i = CHR ''.'') [0..<length s]) of
     [] \<Rightarrow> None | i # _ \<Rightarrow> if i = 0 then None else Some i)"

definition path_extension :: "string \<Rightarrow> string option" where
  "path_extension s = map_option (\<lambda>i. drop (Suc i) s) (last_dot s)"

definition file_stem :: "string \<Rightarrow> string" where
  "file_stem s = (case last_dot s of Some i \<Rightarrow> take i s | None \<Rightarrow> s)"

definition app_name :: "host \<Rightarrow> string \<Rightarrow> string" where
  "app_name h s = replace_char (CHR '' '') ''_'' (ho_lowercase h (from_utf8_lossy (as_bytes s)))"

definition bundle_names :: "host \<Rightarrow> string \<Rightarrow> string \<Rightarrow> string list" where
  "bundle_names h dir ext =
     (case ho_read_dir h dir of
        None \<Rightarrow> []
      | Some es \<Rightarrow> map (\<lambda>e. app_name h (file_stem (de_name e)))
          (filter (\<lambda>e. path_extension (de_name e) = Some ext) es))"

definition os_apps :: "host \<Rightarrow> string list" where
  "os_apps h =
     (if ho_os h = MacOS then bundle_names h ''/Applications'' ''app''
      else if ho_os h = Windows then
        (case ho_read_dir h (''C:'' @ [CHR 0x5C] @ ''Program Files'') of
           None \<Rightarrow> []
         | Some es \<Rightarrow> map (\<lambda>e. app_name h (de_name e)) (filter de_is_dir es))
      else bundle_names h ''/usr/share/applications'' ''desktop'')"

definition discovered_apps :: "host \<Rightarrow> string list" where
  "discovered_apps h =
     (if ho_apps_joined h
      then fold (\<lambda>name apps. if name \<in> set apps then apps else apps @ [name])
             (discover_cli_tools h) (os_apps h)
      else [])"

definition software_profile :: "host \<Rightarrow> string + device_capability list" where
  "software_profile h =
     Inr (map (\<lambda>app. bool_cap (''installed_app_'' @ app) True) (discovered_apps h))"

subsection \<open>The medium profile\<close>

record medium_vars =
  mv_cores :: i64
  mv_gpu :: bool
  mv_ram :: fp
  mv_latency :: fp
  mv_apps :: "string list"

definition read_capability :: "device_capability \<Rightarrow> medium_vars \<Rightarrow> medium_vars" where
  "read_capability c m =
     (case strip_prefix (dc_resource_name c) ''installed_app_'' of
        Some app \<Rightarrow> m\<lparr>mv_apps := mv_apps m @ [app]\<rparr>
      | None \<Rightarrow>
          if dc_resource_name c = ''cpu_cores'' then
            (case dc_resource_value c of Some (IntVal v) \<Rightarrow> m\<lparr>mv_cores := v\<rparr> | _ \<Rightarrow> m)
          else if dc_resource_name c = ''has_cuda'' \<or> dc_resource_name c = ''has_metal'' then
            (case dc_resource_value c of
               Some (BoolVal v) \<Rightarrow> if v then m\<lparr>mv_gpu := True\<rparr> else m | _ \<Rightarrow> m)
          else if dc_resource_name c = ''total_memory_gb'' then
            (case dc_resource_value c of Some (DoubleVal v) \<Rightarrow> m\<lparr>mv_ram := v\<rparr> | _ \<Rightarrow> m)
          else if dc_resource_name c = ''link_latency_ms'' then
            (case dc_resource_value c of Some (DoubleVal v) \<Rightarrow> m\<lparr>mv_latency := v\<rparr> | _ \<Rightarrow> m)
          else m)"

definition medium_vars_of :: "device_capability list \<Rightarrow> medium_vars" where
  "medium_vars_of raw = fold read_capability raw
     \<lparr>mv_cores = 0, mv_gpu = False, mv_ram = Fin 0, mv_latency = Fin 100, mv_apps = []\<rparr>"

definition cpu_class :: "i64 \<Rightarrow> string" where
  "cpu_class cores =
     (if sint cores > 16 then ''heavy_parallel''
      else if sint cores \<ge> 8 then ''multicore_standard'' else ''low_power_edge'')"

definition gpu_class :: "bool \<Rightarrow> bool \<Rightarrow> string" where
  "gpu_class is_macos has_gpu =
     (if has_gpu then (if is_macos then ''unified_gpu'' else ''vram_gpu'') else ''none'')"

definition memory_tier :: "fp \<Rightarrow> string" where
  "memory_tier ram =
     (if Fin 32 < ram then ''high_throughput''
      else if Fin 16 \<le> ram then ''standard_capacity'' else ''constrained'')"

definition creative_cap :: "string \<Rightarrow> device_capability" where
  "creative_cap app = string_cap (''creative_capability_'' @ app) (app @ ''_execution'')"

definition adapt_to_medium_profile :: "bool \<Rightarrow> device_capability list \<Rightarrow> device_capability list" where
  "adapt_to_medium_profile is_macos raw =
     (let m = medium_vars_of raw in
      [string_cap ''cpu_class'' (cpu_class (mv_cores m)),
       string_cap ''accelerator_class'' (gpu_class is_macos (mv_gpu m)),
       string_cap ''memory_tier'' (memory_tier (mv_ram m)),
       bool_cap ''low_latency_ready'' (mv_latency m < Fin 2)] @
      map creative_cap (mv_apps m))"

definition profile_caps :: "string + device_capability list \<Rightarrow> device_capability list" where
  "profile_caps r = (case r of Inr caps \<Rightarrow> caps | Inl _ \<Rightarrow> [])"

definition discover_capabilities_async :: "host \<Rightarrow> device_capability list" where
  "discover_capabilities_async h =
     (let raw = profile_caps (cpu_profile h) @ profile_caps (gpu_profile h) @
                profile_caps (memory_profile h) @ profile_caps (network_profile h) @
                profile_caps (software_profile h)
      in raw @ adapt_to_medium_profile (ho_os h = MacOS) raw)"

record discovered_capability =
  di_name :: string
  di_val_type :: string
  di_value :: string

definition discover_capabilities :: "host \<Rightarrow> discovered_capability list" where
  "discover_capabilities h =
     [\<lparr>di_name = ''cpu_cores'', di_val_type = ''integer'',
       di_value = show_nat (unat (case ho_parallelism h of Some n \<Rightarrow> n | None \<Rightarrow> 8))\<rparr>,
      \<lparr>di_name = ''os_platform'', di_val_type = ''string'', di_value = os_name (ho_os h)\<rparr>,
      \<lparr>di_name = ''total_memory_gb'', di_val_type = ''float'', di_value = ''16.00''\<rparr>,
      \<lparr>di_name = ''has_cuda'', di_val_type = ''boolean'', di_value = ''false''\<rparr>] @
     (if ho_os h = MacOS
      then [\<lparr>di_name = ''metal_support'', di_val_type = ''boolean'', di_value = ''true''\<rparr>] else [])"

subsection \<open>The medium profile of a host\<close>

definition raw_caps :: "host \<Rightarrow> device_capability list" where
  "raw_caps h = profile_caps (cpu_profile h) @ profile_caps (gpu_profile h) @
     profile_caps (memory_profile h) @ profile_caps (network_profile h) @
     profile_caps (software_profile h)"

lemma discover_raw:
  "discover_capabilities_async h = raw_caps h @ adapt_to_medium_profile (ho_os h = MacOS) (raw_caps h)"
  by (simp add: discover_capabilities_async_def raw_caps_def Let_def)

lemma read_installed:
  "fold read_capability (map (\<lambda>app. bool_cap (''installed_app_'' @ app) True) as) m =
     m\<lparr>mv_apps := mv_apps m @ as\<rparr>"
proof (induction as arbitrary: m)
  case (Cons a as)
  have "read_capability (bool_cap (''installed_app_'' @ a) True) m = m\<lparr>mv_apps := mv_apps m @ [a]\<rparr>"
    unfolding read_capability_def bool_cap_def by (simp only: device_capability.simps strip_prefix_append option.case)
  with Cons.IH show ?case by simp
qed simp

lemma read_int: "read_capability (int_cap n v) m =
  (case strip_prefix n ''installed_app_'' of Some app \<Rightarrow> m\<lparr>mv_apps := mv_apps m @ [app]\<rparr>
   | None \<Rightarrow> if n = ''cpu_cores'' then m\<lparr>mv_cores := v\<rparr> else m)"
  by (simp add: read_capability_def int_cap_def split: option.split)

lemma read_bool: "read_capability (bool_cap n v) m =
  (case strip_prefix n ''installed_app_'' of Some app \<Rightarrow> m\<lparr>mv_apps := mv_apps m @ [app]\<rparr>
   | None \<Rightarrow> if (n = ''has_cuda'' \<or> n = ''has_metal'') \<and> v then m\<lparr>mv_gpu := True\<rparr> else m)"
  by (simp add: read_capability_def bool_cap_def split: option.split)

lemma read_float: "read_capability (float_cap n v) m =
  (case strip_prefix n ''installed_app_'' of Some app \<Rightarrow> m\<lparr>mv_apps := mv_apps m @ [app]\<rparr>
   | None \<Rightarrow> if n = ''total_memory_gb'' then m\<lparr>mv_ram := v\<rparr>
       else if n = ''link_latency_ms'' then m\<lparr>mv_latency := v\<rparr> else m)"
  by (simp add: read_capability_def float_cap_def split: option.split)

definition has_gpu :: "host \<Rightarrow> bool" where
  "has_gpu h \<longleftrightarrow> ho_os h = MacOS \<or> ho_os h = Linux \<and> ho_exists h ''/dev/nvidia0''"

lemma medium_vars_raw:
  "medium_vars_of (raw_caps h) =
     \<lparr>mv_cores = (case ho_parallelism h of Some n \<Rightarrow> n | None \<Rightarrow> 8), mv_gpu = has_gpu h,
      mv_ram = memory_gb h, mv_latency = Fin (125 / 100), mv_apps = discovered_apps h\<rparr>"
proof -
  have "fold read_capability (profile_caps (cpu_profile h)) m =
      m\<lparr>mv_cores := (case ho_parallelism h of Some n \<Rightarrow> n | None \<Rightarrow> 8)\<rparr>" for m
    by (simp add: profile_caps_def cpu_profile_def read_int read_bool strip_prefix_def starts_with_def)
  moreover have "fold read_capability (profile_caps (gpu_profile h)) m =
      (if has_gpu h then m\<lparr>mv_gpu := True\<rparr> else m)" for m
    by (simp add: profile_caps_def gpu_profile_def read_int read_bool read_float strip_prefix_def
        starts_with_def has_gpu_def)
  moreover have "fold read_capability (profile_caps (memory_profile h)) m = m\<lparr>mv_ram := memory_gb h\<rparr>" for m
    by (simp add: profile_caps_def memory_profile_def read_float strip_prefix_def starts_with_def)
  moreover have "fold read_capability (profile_caps (network_profile h)) m =
      m\<lparr>mv_latency := Fin (125 / 100)\<rparr>" for m
    by (simp add: profile_caps_def network_profile_def read_float read_int strip_prefix_def starts_with_def)
  moreover have "fold read_capability (profile_caps (software_profile h)) m =
      m\<lparr>mv_apps := mv_apps m @ discovered_apps h\<rparr>" for m
    by (simp only: profile_caps_def software_profile_def sum.case read_installed)
  ultimately show ?thesis
    unfolding medium_vars_of_def raw_caps_def by simp
qed

lemma int_not_bool [simp]: "int_cap n v \<noteq> bool_cap m b" "float_cap n w \<noteq> bool_cap m b"
  by (simp_all add: int_cap_def bool_cap_def float_cap_def)

lemma bool_cap_inject [simp]: "bool_cap n v = bool_cap m b \<longleftrightarrow> n = m \<and> v = b"
  by (simp add: bool_cap_def)

lemma installed_in_raw:
  "bool_cap (''installed_app_'' @ x) True \<in> set (raw_caps h) \<longleftrightarrow> x \<in> set (discovered_apps h)"
  by (auto simp: raw_caps_def profile_caps_def cpu_profile_def gpu_profile_def memory_profile_def
      network_profile_def software_profile_def int_not_bool [symmetric])

lemma fold_add_new:
  "set (fold (\<lambda>name apps. if name \<in> set apps then apps else apps @ [name]) ns as) = set as \<union> set ns"
  "distinct as \<Longrightarrow> distinct (fold (\<lambda>name apps. if name \<in> set apps then apps else apps @ [name]) ns as)"
  by (induction ns arbitrary: as) auto

lemma set_discovered_apps:
  "ho_apps_joined h \<Longrightarrow> set (discovered_apps h) = set (os_apps h) \<union> set (discover_cli_tools h)"
  by (simp add: discovered_apps_def fold_add_new)

subsection \<open>Paths\<close>

text \<open>The file system does not tell apart two spellings of a path with the same components.\<close>

definition exists_by_components :: "host \<Rightarrow> bool" where
  "exists_by_components h \<longleftrightarrow>
     (\<forall>p q. path_components p = path_components q \<longrightarrow> ho_exists h p = ho_exists h q)"

lemma split_on_last: "c \<notin> set f \<Longrightarrow> split_on c (d @ c # f) = split_on c d @ [f]"
proof (induction d)
  case Nil
  then show ?case by (simp add: split_on_free)
next
  case (Cons x d)
  then show ?case by (cases "split_on c d") auto
qed

lemma path_components_join:
  assumes "d \<noteq> []" and "f \<noteq> []" and "f \<noteq> ''.''" and "CHR ''/'' \<notin> set f"
  shows "path_components (path_join d f) = (fst (path_components d), snd (path_components d) @ [f])"
proof -
  have abs: "starts_with (d @ e) ''/'' = starts_with d ''/''" for e
    using assms(1) by (cases d) (simp_all add: starts_with_def)
  show ?thesis
  proof (cases "last d = CHR ''/''")
    case True
    with assms(1) obtain d' where d: "d = d' @ [CHR ''/'']" by (metis append_butlast_last_id)
    have "split_on (CHR ''/'') (d @ f) = split_on (CHR ''/'') d' @ [f]"
      and "split_on (CHR ''/'') d = split_on (CHR ''/'') d' @ [[]]"
      using split_on_last [OF assms(4), of d'] split_on_last [of "CHR ''/''" "[]" d'] d by simp_all
    with True assms abs [of f] show ?thesis by (simp add: path_join_def path_components_def)
  next
    case False
    with assms abs [of "CHR ''/'' # f"] show ?thesis
      by (simp add: path_join_def path_components_def split_on_last)
  qed
qed

lemma exists_join:
  assumes "exists_by_components h" and "path_components d = path_components e"
    and "d \<noteq> []" and "e \<noteq> []" and "f \<noteq> []" and "f \<noteq> ''.''" and "CHR ''/'' \<notin> set f"
  shows "ho_exists h (path_join d f) = ho_exists h (path_join e f)"
  using assms by (simp add: exists_by_components_def path_components_join)

text \<open>A directory added unless an equal one is there: up to equality, it is there.\<close>

lemma fold_add_dir:
  "path_components ` set (fold (add_dir ex) ps ds) =
     path_components ` (set ds \<union> {p \<in> set ps. ex p})"
proof (induction ps arbitrary: ds)
  case (Cons p ps)
  then show ?case by (simp add: add_dir_def) blast
qed simp

lemma fold_add_dir_subset: "set (fold (add_dir ex) ps ds) \<subseteq> set ds \<union> set ps"
proof (induction ps arbitrary: ds)
  case (Cons p ps)
  from Cons.IH [of "add_dir ex p ds"] show ?case by (auto simp: add_dir_def split: if_splits)
qed simp

definition homebrew_dirs :: "string set" where
  "homebrew_dirs =
     {''/opt/homebrew/bin'', ''/opt/homebrew/sbin'', ''/usr/local/bin'', ''/usr/local/sbin''}"

text \<open>Where a tool is looked for: the non-empty entries of \<open>PATH\<close> and the Homebrew
  directories that exist.\<close>

definition tool_dirs :: "host \<Rightarrow> string set" where
  "tool_dirs h =
     {d. d \<noteq> [] \<and> d \<in> set (split_on (CHR '':'') (case ho_path h of Some p \<Rightarrow> p | None \<Rightarrow> []))} \<union>
     {d \<in> homebrew_dirs. ho_exists h d}"

lemma search_dirs_components: "path_components ` set (search_dirs h) = path_components ` tool_dirs h"
proof -
  have "path_components ` set (search_dirs h) = path_components `
      (set (filter (\<lambda>s. s \<noteq> []) (split_on (CHR '':'') (case ho_path h of Some p \<Rightarrow> p | None \<Rightarrow> []))) \<union>
       {p \<in> set [''/opt/homebrew/bin'', ''/opt/homebrew/sbin'', ''/usr/local/bin'', ''/usr/local/sbin''].
          ho_exists h p})"
    unfolding search_dirs_def by (rule fold_add_dir)
  also have "\<dots> = path_components ` tool_dirs h"
    by (rule arg_cong [where f = "image path_components"])
      (auto simp only: tool_dirs_def homebrew_dirs_def set_filter list.set mem_Collect_eq Un_iff)
  finally show ?thesis .
qed

lemma search_dirs_nonempty: "[] \<notin> set (search_dirs h)"
  using fold_add_dir_subset [of "ho_exists h"
      "[''/opt/homebrew/bin'', ''/opt/homebrew/sbin'', ''/usr/local/bin'', ''/usr/local/sbin'']"]
  by (fastforce simp: search_dirs_def)

lemma tool_dirs_nonempty: "[] \<notin> tool_dirs h"
  by (auto simp: tool_dirs_def homebrew_dirs_def)

lemma known_tool_file:
  "(exe, name) \<in> set KNOWN_CLI_TOOLS \<Longrightarrow> exe \<noteq> [] \<and> exe \<noteq> ''.'' \<and> CHR ''/'' \<notin> set exe"
  unfolding KNOWN_CLI_TOOLS_def by (simp only: list.set insert_iff empty_iff prod.inject) (elim disjE conjE; simp)

lemma tool_found_iff:
  assumes "exists_by_components h" and "(exe, name) \<in> set KNOWN_CLI_TOOLS"
  shows "(\<exists>d\<in>set (search_dirs h). ho_exists h (path_join d exe)) \<longleftrightarrow>
    (\<exists>d\<in>tool_dirs h. ho_exists h (path_join d exe))"
proof -
  have *: "\<exists>e\<in>B. ho_exists h (path_join e exe)"
    if d: "d \<in> A" and ex: "ho_exists h (path_join d exe)"
      and eq: "path_components ` A = path_components ` B" and ne: "[] \<notin> A" "[] \<notin> B" for d A B
  proof -
    obtain e where e: "e \<in> B" "path_components d = path_components e" using d eq by blast
    have "d \<noteq> []" "e \<noteq> []" using ne d e by auto
    with exists_join [OF assms(1) e(2) this] known_tool_file [OF assms(2)] ex e(1)
    show ?thesis by blast
  qed
  from * [OF _ _ search_dirs_components search_dirs_nonempty tool_dirs_nonempty]
    * [OF _ _ search_dirs_components [symmetric] tool_dirs_nonempty search_dirs_nonempty]
  show ?thesis by blast
qed

lemma known_tool_names: "distinct (map snd KNOWN_CLI_TOOLS)"
  by (simp add: KNOWN_CLI_TOOLS_def)

subsection \<open>Properties\<close>

text \<open>The profile a node sends is its raw capabilities followed by exactly four derived
  classes and one creative capability per discovered application, in order: the CPU class
  from the machine's parallelism, the accelerator class from the detected GPU, the memory tier
  from the measured memory, and low latency always claimed (the latency is a constant); the
  raw part announces an application as installed exactly when it was discovered.\<close>

theorem profile_is_exact:
  "\<exists>raw. discover_capabilities_async h = raw @
     [string_cap ''cpu_class''
        (cpu_class (case ho_parallelism h of Some n \<Rightarrow> n | None \<Rightarrow> 8)),
      string_cap ''accelerator_class'' (gpu_class (ho_os h = MacOS) (has_gpu h)),
      string_cap ''memory_tier'' (memory_tier (memory_gb h)),
      bool_cap ''low_latency_ready'' True] @
     map creative_cap (discovered_apps h) \<and>
     (\<forall>x. bool_cap (''installed_app_'' @ x) True \<in> set raw \<longleftrightarrow> x \<in> set (discovered_apps h))"
  by (rule exI [of _ "raw_caps h"])
    (simp only: discover_raw adapt_to_medium_profile_def medium_vars_raw Let_def medium_vars.simps
      installed_in_raw append_same_eq same_append_eq fp_less_simps, simp)

text \<open>Tool discovery is exact: a known command-line tool is listed as an application of the
  system's own list or when its executable exists in some non-empty entry of PATH or in some
  existing Homebrew directory, in whatever order and spelling the entries come; and no tool
  is listed twice.\<close>

theorem tool_discovery_exact:
  assumes "exists_by_components h" and "ho_apps_joined h"
  shows "(\<forall>name. name \<in> set (discovered_apps h) \<longleftrightarrow> name \<in> set (os_apps h) \<or>
      (\<exists>exe. (exe, name) \<in> set KNOWN_CLI_TOOLS \<and>
         (\<exists>d\<in>tool_dirs h. ho_exists h (path_join d exe)))) \<and>
    distinct (discover_cli_tools h) \<and>
    (distinct (os_apps h) \<longrightarrow> distinct (discovered_apps h))"
proof -
  have "name \<in> set (discover_cli_tools h) \<longleftrightarrow>
      (\<exists>exe. (exe, name) \<in> set KNOWN_CLI_TOOLS \<and> (\<exists>d\<in>tool_dirs h. ho_exists h (path_join d exe)))" for name
  proof -
    have "name \<in> set (discover_cli_tools h) \<longleftrightarrow>
        (\<exists>exe. (exe, name) \<in> set KNOWN_CLI_TOOLS \<and>
           (\<exists>d\<in>set (search_dirs h). ho_exists h (path_join d exe)))"
      by (force simp: discover_cli_tools_def list_ex_iff)
    then show ?thesis using tool_found_iff [OF assms(1)] by blast
  qed
  moreover have "distinct (discover_cli_tools h)"
    unfolding discover_cli_tools_def by (rule distinct_map_filter [OF known_tool_names])
  ultimately show ?thesis
    using assms(2) by (simp add: set_discovered_apps) (simp add: discovered_apps_def fold_add_new)
qed

definition demo_host :: host where
  "demo_host =
     \<lparr>ho_parallelism = Some 12, ho_aarch64 = False, ho_avx2 = True, ho_os = Linux,
      ho_exists = (\<lambda>p. path_components p \<in> {(True, [''usr'', ''bin'', ''ollama'']),
        (True, [''usr'', ''local'', ''bin''])}),
      ho_read_dir = (\<lambda>_. None), ho_lowercase = (\<lambda>s. s), ho_path = Some ''/usr/bin:/bin'',
      ho_sysctl = None, ho_meminfo = None, ho_gpu_secs = None, ho_nvme_secs = None,
      ho_mem_joined = True, ho_apps_joined = True, ho_round = Fin\<rparr>"

lemma demo_host_exists: "exists_by_components demo_host"
  by (simp add: exists_by_components_def demo_host_def)

lemma demo_host_dirs: "''/usr/bin'' \<in> tool_dirs demo_host"
  by (simp add: tool_dirs_def demo_host_def)

lemma demo_host_ollama: "ho_exists demo_host (path_join ''/usr/bin'' ''ollama'')"
  by (simp add: demo_host_def path_join_def path_components_def starts_with_def)

theorem tool_discovery_exact_witness: "''ollama'' \<in> set (discovered_apps demo_host)"
proof -
  have j: "ho_apps_joined demo_host" by (simp add: demo_host_def)
  have "(''ollama'', ''ollama'') \<in> set KNOWN_CLI_TOOLS" by (simp add: KNOWN_CLI_TOOLS_def)
  with demo_host_dirs demo_host_ollama tool_discovery_exact [OF demo_host_exists j]
  show ?thesis by blast
qed

end
