(* ===== verification/Worker.thy ===== *)
theory Worker
  imports Scout Auth
begin

text \<open>
  The worker side of a node (\<open>NngClient\<close> and the executors of
  \<open>host-background-agent/src/transport/mod.rs\<close>): the handshake with its back-off, the profile
  sent to the hub, the task loop, the probing of capabilities and the execution of tasks.
  Child processes, files, sockets and random numbers are parameters; log lines are left out,
  except that the line with the start of an Ollama prompt slices the prompt, which can panic
  when that log level is on.
\<close>

record proc_output =
  po_success :: bool
  po_status :: string
  po_stdout :: bytes
  po_stderr :: bytes

text \<open>\<open>we_run path cmd args stdin\<close>: starting the command fails, or waiting for it fails, or it
  ends with an output. \<open>we_upper\<close> upper-cases a non-ASCII character.\<close>

record ('sk, 'vk, 'sg) worker_env =
  we_codecs :: codecs
  we_crypto :: "('sk, 'vk, 'sg) crypto"
  we_run :: "string \<Rightarrow> string \<Rightarrow> string list \<Rightarrow> bytes \<Rightarrow> string + (string + proc_output)"
  we_exists :: "string \<Rightarrow> bool"
  we_path :: "string option"
  we_upper :: "string \<Rightarrow> string"
  we_log_info :: bool
  we_joined :: bool

subsection \<open>Probing a capability\<close>

definition enriched_path :: "('sk, 'vk, 'sg) worker_env \<Rightarrow> string" where
  "enriched_path w =
     ''/opt/homebrew/bin:/opt/homebrew/sbin:/usr/local/bin:/usr/local/sbin:'' @
     (case we_path w of Some p \<Rightarrow> p | None \<Rightarrow> [])"

text \<open>\<open>Command::output()\<close>: one error for starting and waiting.\<close>

definition command_output ::
    "('sk, 'vk, 'sg) worker_env \<Rightarrow> string \<Rightarrow> string list \<Rightarrow> string + proc_output" where
  "command_output w cmd args =
     (case we_run w (enriched_path w) cmd args [] of Inl e \<Rightarrow> Inl e | Inr r \<Rightarrow> r)"

definition first_line :: "string \<Rightarrow> string" where
  "first_line s = (case lines_of s of [] \<Rightarrow> [] | l # _ \<Rightarrow> l)"

definition run_probe :: "('sk, 'vk, 'sg) worker_env \<Rightarrow> string \<Rightarrow> string list \<Rightarrow> bool \<times> string" where
  "run_probe w cmd args =
     (case command_output w cmd args of
        Inr out \<Rightarrow> (po_success out,
          if po_success out then first_line (from_utf8_lossy (po_stdout out))
          else ''exit '' @ po_status out)
      | Inl e \<Rightarrow> (False, ''not found: '' @ e))"

definition ascii_upper :: "char \<Rightarrow> char" where
  "ascii_upper c = (let n = of_char c :: nat in if 97 \<le> n \<and> n \<le> 122 then char_of (n - 32) else c)"

text \<open>The first character of a word, as its UTF-8 bytes, in upper case.\<close>

definition capitalize :: "('sk, 'vk, 'sg) worker_env \<Rightarrow> string \<Rightarrow> string" where
  "capitalize w s =
     (if s = [] then []
      else (let n = snd (utf8_head (as_bytes s)) in
            (if n = 1 then [ascii_upper (hd s)] else we_upper w (take n s)) @ drop n s))"

definition title_case :: "('sk, 'vk, 'sg) worker_env \<Rightarrow> string \<Rightarrow> string" where
  "title_case w app = join_with '' '' (map (capitalize w) (split_on (CHR ''_'') app))"

definition probe :: "('sk, 'vk, 'sg) worker_env \<Rightarrow> string \<Rightarrow> bool \<times> string" where
  "probe w cap =
     (if cap = ''ffmpeg_execution'' then run_probe w ''ffmpeg'' [''-version'']
      else if cap = ''blender_execution'' then
        (let (ok, out) = run_probe w ''blender'' [''--version''] in
         if ok then (ok, out)
         else run_probe w ''/Applications/Blender.app/Contents/MacOS/Blender'' [''--version''])
      else if cap = ''handbrake_execution'' then
        (let (ok, out) = run_probe w ''HandBrakeCLI'' [''--version''] in
         if ok then (ok, out)
         else (let there = we_exists w ''/Applications/HandBrake.app'' in
               (there, if there then ''HandBrake.app bundle present'' else ''not found'')))
      else if cap = ''inkscape_execution'' then run_probe w ''inkscape'' [''--version'']
      else if cap = ''claude_execution'' then run_probe w ''claude'' [''--version'']
      else
        (let app = (case strip_suffix cap ''_execution'' of Some a \<Rightarrow> a | None \<Rightarrow> cap);
             title = title_case w app;
             there = we_exists w (''/Applications/'' @ title @ ''.app'')
         in (there,
             if there then title @ ''.app bundle present''
             else ''no executor registered for '' @ [CHR 0x27] @ cap @ [CHR 0x27])))"

subsection \<open>Progress reports\<close>

definition progress_msg ::
    "string \<Rightarrow> task_status \<Rightarrow> fp \<Rightarrow> bytes \<Rightarrow> string \<Rightarrow> string \<Rightarrow> task_progress" where
  "progress_msg task_id status pct checkpoint err result_text =
     \<lparr>tp_task_id = task_id, tp_status = status_i32 status, tp_progress_percentage = pct,
      tp_checkpoint_data = checkpoint, tp_error_message = err, tp_result_text = result_text\<rparr>"

text \<open>\<open>send_progress\<close>: the frame handed to the socket, whose result is ignored.\<close>

definition send_progress :: "('sk, 'vk, 'sg) worker_env \<Rightarrow> task_progress \<Rightarrow> bytes" where
  "send_progress w msg = frame_msg 7 (c_progress (we_codecs w)) msg"

subsection \<open>Ollama\<close>

fun first_model :: "string list \<Rightarrow> string option" where
  "first_model [] = None"
| "first_model (line # rest) =
     (case split_whitespace line of
        [] \<Rightarrow> first_model rest
      | name # _ \<Rightarrow> if name = [] then first_model rest else Some name)"

definition first_ollama_model :: "('sk, 'vk, 'sg) worker_env \<Rightarrow> string option" where
  "first_ollama_model w =
     (case command_output w ''ollama'' [''list''] of
        Inl _ \<Rightarrow> None
      | Inr out \<Rightarrow> first_model (drop 1 (lines_of (from_utf8_lossy (po_stdout out)))))"

definition run_ollama :: "('sk, 'vk, 'sg) worker_env \<Rightarrow> string \<Rightarrow> string \<Rightarrow> string + string" where
  "run_ollama w model prompt =
     (case we_run w (enriched_path w) ''ollama'' [''run'', model] (as_bytes prompt) of
        Inl e \<Rightarrow> Inl (''Failed to start ollama: '' @ e)
      | Inr (Inl e) \<Rightarrow> Inl (''Ollama wait failed: '' @ e)
      | Inr (Inr out) \<Rightarrow>
          if \<not> po_success out then
            (let stderr = trim (from_utf8_lossy (po_stderr out)) in
             Inl (if stderr = [] then ''ollama exited with status '' @ po_status out else stderr))
          else Inr (trim (from_utf8_lossy (po_stdout out))))"

text \<open>The reports sent and whether the execution returns or panics.\<close>

definition execute_ollama_task ::
    "('sk, 'vk, 'sg) worker_env \<Rightarrow> task_definition \<Rightarrow> task_progress list \<times> unit outcome" where
  "execute_ollama_task w t =
     (let prompt = from_utf8_lossy (td_payload t); i = td_task_id t in
      if trim prompt = [] then
        ([progress_msg i FAILED (Fin 0) [] ''empty prompt'' []], Returns ())
      else if we_log_info w \<and> str_upto prompt (min (length prompt) 80) = Panics then ([], Panics)
      else
        ([progress_msg i RUNNING (Fin 10) [] [] [],
          (if \<not> we_joined w then progress_msg i FAILED (Fin 0) [] ''internal error'' []
           else
             (case run_ollama w
                     (case first_ollama_model w of Some m \<Rightarrow> m | None \<Rightarrow> ''llama3.2:1b'') prompt of
                Inr response \<Rightarrow> progress_msg i COMPLETED (Fin 100) [] [] response
              | Inl e \<Rightarrow> progress_msg i FAILED (Fin 0) [] e []))],
         Returns ()))"

subsection \<open>Executing a task\<close>

text \<open>The nearest \<open>f32\<close> numbers to 33.3 and 66.6.\<close>

definition pct_third :: fp where "pct_third = Fin (8729395 / 262144)"
definition pct_two_thirds :: fp where "pct_two_thirds = Fin (8729395 / 131072)"

definition execute_task ::
    "('sk, 'vk, 'sg) worker_env \<Rightarrow> task_definition \<Rightarrow> task_progress list \<times> unit outcome" where
  "execute_task w t =
     (let i = td_task_id t in
      if \<not> list_all (\<lambda>cap. fst (probe w cap)) (td_required_capabilities t) then
        ([progress_msg i FAILED (Fin 0) [] ''capability requirements unmet on this node'' []],
         Returns ())
      else if (case td_required_capabilities t of c # _ \<Rightarrow> c | [] \<Rightarrow> []) = ''ollama_execution''
      then execute_ollama_task w t
      else
        ([progress_msg i RUNNING pct_third
            (if td_category t = category_i32 STATEFUL_LONG_RUNNING then [88, 99, 111, 222] else [])
            [] [],
          progress_msg i RUNNING pct_two_thirds [] [] [],
          progress_msg i COMPLETED (Fin 100) [] [] []],
         Returns ()))"

text \<open>One turn of the task loop: what it sends, and whether the loop goes on, ends with an error
  or panics.\<close>

datatype loop_end = GoOn | Broke string | LoopPanics

definition task_turn ::
    "('sk, 'vk, 'sg) worker_env \<Rightarrow> string + bytes option \<Rightarrow> bytes list \<times> loop_end" where
  "task_turn w received =
     (case received of
        Inl e \<Rightarrow> ([], Broke e)
      | Inr None \<Rightarrow> ([], GoOn)
      | Inr (Some s) \<Rightarrow>
        (case read_body 6 s of
           Panics \<Rightarrow> ([], LoopPanics)
         | Returns None \<Rightarrow> ([], GoOn)
         | Returns (Some body) \<Rightarrow>
           (case cd_decode (c_task (we_codecs w)) body of
              Inl _ \<Rightarrow> ([], GoOn)
            | Inr t \<Rightarrow>
              (case execute_task w t of
                 (ps, Returns _) \<Rightarrow> (map (send_progress w) ps, GoOn)
               | (ps, Panics) \<Rightarrow> (map (send_progress w) ps, LoopPanics)))))"

subsection \<open>The handshake\<close>

record 'sk nng_client =
  nc_auth_endpoint :: string
  nc_task_endpoint :: string
  nc_heartbeat_endpoint :: string
  nc_progress_endpoint :: string
  nc_node_id :: string
  nc_secure_element :: "'sk secure_element"

definition nng_client_new ::
    "('sk, 'vk, 'sg) crypto \<Rightarrow> (string + bytes) option \<Rightarrow> 'sk \<Rightarrow> string \<Rightarrow> string \<Rightarrow> string \<Rightarrow>
     string \<Rightarrow> string \<Rightarrow> ('sk nng_client \<times> bytes option) outcome" where
  "nng_client_new cr key_file fresh auth task heartbeat progress node_id =
     and_then (secure_element_new cr key_file fresh)
       (\<lambda>(se, written). Returns
          (\<lparr>nc_auth_endpoint = auth, nc_task_endpoint = task, nc_heartbeat_endpoint = heartbeat,
            nc_progress_endpoint = progress, nc_node_id = node_id, nc_secure_element = se\<rparr>, written))"

definition join_frame :: "'sk nng_client \<Rightarrow> bytes" where
  "join_frame c = build_frame 1 (as_bytes (nc_node_id c))"

definition response_msg ::
    "('sk, 'vk, 'sg) worker_env \<Rightarrow> 'sk nng_client \<Rightarrow> bytes \<Rightarrow> bytes \<Rightarrow> bytes \<Rightarrow> handshake_response" where
  "response_msg w c pk thumbprint token =
     \<lparr>hr_signature = sign_challenge (we_crypto w) (nc_secure_element c) token,
      hr_identity = Some \<lparr>hi_node_uuid = nc_node_id c, hi_ecdsa_public_key = pk,
        hi_static_thumbprint = thumbprint\<rparr>\<rparr>"

text \<open>Reading a reply of the expected type: an error, a panic on a truncated frame, or the
  decoded message.\<close>

definition read_reply :: "u8 \<Rightarrow> string \<Rightarrow> string \<Rightarrow> string \<Rightarrow> 'm codec \<Rightarrow> bytes \<Rightarrow> (string + 'm) outcome" where
  "read_reply t too_short expected decode_err c r =
     (if length r < 5 then Returns (Inl too_short)
      else if r ! 4 \<noteq> t then Returns (Inl (expected @ show_nat (unat (r ! 4))))
      else (case slice r 5 (5 + frame_len r) of
              Panics \<Rightarrow> Panics
            | Returns body \<Rightarrow>
                (case cd_decode c body of
                   Inl e \<Rightarrow> Returns (Inl (decode_err @ e))
                 | Inr m \<Rightarrow> Returns (Inr m))))"

text \<open>The calls of one attempt, each with its result: opening the socket, the two sends and the
  two receives. The receives may depend on what was sent.\<close>

record attempt_io =
  ai_open :: "string + unit"
  ai_send_join :: "string + unit"
  ai_recv_challenge :: "bytes \<Rightarrow> string + bytes"
  ai_send_response :: "string + unit"
  ai_recv_result :: "bytes \<Rightarrow> bytes \<Rightarrow> string + bytes"

definition response_frame ::
    "('sk, 'vk, 'sg) worker_env \<Rightarrow> 'sk nng_client \<Rightarrow> bytes \<Rightarrow> bytes \<Rightarrow> handshake_challenge \<Rightarrow> bytes" where
  "response_frame w c pk thumbprint ch =
     frame_msg 3 (c_response (we_codecs w))
       (response_msg w c pk thumbprint (hc_high_entropy_token ch))"

definition accept_result :: "handshake_result \<Rightarrow> string + handshake_result" where
  "accept_result r =
     (if hs_authenticated r then Inr r else Inl (''Auth failed: '' @ hs_message r))"

definition execute_handshake_attempt ::
    "('sk, 'vk, 'sg) worker_env \<Rightarrow> 'sk nng_client \<Rightarrow> bytes \<Rightarrow> bytes \<Rightarrow> attempt_io \<Rightarrow>
     (string + handshake_result) outcome" where
  "execute_handshake_attempt w c pk thumbprint io =
     (case ai_open io of Inl e \<Rightarrow> Returns (Inl e) | Inr _ \<Rightarrow>
      (case ai_send_join io of Inl e \<Rightarrow> Returns (Inl e) | Inr _ \<Rightarrow>
       (case ai_recv_challenge io (join_frame c) of Inl e \<Rightarrow> Returns (Inl e) | Inr r \<Rightarrow>
        and_then (read_reply 2 ''Invalid frame'' ''Expected challenge (2), got ''
                    ''Decode challenge: '' (c_challenge (we_codecs w)) r) (\<lambda>x.
        case x of Inl e \<Rightarrow> Returns (Inl e) | Inr ch \<Rightarrow>
        (let resp = response_frame w c pk thumbprint ch in
         case ai_send_response io of Inl e \<Rightarrow> Returns (Inl e) | Inr _ \<Rightarrow>
         (case ai_recv_result io (join_frame c) resp of Inl e \<Rightarrow> Returns (Inl e) | Inr rs \<Rightarrow>
          and_then (read_reply 4 ''Invalid result frame'' ''Expected result (4), got ''
                      ''Decode result: '' (c_result (we_codecs w)) rs) (\<lambda>y.
          case y of Inl e \<Rightarrow> Returns (Inl e) | Inr result \<Rightarrow>
            Returns (accept_result result))))))))"

subsection \<open>Back-off and life cycle\<close>

text \<open>\<open>x * 1.5\<close>.\<close>

fun one_and_half :: "rounding \<Rightarrow> fp \<Rightarrow> fp" where
  "one_and_half rnd (Fin a) = fp_mul_fin rnd a (3 / 2)"
| "one_and_half rnd x = x"

definition sleep_secs :: "rounding \<Rightarrow> fp \<Rightarrow> real \<Rightarrow> fp" where
  "sleep_secs rnd backoff jitter =
     fp_add rnd (fp_min (Fin 30) (one_and_half rnd backoff)) (Fin jitter)"

text \<open>\<open>Duration::from_secs_f64\<close> panics on what is negative, not a number or too large.\<close>

definition duration_ok :: "fp \<Rightarrow> bool" where
  "duration_ok s \<longleftrightarrow> Fin 0 \<le> s \<and> s < Fin (2 ^ 64)"

text \<open>The handshake loop over the results of its attempts, each with the jitter drawn after it:
  the sleeps, and the result that ends the loop (\<open>None\<close>: still trying). The attempt counter is
  only logged.\<close>

fun handshake_loop ::
    "rounding \<Rightarrow> fp \<Rightarrow> ((string + 'r) outcome \<times> real) list \<Rightarrow> fp list \<times> 'r option outcome" where
  "handshake_loop rnd backoff [] = ([], Returns None)"
| "handshake_loop rnd backoff ((Panics, _) # _) = ([], Panics)"
| "handshake_loop rnd backoff ((Returns (Inr r), _) # _) = ([], Returns (Some r))"
| "handshake_loop rnd backoff ((Returns (Inl _), jitter) # rest) =
     (let s = sleep_secs rnd backoff jitter in
      if \<not> duration_ok s then ([], Panics)
      else (case handshake_loop rnd s rest of (ss, r) \<Rightarrow> (s # ss, r)))"

text \<open>The socket calls after the handshake, in order.\<close>

record lifecycle_io =
  li_push_open :: "string + unit"
  li_push_dial :: "string + unit"
  li_push_send :: "string + unit"
  li_pull_open :: "string + unit"
  li_pull_timeout :: "string + unit"
  li_pull_dial :: "string + unit"

definition profile_msg ::
    "'sk nng_client \<Rightarrow> string \<Rightarrow> u64 \<Rightarrow> device_capability list \<Rightarrow> capability_profile" where
  "profile_msg c os now_secs caps =
     \<lparr>cp_node_id = nc_node_id c, cp_os_platform = os, cp_capabilities = caps,
      cp_updated_timestamp = now_secs\<rparr>"

fun try_all :: "(string + unit) list \<Rightarrow> string + unit" where
  "try_all [] = Inr ()"
| "try_all (Inl e # _) = Inl e"
| "try_all (Inr _ # rest) = try_all rest"

text \<open>\<open>run_demo_lifecycle\<close>: the sleeps, and either still trying, a panic, an error, or the profile
  frame it has sent (its task loop then runs in the background).\<close>

definition run_demo_lifecycle ::
    "('sk, 'vk, 'sg) worker_env \<Rightarrow> 'sk nng_client \<Rightarrow> rounding \<Rightarrow> (attempt_io \<times> real) list \<Rightarrow>
     lifecycle_io \<Rightarrow> string \<Rightarrow> u64 \<Rightarrow> device_capability list \<Rightarrow>
     fp list \<times> (string + bytes) option outcome" where
  "run_demo_lifecycle w c rnd attempts io os now_secs caps =
     (let pk = get_public_key (we_crypto w) (nc_secure_element c);
          thumbprint = get_static_thumbprint (we_crypto w) (nc_secure_element c);
          (sleeps, r) = handshake_loop rnd (Fin 1)
            (map (\<lambda>(a, j). (execute_handshake_attempt w c pk thumbprint a, j)) attempts)
      in (sleeps,
          and_then r (\<lambda>x. case x of
              None \<Rightarrow> Returns None
            | Some _ \<Rightarrow> Returns (Some
                (case try_all [li_push_open io, li_push_dial io, li_push_send io,
                     li_pull_open io, li_pull_timeout io, li_pull_dial io] of
                   Inl e \<Rightarrow> Inl e
                 | Inr _ \<Rightarrow> Inr (frame_msg 5 (c_profile (we_codecs w))
                     (profile_msg c os now_secs caps)))))))"

subsection \<open>Back-off lemmas\<close>

lemma three_halves_exact:
  assumes "ieee_rounding rnd" and "k \<le> 8"
  shows "rnd ((3 / 2) ^ k) = Fin ((3 / 2) ^ k)"
proof -
  have "(3::int) ^ k \<le> 3 ^ 8" using assms(2) by (rule power_increasing) simp
  then have "\<bar>(3::int) ^ k\<bar> \<le> 3 ^ 8" by (simp only: abs_of_nonneg zero_le_power zero_le_numeral)
  also have "\<dots> \<le> 2 ^ 53" by simp
  finally show ?thesis
    using ieee_exact [OF assms(1), of "3 ^ k" k] assms(2) by (simp add: power_divide)
qed

definition floor_secs :: "nat \<Rightarrow> real" where
  "floor_secs k = min 30 ((3 / 2) ^ k)"

lemma floor_secs_exact: "ieee_rounding rnd \<Longrightarrow> rnd (floor_secs k) = Fin (floor_secs k)"
proof (cases "k \<le> 8")
  case True
  assume rnd: "ieee_rounding rnd"
  have "(3 / 2 :: real) ^ k \<le> (3 / 2) ^ 8" using True by (intro power_increasing) simp_all
  also have "\<dots> \<le> 30" by (simp add: power_divide)
  finally show ?thesis using three_halves_exact [OF rnd True] by (simp add: floor_secs_def min_def)
next
  case False
  assume rnd: "ieee_rounding rnd"
  have "(30 :: real) \<le> (3 / 2) ^ 9" by (simp add: power_divide)
  also have "\<dots> \<le> (3 / 2) ^ k" using False by (intro power_increasing) simp_all
  finally show ?thesis using ieee_exact_int [OF rnd, of 30] by (simp add: floor_secs_def min_def)
qed

lemma floor_secs_step: "floor_secs k \<le> b \<Longrightarrow> floor_secs (Suc k) \<le> min 30 (b * (3 / 2))"
  by (auto simp: floor_secs_def min_def split: if_splits)

lemma floor_secs_bounds: "floor_secs k \<le> 30" "1 \<le> floor_secs k"
  by (simp_all add: floor_secs_def)

lemma sleep_secs_bounds:
  assumes "ieee_rounding rnd" and "floor_secs k \<le> b" and "0 \<le> j" and "j \<le> 1" and "b \<le> 31"
  shows "\<exists>r. sleep_secs rnd (Fin b) j = Fin r \<and> floor_secs (Suc k) \<le> r \<and> r \<le> 31"
proof -
  have e: "rnd 30 = Fin 30" "rnd 31 = Fin 31" "rnd 47 = Fin 47"
    using ieee_exact_int [OF assms(1), of 30] ieee_exact_int [OF assms(1), of 31]
      ieee_exact_int [OF assms(1), of 47] by simp_all
  note f = floor_secs_exact [OF assms(1), of "Suc k"]
  have step: "floor_secs (Suc k) \<le> min 30 (b * (3 / 2))" by (rule floor_secs_step [OF assms(2)])
  then have "floor_secs (Suc k) \<le> b * (3 / 2)" "b * (3 / 2) \<le> 47" using assms(5) by simp_all
  from ieee_between [OF assms(1) f e(3) this] obtain x where
    x: "rnd (b * (3 / 2)) = Fin x" "floor_secs (Suc k) \<le> x" by blast
  let ?m = "min 30 x"
  have m: "fp_min (Fin 30) (one_and_half rnd (Fin b)) = Fin ?m"
    unfolding one_and_half.simps fp_mul_fin_def x(1) by (simp add: fp_min_def min_def)
  have "floor_secs (Suc k) \<le> ?m + j" and "?m + j \<le> 31"
    using x(2) floor_secs_bounds(1) [of "Suc k"] assms(3,4) by (simp_all add: min_def)
  from ieee_between [OF assms(1) f e(2) this] show ?thesis
    unfolding sleep_secs_def m by simp
qed

lemma handshake_loop_sleeps:
  assumes "ieee_rounding rnd" and "floor_secs k \<le> b" and "b \<le> 31"
    and "\<forall>(r, j)\<in>set as. 0 \<le> j \<and> j \<le> 1 \<and> r \<noteq> Panics"
  shows "snd (handshake_loop rnd (Fin b) as) \<noteq> Panics \<and>
    (\<forall>i<length (fst (handshake_loop rnd (Fin b) as)).
       \<exists>s. fst (handshake_loop rnd (Fin b) as) ! i = Fin s \<and> floor_secs (k + Suc i) \<le> s \<and> s \<le> 31)"
  using assms(2-4)
proof (induction as arbitrary: b k)
  case Nil
  then show ?case by simp
next
  case (Cons a as)
  obtain r j where a: "a = (r, j)" by fastforce
  from Cons.prems a have j: "0 \<le> j" "j \<le> 1" "r \<noteq> Panics" by simp_all
  show ?case
  proof (cases "\<exists>e. r = Returns (Inl e)")
    case False
    with j(3) obtain y where "r = Returns (Inr y)" by (metis outcome.exhaust sum.exhaust)
    then show ?thesis by (simp add: a)
  next
    case True
    then obtain e where r: "r = Returns (Inl e)" by blast
    obtain s where s: "sleep_secs rnd (Fin b) j = Fin s" "floor_secs (Suc k) \<le> s" "s \<le> 31"
      using sleep_secs_bounds [OF assms(1) Cons.prems(1) j(1,2) Cons.prems(2)] by blast
    have "0 \<le> s" using s(2) floor_secs_bounds(2) [of "Suc k"] by linarith
    with s(3) have ok: "duration_ok (Fin s)" by (simp add: duration_ok_def)
    obtain ss x where l: "handshake_loop rnd (Fin s) as = (ss, x)" by fastforce
    from Cons.IH [OF s(2,3)] Cons.prems(3) have ih:
      "x \<noteq> Panics" "\<forall>i<length ss. \<exists>t. ss ! i = Fin t \<and> floor_secs (Suc k + Suc i) \<le> t \<and> t \<le> 31"
      by (simp_all add: l)
    have "handshake_loop rnd (Fin b) (a # as) = (Fin s # ss, x)"
      by (simp add: a r s(1) ok l)
    with s ih show ?thesis by (auto simp: nth_Cons split: nat.split)
  qed
qed

end
