(* ===== verification/WorkerProperties.thy ===== *)
theory WorkerProperties
  imports Worker
begin

text \<open>
  What a worker guarantees: the bounds of its handshake back-off, the form of the reports of
  every execution, and the exact condition under which an execution panics.
\<close>

definition demo_worker :: "codecs \<Rightarrow> (u8, u8, bytes) worker_env" where
  "demo_worker cs =
     \<lparr>we_codecs = cs, we_crypto = demo_crypto, we_run = (\<lambda>_ _ _ _. Inl ''no such file''),
      we_exists = (\<lambda>p. p = ''/Applications/Ollama.app''), we_path = None, we_upper = (\<lambda>s. s),
      we_log_info = True, we_joined = True\<rparr>"

subsection \<open>Probing\<close>

lemma probe_bundle:
  assumes "cap \<notin> {''ffmpeg_execution'', ''blender_execution'', ''handbrake_execution'',
    ''inkscape_execution'', ''claude_execution''}"
  shows "fst (probe w cap) \<longleftrightarrow> we_exists w (''/Applications/'' @
    title_case w (case strip_suffix cap ''_execution'' of Some a \<Rightarrow> a | None \<Rightarrow> cap) @ ''.app'')"
  using assms by (simp add: probe_def Let_def)

lemma probe_tool:
  assumes "name \<notin> {''ffmpeg'', ''blender'', ''handbrake'', ''inkscape'', ''claude''}"
  shows "fst (probe w (name @ ''_execution'')) \<longleftrightarrow>
    we_exists w (''/Applications/'' @ title_case w name @ ''.app'')"
proof -
  have "name @ ''_execution'' \<notin> (\<lambda>n. n @ ''_execution'') ` {''ffmpeg'', ''blender'', ''handbrake'',
      ''inkscape'', ''claude''}" using assms by auto
  then have n: "name @ ''_execution'' \<notin> {''ffmpeg_execution'', ''blender_execution'',
      ''handbrake_execution'', ''inkscape_execution'', ''claude_execution''}" by simp
  show ?thesis unfolding probe_bundle [OF n] strip_suffix_append by simp
qed

subsection \<open>Reports\<close>

lemma progress_msg_simps [simp]:
  "tp_task_id (progress_msg i st pct c e r) = i" "tp_status (progress_msg i st pct c e r) = status_i32 st"
  "tp_progress_percentage (progress_msg i st pct c e r) = pct"
  "tp_checkpoint_data (progress_msg i st pct c e r) = c"
  "tp_error_message (progress_msg i st pct c e r) = e" "tp_result_text (progress_msg i st pct c e r) = r"
  by (simp_all add: progress_msg_def)

lemma run_ollama_error: "run_ollama w m p = Inl e \<Longrightarrow> e \<noteq> []"
  by (auto simp: run_ollama_def Let_def split: sum.splits if_splits)

text \<open>Running reports, then one final report: success, or failure with a reason.\<close>

definition ends_well :: "string \<Rightarrow> task_progress list \<Rightarrow> bool" where
  "ends_well i ps \<longleftrightarrow> (\<exists>rs f. ps = rs @ [f] \<and> (\<forall>p\<in>set ps. tp_task_id p = i) \<and>
     (\<forall>p\<in>set rs. tp_status p = status_i32 RUNNING \<and> tp_error_message p = []) \<and>
     (tp_status f = status_i32 COMPLETED \<and> tp_progress_percentage f = Fin 100 \<and>
        tp_error_message f = [] \<and> sorted_wrt (\<le>) (map tp_progress_percentage ps) \<or>
      tp_status f = status_i32 FAILED \<and> tp_error_message f \<noteq> []))"

lemma ends_wellI:
  assumes "\<forall>p\<in>set (rs @ [f]). tp_task_id p = i"
    and "\<forall>p\<in>set rs. tp_status p = status_i32 RUNNING \<and> tp_error_message p = []"
    and "tp_status f = status_i32 COMPLETED \<and> tp_progress_percentage f = Fin 100 \<and>
        tp_error_message f = [] \<and> sorted_wrt (\<le>) (map tp_progress_percentage (rs @ [f])) \<or>
      tp_status f = status_i32 FAILED \<and> tp_error_message f \<noteq> []"
  shows "ends_well i (rs @ [f])"
  unfolding ends_well_def using assms by blast

lemma ollama_ends_well:
  assumes "execute_ollama_task w t = (ps, Returns ())"
  shows "ends_well (td_task_id t) ps"
proof -
  let ?i = "td_task_id t" and ?prompt = "from_utf8_lossy (td_payload t)"
  let ?m = "case first_ollama_model w of Some m \<Rightarrow> m | None \<Rightarrow> ''llama3.2:1b''"
  let ?run = "progress_msg ?i RUNNING (Fin 10) [] [] []"
  consider "ps = [] @ [progress_msg ?i FAILED (Fin 0) [] ''empty prompt'' []]"
    | "ps = [?run] @ [progress_msg ?i FAILED (Fin 0) [] ''internal error'' []]"
    | e where "ps = [?run] @ [progress_msg ?i FAILED (Fin 0) [] e []]" "run_ollama w ?m ?prompt = Inl e"
    | r where "ps = [?run] @ [progress_msg ?i COMPLETED (Fin 100) [] [] r]"
    using assms by (cases "run_ollama w ?m ?prompt")
      (auto simp: execute_ollama_task_def Let_def split: if_splits)
  then show ?thesis
  proof cases
    case 3
    with run_ollama_error have "e \<noteq> []" by blast
    with 3 show ?thesis by (simp only: 3(1)) (intro ends_wellI; simp)
  qed (simp only:, intro ends_wellI; simp)+
qed

lemma execute_task_cases:
  "\<not> list_all (\<lambda>cap. fst (probe w cap)) (td_required_capabilities t) \<Longrightarrow>
   execute_task w t = ([progress_msg (td_task_id t) FAILED (Fin 0) []
     ''capability requirements unmet on this node'' []], Returns ())"
  by (simp add: execute_task_def)

definition simulated_reports :: "task_definition \<Rightarrow> task_progress list" where
  "simulated_reports t =
     [progress_msg (td_task_id t) RUNNING pct_third
        (if td_category t = category_i32 STATEFUL_LONG_RUNNING then [88, 99, 111, 222] else []) [] [],
      progress_msg (td_task_id t) RUNNING pct_two_thirds [] [] [],
      progress_msg (td_task_id t) COMPLETED (Fin 100) [] [] []]"

definition first_required :: "task_definition \<Rightarrow> string" where
  "first_required t = (case td_required_capabilities t of c # _ \<Rightarrow> c | [] \<Rightarrow> [])"

lemma execute_task_capable:
  "list_all (\<lambda>cap. fst (probe w cap)) (td_required_capabilities t) \<Longrightarrow>
   execute_task w t = (if first_required t = ''ollama_execution'' then execute_ollama_task w t
     else (simulated_reports t, Returns ()))"
  by (simp add: execute_task_def simulated_reports_def first_required_def Let_def)

text \<open>An Ollama task this node answers with \<open>response\<close>: the prompt is not blank, the log line does
  not cut a character in two, and the program runs and exits with success.\<close>

definition ollama_answers ::
    "('sk, 'vk, 'sg) worker_env \<Rightarrow> task_definition \<Rightarrow> string \<Rightarrow> bool" where
  "ollama_answers w t response \<longleftrightarrow>
     (let prompt = from_utf8_lossy (td_payload t) in
      trim prompt \<noteq> [] \<and> (we_log_info w \<longrightarrow> str_upto prompt (min (length prompt) 80) \<noteq> Panics) \<and>
      we_joined w \<and>
      run_ollama w (case first_ollama_model w of Some m \<Rightarrow> m | None \<Rightarrow> ''llama3.2:1b'') prompt = Inr response)"

definition ollama_reports :: "task_definition \<Rightarrow> string \<Rightarrow> task_progress list" where
  "ollama_reports t response =
     [progress_msg (td_task_id t) RUNNING (Fin 10) [] [] [],
      progress_msg (td_task_id t) COMPLETED (Fin 100) [] [] response]"

lemma execute_ollama_answers:
  "ollama_answers w t response \<Longrightarrow> execute_ollama_task w t = (ollama_reports t response, Returns ())"
  by (auto simp: ollama_answers_def execute_ollama_task_def ollama_reports_def Let_def)

text \<open>The node a task is meant for plays no part in its execution.\<close>

lemma execute_ignores_target: "execute_task w (t\<lparr>td_module_target := n\<rparr>) = execute_task w t"
  unfolding execute_task_def execute_ollama_task_def Let_def by (simp split: sum.split)

lemma simulated_ends_well: "ends_well (td_task_id t) (simulated_reports t)"
proof -
  have "simulated_reports t = take 2 (simulated_reports t) @ [simulated_reports t ! 2]"
    by (simp add: simulated_reports_def)
  also have "ends_well (td_task_id t) \<dots>"
    by (rule ends_wellI) (simp_all add: simulated_reports_def pct_third_def pct_two_thirds_def)
  finally show ?thesis .
qed

lemma ollama_panics_iff:
  "snd (execute_ollama_task w t) = Panics \<longleftrightarrow>
     we_log_info w \<and> trim (from_utf8_lossy (td_payload t)) \<noteq> [] \<and>
     80 < length (from_utf8_lossy (td_payload t)) \<and>
     cont_byte (of_char (from_utf8_lossy (td_payload t) ! 80))"
  by (auto simp: execute_ollama_task_def Let_def str_upto_def min_def)

subsection \<open>Properties\<close>

text \<open>C25: The handshake back-off is safe and bounded for IEEE rounding and any jitter in [0, 1]:
  no sleep panics, the \<open>n\<close>-th sleep lasts at least \<open>1.5 ^ n\<close> seconds (30 at most) and none more
  than 31; so the first one already exceeds a second and the documented maximum of 30 can be
  exceeded by the jitter.\<close>

theorem backoff_bounds:
  assumes "ieee_rounding rnd" and "\<forall>(r, j)\<in>set attempts. 0 \<le> j \<and> j \<le> 1 \<and> r \<noteq> Panics"
  shows "snd (handshake_loop rnd (Fin 1) attempts) \<noteq> Panics \<and>
    (\<forall>i<length (fst (handshake_loop rnd (Fin 1) attempts)).
       \<exists>s. fst (handshake_loop rnd (Fin 1) attempts) ! i = Fin s \<and>
         min 30 ((3 / 2) ^ Suc i) \<le> s \<and> s \<le> 31)"
  using handshake_loop_sleeps [OF assms(1), of 0 1 attempts] assms(2)
  by (simp add: floor_secs_def)

theorem backoff_bounds_witness:
  "fst (handshake_loop Fin (Fin 1) [(Returns (Inl ''refused''), 1 / 2 :: real), (Returns (Inr ()), 0)]) = [Fin 2] \<and>
   snd (handshake_loop Fin (Fin 1) [(Returns (Inl ''refused''), 1 / 2 :: real), (Returns (Inr ()), 0)]) \<noteq> Panics"
proof -
  let ?as = "[(Returns (Inl ''refused''), 1 / 2 :: real), (Returns (Inr ()), 0)]"
  have "\<forall>(r, j)\<in>set ?as. 0 \<le> j \<and> j \<le> 1 \<and> r \<noteq> Panics" by simp
  from backoff_bounds [OF ieee_rounding_exact this] show ?thesis
    by (simp add: sleep_secs_def fp_mul_fin_def fp_min_def duration_ok_def)
qed

text \<open>C20: Every execution that returns reports well: reports of running stages, then exactly one
  final report, completed at 100 percent with non-decreasing percentages, or failed with a
  reason; all carry the task's id, and a task is completed only if the worker's probe accepted
  every capability it requires.\<close>

theorem reports_well_formed:
  assumes "execute_task w t = (ps, Returns ())"
  shows "(\<exists>rs f. ps = rs @ [f] \<and> (\<forall>p\<in>set ps. tp_task_id p = td_task_id t) \<and>
     (\<forall>p\<in>set rs. tp_status p = status_i32 RUNNING \<and> tp_error_message p = []) \<and>
     (tp_status f = status_i32 COMPLETED \<and> tp_progress_percentage f = Fin 100 \<and>
        tp_error_message f = [] \<and> sorted_wrt (\<le>) (map tp_progress_percentage ps) \<or>
      tp_status f = status_i32 FAILED \<and> tp_error_message f \<noteq> [])) \<and>
    ((\<exists>p\<in>set ps. tp_status p = status_i32 COMPLETED) \<longrightarrow>
       (\<forall>cap\<in>set (td_required_capabilities t). fst (probe w cap)))"
proof (cases "list_all (\<lambda>cap. fst (probe w cap)) (td_required_capabilities t)")
  case True
  then have "ends_well (td_task_id t) ps"
    using assms ollama_ends_well [of w t ps] simulated_ends_well [of t]
    by (auto simp: execute_task_capable split: if_splits)
  with True show ?thesis by (simp add: ends_well_def list_all_iff)
next
  case False
  with assms have ps: "ps = [] @ [progress_msg (td_task_id t) FAILED (Fin 0) []
      ''capability requirements unmet on this node'' []]"
    by (simp add: execute_task_cases)
  have "ends_well (td_task_id t) ps" unfolding ps by (rule ends_wellI) simp_all
  moreover have "\<not> (\<exists>p\<in>set ps. tp_status p = status_i32 COMPLETED)" by (simp add: ps)
  ultimately show ?thesis unfolding ends_well_def by blast
qed

definition demo_definition :: "string list \<Rightarrow> bytes \<Rightarrow> task_definition" where
  "demo_definition req payload =
     \<lparr>td_task_id = ''t'', td_category = 1, td_module_target = ''n1'', td_payload = payload,
      td_max_retries = 3, td_timeout_ms = 10000, td_required_capabilities = req\<rparr>"

theorem reports_well_formed_witness:
  "\<exists>rs f. simulated_reports (demo_definition [] []) = rs @ [f] \<and> tp_task_id f = ''t''"
proof -
  have "execute_task (demo_worker cs) (demo_definition [] []) =
      (simulated_reports (demo_definition [] []), Returns ())" for cs
    by (simp add: execute_task_capable demo_definition_def first_required_def)
  from reports_well_formed [OF this] show ?thesis by (auto simp: demo_definition_def)
qed

text \<open>The only panic of an execution, and its exact condition: the task is an Ollama task
  this node accepts, its prompt is not blank and longer than 80 bytes, byte 80 lies inside a
  multi-byte character, and the log line is on. Then no report at all is sent.\<close>

theorem execution_panics_iff:
  "(snd (execute_task w t) = Panics \<longleftrightarrow>
      (\<forall>cap\<in>set (td_required_capabilities t). fst (probe w cap)) \<and>
      first_required t = ''ollama_execution'' \<and> we_log_info w \<and>
      trim (from_utf8_lossy (td_payload t)) \<noteq> [] \<and>
      80 < length (from_utf8_lossy (td_payload t)) \<and>
      cont_byte (of_char (from_utf8_lossy (td_payload t) ! 80))) \<and>
   (snd (execute_task w t) = Panics \<longrightarrow> fst (execute_task w t) = [])"
proof (cases "list_all (\<lambda>cap. fst (probe w cap)) (td_required_capabilities t)")
  case True
  moreover have "snd (execute_ollama_task w t) = Panics \<longrightarrow> fst (execute_ollama_task w t) = []"
    by (simp add: execute_ollama_task_def Let_def)
  ultimately show ?thesis
    by (simp add: execute_task_capable ollama_panics_iff list_all_iff)
next
  case False
  then show ?thesis by (auto simp: execute_task_cases list_all_iff)
qed

definition long_prompt :: bytes where
  "long_prompt = replicate 79 0x61 @ [0xC3, 0xA9, 0x61]"

lemma long_prompt_text: "from_utf8_lossy long_prompt = bytes_string long_prompt"
proof -
  have "utf8_valid [0xC3, 0xA9, 0x61]"
    by (simp add: utf8_valid.simps(2) utf8_head_def byte_at_def cont_byte_def)
  then have "utf8_valid long_prompt"
    unfolding long_prompt_def by (intro utf8_valid_append [OF utf8_valid_ascii]) simp_all
  then show ?thesis by (simp add: from_utf8_lossy_def utf8_lossy_valid_id)
qed

lemma long_prompt_simps:
  "length (bytes_string long_prompt) = 82" "trim (bytes_string long_prompt) \<noteq> []"
  "cont_byte (of_char (bytes_string long_prompt ! 80))"
proof -
  have r: "bytes_string long_prompt = replicate 79 (CHR ''a'') @ [CHR 0xC3, CHR 0xA9, CHR ''a'']"
    by (simp add: bytes_string_def long_prompt_def char_of_eq_iff take_bit_eq_mod)
  have "trim (bytes_string long_prompt) = bytes_string long_prompt"
    by (rule trim_graphic) (simp_all add: r graphic_def)
  then show "trim (bytes_string long_prompt) \<noteq> []" by (simp add: r)
  show "length (bytes_string long_prompt) = 82" by (simp add: r)
  show "cont_byte (of_char (bytes_string long_prompt ! 80))"
    by (simp add: r nth_append cont_byte_def)
qed

theorem execution_panics_iff_witness:
  "execute_task (demo_worker demo_codecs) (demo_definition [''ollama_execution''] long_prompt) = ([], Panics)"
proof -
  have "fst (probe (demo_worker demo_codecs) (''ollama'' @ ''_execution''))"
    by (subst probe_tool)
      (simp_all add: demo_worker_def title_case_def capitalize_def ascii_upper_def utf8_head_def
        byte_at_def as_bytes_def char_of_eq_iff take_bit_eq_mod)
  then have "fst (probe (demo_worker demo_codecs) ''ollama_execution'')" by simp
  then show ?thesis
    using execution_panics_iff [of "demo_worker demo_codecs" "demo_definition [''ollama_execution''] long_prompt"]
    by (simp add: demo_definition_def first_required_def long_prompt_text long_prompt_simps
        prod_eq_iff) (simp add: demo_worker_def)
qed

end
