(* ===== verification/Election.thy ===== *)
theory Election
  imports RustStr
begin

text \<open>
  Leader election (\<open>host-background-agent/src/election/mod.rs\<close>): each node keeps the peers it
  has heard of over mDNS, with the time of the last message, and leads when no live peer has
  a smaller id. Ids are compared as Rust compares strings, byte by byte. An \<open>Instant\<close> is the
  number of nanoseconds of the monotonic clock; \<open>duration_since\<close> saturates at zero, as the
  subtraction of naturals does. The two locks are never poisoned: no code that holds one for
  writing can panic.
\<close>

definition PEER_TIMEOUT :: nat where
  "PEER_TIMEOUT = 10 * 1000000000"

record peer_info =
  pi_last_seen :: nat
  pi_is_leader :: bool
  pi_leader_tcp_base :: "string option"

record election =
  el_my_id :: string
  el_peers :: "string \<rightharpoonup> peer_info"
  el_i_am_leader :: bool

definition election_new :: "string \<Rightarrow> election" where
  "election_new my_id = \<lparr>el_my_id = my_id, el_peers = Map.empty, el_i_am_leader = False\<rparr>"

text \<open>\<open>entry(node_id).or_insert(..)\<close>.\<close>

definition peer_entry :: "election \<Rightarrow> string \<Rightarrow> nat \<Rightarrow> peer_info" where
  "peer_entry e node_id now =
     (case el_peers e node_id of
        Some p \<Rightarrow> p
      | None \<Rightarrow> \<lparr>pi_last_seen = now, pi_is_leader = False, pi_leader_tcp_base = None\<rparr>)"

definition observe_peer :: "election \<Rightarrow> nat \<Rightarrow> string \<Rightarrow> election" where
  "observe_peer e now node_id =
     (if node_id = el_my_id e then e
      else e\<lparr>el_peers := (el_peers e)(node_id \<mapsto>
             (peer_entry e node_id now)\<lparr>pi_last_seen := now\<rparr>)\<rparr>)"

definition observe_leader :: "election \<Rightarrow> nat \<Rightarrow> string \<Rightarrow> string \<Rightarrow> election" where
  "observe_leader e now node_id leader_tcp_base =
     (if node_id = el_my_id e then e
      else e\<lparr>el_peers := (el_peers e)(node_id \<mapsto>
             (peer_entry e node_id now)\<lparr>pi_last_seen := now, pi_is_leader := True,
                pi_leader_tcp_base := Some leader_tcp_base\<rparr>)\<rparr>)"

definition clear_leader_flags :: "election \<Rightarrow> election" where
  "clear_leader_flags e =
     e\<lparr>el_peers := (\<lambda>k. map_option (\<lambda>p. p\<lparr>pi_is_leader := False\<rparr>) (el_peers e k))\<rparr>"

definition live_at :: "nat \<Rightarrow> peer_info \<Rightarrow> bool" where
  "live_at now p \<longleftrightarrow> now - pi_last_seen p < PEER_TIMEOUT"

definition current_leader :: "election \<Rightarrow> nat \<Rightarrow> string list \<Rightarrow> (string \<times> string) option" where
  "current_leader e now ks =
     (case List.map_filter (\<lambda>(i, p). map_option (Pair i) (pi_leader_tcp_base p))
             (filter (\<lambda>(i, p). pi_is_leader p \<and> live_at now p) (entries_in (el_peers e) ks)) of
        [] \<Rightarrow> None
      | l # _ \<Rightarrow> Some l)"

definition i_should_be_leader :: "election \<Rightarrow> nat \<Rightarrow> string list \<Rightarrow> bool" where
  "i_should_be_leader e now ks =
     list_all (\<lambda>(peer_id, _). el_my_id e \<le> peer_id)
       (filter (\<lambda>(_, p). live_at now p) (entries_in (el_peers e) ks))"

definition set_i_am_leader :: "election \<Rightarrow> bool \<Rightarrow> election" where
  "set_i_am_leader e is_leader = e\<lparr>el_i_am_leader := is_leader\<rparr>"

definition am_i_leader :: "election \<Rightarrow> bool" where
  "am_i_leader e = el_i_am_leader e"

definition live_peer_count :: "election \<Rightarrow> nat \<Rightarrow> string list \<Rightarrow> nat" where
  "live_peer_count e now ks = length (filter (live_at now) (values_in (el_peers e) ks))"

subsection \<open>The interface of an elector\<close>

text \<open>
  What the swarm relies on: a state knows its own id and the ids it takes to be alive, and
  claims leadership exactly when none of these is smaller. Two states that each take the
  other to be alive never both claim it, and in a group whose members all know of each other
  and of nobody else exactly the one with the least id does.
\<close>

locale elector =
  fixes self :: "'s \<Rightarrow> 'i::linorder"
    and alive :: "'s \<Rightarrow> 'i set"
    and claims :: "'s \<Rightarrow> bool"
    and ok :: "'s \<Rightarrow> bool"
  assumes claims_iff: "ok s \<Longrightarrow> claims s \<longleftrightarrow> (\<forall>i\<in>alive s. self s \<le> i)"
begin

lemma at_most_one:
  assumes "ok s" and "ok t" and "self t \<in> alive s" and "self s \<in> alive t"
    and "claims s" and "claims t"
  shows "self s = self t"
  using assms claims_iff by (meson order_antisym)

lemma least_claims:
  assumes "finite G" and "s \<in> G" and "ok s" and "insert (self s) (alive s) = self ` G"
  shows "claims s \<longleftrightarrow> self s = Min (self ` G)"
proof -
  have fin: "finite (self ` G)" and mem: "self s \<in> self ` G" using assms(1,2) by auto
  have "claims s \<longleftrightarrow> (\<forall>i\<in>insert (self s) (alive s). self s \<le> i)"
    using claims_iff [OF assms(3)] by simp
  also have "\<dots> \<longleftrightarrow> self s = Min (self ` G)"
    unfolding assms(4) using fin mem by (metis Min_eqI Min_le)
  finally show ?thesis .
qed

lemma exactly_one:
  assumes "finite G" and "G \<noteq> {}" and "inj_on self G"
    and "\<And>t. t \<in> G \<Longrightarrow> ok t \<and> insert (self t) (alive t) = self ` G"
  shows "\<exists>!s. s \<in> G \<and> claims s"
proof -
  have "Min (self ` G) \<in> self ` G" using assms(1,2) by simp
  then obtain s where s: "s \<in> G" "self s = Min (self ` G)" by auto
  have least: "claims t \<longleftrightarrow> self t = Min (self ` G)" if "t \<in> G" for t
    using assms(4) [OF that] by (intro least_claims [OF assms(1) that]) simp_all
  show ?thesis
    using s least assms(3) by (intro ex1I [of _ s]) (simp, metis inj_onD)
qed

end

subsection \<open>Lemmas\<close>

definition live_ids :: "nat \<Rightarrow> election \<Rightarrow> string set" where
  "live_ids now e = {i. \<exists>p. el_peers e i = Some p \<and> live_at now p}"

text \<open>The election's view does not depend on the iteration order of the map.\<close>

lemma i_should_be_leader_iff:
  "iterates (el_peers e) ks \<Longrightarrow>
   i_should_be_leader e now ks \<longleftrightarrow> (\<forall>i\<in>live_ids now e. el_my_id e \<le> i)"
  by (auto simp: i_should_be_leader_def list_all_iff iterates_set_entries live_ids_def)

type_synonym view = "election \<times> nat \<times> string list"

definition view_id :: "view \<Rightarrow> string" where
  "view_id v = (case v of (e, now, ks) \<Rightarrow> el_my_id e)"

definition view_alive :: "view \<Rightarrow> string set" where
  "view_alive v = (case v of (e, now, ks) \<Rightarrow> live_ids now e)"

definition view_claims :: "view \<Rightarrow> bool" where
  "view_claims v = (case v of (e, now, ks) \<Rightarrow> i_should_be_leader e now ks)"

definition view_ok :: "view \<Rightarrow> bool" where
  "view_ok v = (case v of (e, now, ks) \<Rightarrow> iterates (el_peers e) ks)"

lemmas view_defs = view_id_def view_alive_def view_claims_def view_ok_def

interpretation swarm: elector view_id view_alive view_claims view_ok
  by unfold_locales (auto simp: view_defs i_should_be_leader_iff)

lemma map_filter_Nil_iff: "List.map_filter f xs = [] \<longleftrightarrow> (\<forall>x\<in>set xs. f x = None)"
  by (induction xs) (simp_all add: List.map_filter_simps split: option.split)

lemma current_leader_None_iff:
  assumes "iterates (el_peers e) ks"
  shows "current_leader e now ks = None \<longleftrightarrow>
    (\<forall>i p a. el_peers e i = Some p \<longrightarrow> pi_is_leader p \<longrightarrow> live_at now p \<longrightarrow>
       pi_leader_tcp_base p \<noteq> Some a)"
proof -
  have "current_leader e now ks = None \<longleftrightarrow>
      List.map_filter (\<lambda>(i, p). map_option (Pair i) (pi_leader_tcp_base p))
        (filter (\<lambda>(i, p). pi_is_leader p \<and> live_at now p) (entries_in (el_peers e) ks)) = []"
    by (simp add: current_leader_def split: list.split)
  also have "\<dots> \<longleftrightarrow>
      (\<forall>(i, p)\<in>{(i, p). el_peers e i = Some p \<and> pi_is_leader p \<and> live_at now p}.
         pi_leader_tcp_base p = None)"
    by (auto simp: map_filter_Nil_iff iterates_set_entries [OF assms])
  finally show ?thesis by auto
qed

lemma current_leader_Some:
  assumes "current_leader e now ks = Some (i, a)"
  shows "\<exists>p. el_peers e i = Some p \<and> pi_is_leader p \<and> live_at now p \<and> pi_leader_tcp_base p = Some a"
proof -
  let ?xs = "List.map_filter (\<lambda>(i, p). map_option (Pair i) (pi_leader_tcp_base p))
    (filter (\<lambda>(i, p). pi_is_leader p \<and> live_at now p) (entries_in (el_peers e) ks))"
  have "(i, a) \<in> set ?xs"
    using assms by (auto simp: current_leader_def split: list.splits)
  then show ?thesis
    by (auto simp: List.map_filter_def set_entries_in split: option.splits)
qed

lemma el_fields [simp]:
  "el_my_id (observe_peer e now i) = el_my_id e" "el_my_id (observe_leader e now i a) = el_my_id e"
  "el_my_id (clear_leader_flags e) = el_my_id e" "el_my_id (set_i_am_leader e b) = el_my_id e"
  "el_i_am_leader (observe_peer e now i) = el_i_am_leader e"
  "el_i_am_leader (observe_leader e now i a) = el_i_am_leader e"
  "el_i_am_leader (clear_leader_flags e) = el_i_am_leader e"
  "el_i_am_leader (set_i_am_leader e b) = b" "el_peers (set_i_am_leader e b) = el_peers e"
  "el_my_id (election_new i) = i" "el_peers (election_new i) = Map.empty"
  "el_i_am_leader (election_new i) = False"
  by (simp_all add: observe_peer_def observe_leader_def clear_leader_flags_def set_i_am_leader_def
      election_new_def)

lemma peers_observe_peer [store_simps]:
  "el_peers (observe_peer e now i) k =
     (if k = i \<and> i \<noteq> el_my_id e then Some ((peer_entry e i now)\<lparr>pi_last_seen := now\<rparr>)
      else el_peers e k)"
  by (simp add: observe_peer_def)

lemma peers_observe_leader [store_simps]:
  "el_peers (observe_leader e now i a) k =
     (if k = i \<and> i \<noteq> el_my_id e
      then Some ((peer_entry e i now)\<lparr>pi_last_seen := now, pi_is_leader := True,
        pi_leader_tcp_base := Some a\<rparr>)
      else el_peers e k)"
  by (simp add: observe_leader_def)

lemma peers_clear [store_simps]:
  "el_peers (clear_leader_flags e) k = map_option (\<lambda>p. p\<lparr>pi_is_leader := False\<rparr>) (el_peers e k)"
  by (simp add: clear_leader_flags_def)

subsection \<open>Histories\<close>

text \<open>What happens to an election state, with the times at which messages are heard.\<close>

datatype el_event =
    HeardPeer nat string
  | HeardLeader nat string string
  | FlagsCleared
  | RoleSet bool

fun el_apply :: "election \<Rightarrow> el_event \<Rightarrow> election" where
  "el_apply e (HeardPeer t i) = observe_peer e t i"
| "el_apply e (HeardLeader t i a) = observe_leader e t i a"
| "el_apply e FlagsCleared = clear_leader_flags e"
| "el_apply e (RoleSet b) = set_i_am_leader e b"

definition el_run :: "election \<Rightarrow> el_event list \<Rightarrow> election" where
  "el_run e es = foldl el_apply e es"

text \<open>The reference: what a history (latest event first) tells of one node.\<close>

fun heard_at :: "string \<Rightarrow> el_event list \<Rightarrow> nat option" where
  "heard_at k [] = None"
| "heard_at k (HeardPeer t i # es) = (if i = k then Some t else heard_at k es)"
| "heard_at k (HeardLeader t i a # es) = (if i = k then Some t else heard_at k es)"
| "heard_at k (_ # es) = heard_at k es"

fun announced :: "string \<Rightarrow> el_event list \<Rightarrow> string option" where
  "announced k [] = None"
| "announced k (HeardLeader t i a # es) = (if i = k then Some a else announced k es)"
| "announced k (_ # es) = announced k es"

fun flagged :: "string \<Rightarrow> el_event list \<Rightarrow> bool" where
  "flagged k [] = False"
| "flagged k (HeardLeader t i a # es) = (i = k \<or> flagged k es)"
| "flagged k (FlagsCleared # es) = False"
| "flagged k (_ # es) = flagged k es"

lemma unheard: "heard_at k es = None \<Longrightarrow> announced k es = None \<and> \<not> flagged k es"
  by (induction k es rule: heard_at.induct) (auto split: if_splits)

lemma flagged_announced: "flagged k es \<Longrightarrow> announced k es \<noteq> None \<and> heard_at k es \<noteq> None"
  by (induction k es rule: flagged.induct) auto

lemma el_run_snoc [simp]: "el_run e (es @ [x]) = el_apply (el_run e es) x"
  by (simp add: el_run_def)

lemma el_run_Nil [simp]: "el_run e [] = e"
  by (simp add: el_run_def)

lemma el_run_id [simp]: "el_my_id (el_run e es) = el_my_id e"
proof (induction es rule: rev_induct)
  case (snoc x es)
  then show ?case by (cases x) simp_all
qed simp

lemma el_run_peers:
  "el_peers (el_run (election_new me) es) k =
     (if k = me then None
      else map_option (\<lambda>t. \<lparr>pi_last_seen = t, pi_is_leader = flagged k (rev es),
             pi_leader_tcp_base = announced k (rev es)\<rparr>) (heard_at k (rev es)))"
proof (induction es rule: rev_induct)
  case (snoc x es)
  then show ?case
    using unheard [of k "rev es"]
    by (cases x; cases "heard_at k (rev es)") (auto simp: store_simps peer_entry_def)
qed simp

text \<open>A node that can be followed: it announced itself since the flags were last cleared and
  was heard of less than ten seconds ago.\<close>

definition followable :: "string \<Rightarrow> el_event list \<Rightarrow> nat \<Rightarrow> string \<Rightarrow> string \<Rightarrow> bool" where
  "followable me es now i a \<longleftrightarrow>
     i \<noteq> me \<and> flagged i (rev es) \<and> announced i (rev es) = Some a \<and>
     (\<exists>t. heard_at i (rev es) = Some t \<and> now - t < PEER_TIMEOUT)"

lemma followable_iff:
  "followable me es now i a \<longleftrightarrow>
     (\<exists>p. el_peers (el_run (election_new me) es) i = Some p \<and> pi_is_leader p \<and> live_at now p \<and>
        pi_leader_tcp_base p = Some a)"
  by (auto simp: followable_def el_run_peers live_at_def)

lemma flagged_mono: "flagged k es \<Longrightarrow> FlagsCleared \<notin> set es' \<Longrightarrow> flagged k (es' @ es)"
proof (induction es')
  case (Cons x es')
  then show ?case by (cases x) simp_all
qed simp

lemma announced_flagged:
  "HeardLeader t i a \<in> set es \<Longrightarrow> FlagsCleared \<notin> set es \<Longrightarrow> flagged i es"
proof (induction es)
  case (Cons x es)
  then show ?case by (cases x) auto
qed simp

lemma least_iff_Min:
  fixes x :: "'a::linorder"
  assumes "finite A"
  shows "x = Min (insert x A) \<longleftrightarrow> (\<forall>i\<in>A. x \<le> i)"
proof
  assume "x = Min (insert x A)"
  then show "\<forall>i\<in>A. x \<le> i" using Min_le [of "insert x A"] assms by force
next
  assume "\<forall>i\<in>A. x \<le> i"
  then show "x = Min (insert x A)" using assms by (intro Min_eqI [symmetric]) auto
qed

subsection \<open>Properties\<close>

text \<open>The election rule is the minimum: whatever the iteration order of the map, a node
  takes itself for the rightful leader exactly when its id is the least among its own and
  those of the peers heard of in the last ten seconds.\<close>

theorem leads_iff_minimum:
  assumes "iterates (el_peers e) ks"
  shows "i_should_be_leader e now ks \<longleftrightarrow>
    el_my_id e = Min (insert (el_my_id e)
      {i. \<exists>p. el_peers e i = Some p \<and> now - pi_last_seen p < PEER_TIMEOUT})"
proof -
  have "live_ids now e \<subseteq> set ks"
    using assms by (auto simp: live_ids_def iterates_def)
  then have fin: "finite (live_ids now e)" by (rule finite_subset) simp
  have "i_should_be_leader e now ks \<longleftrightarrow> (\<forall>i\<in>live_ids now e. el_my_id e \<le> i)"
    by (rule i_should_be_leader_iff [OF assms])
  also have "\<dots> \<longleftrightarrow> el_my_id e = Min (insert (el_my_id e) (live_ids now e))"
    by (rule least_iff_Min [OF fin, symmetric])
  finally show ?thesis by (simp add: live_ids_def live_at_def)
qed

definition demo_history :: "el_event list" where
  "demo_history = [HeardPeer 5 ''node-c'', HeardLeader 7 ''node-a'' ''10.0.0.1'']"

definition demo_election :: election where
  "demo_election = el_run (election_new ''node-b'') demo_history"

lemma demo_election_peers:
  "el_peers demo_election = [''node-c'' \<mapsto> \<lparr>pi_last_seen = 5, pi_is_leader = False,
     pi_leader_tcp_base = None\<rparr>, ''node-a'' \<mapsto> \<lparr>pi_last_seen = 7, pi_is_leader = True,
     pi_leader_tcp_base = Some ''10.0.0.1''\<rparr>]"
  by (rule ext) (auto simp: demo_election_def el_run_peers demo_history_def)

lemma demo_election_iterates: "iterates (el_peers demo_election) [''node-a'', ''node-c'']"
  by (auto simp: iterates_def demo_election_peers)

lemma demo_election_id [simp]: "el_my_id demo_election = ''node-b''"
  by (simp add: demo_election_def)

theorem leads_iff_minimum_witness:
  "i_should_be_leader demo_election 100 [''node-a'', ''node-c''] \<longleftrightarrow>
   ''node-b'' = Min (insert ''node-b''
     {i. \<exists>p. el_peers demo_election i = Some p \<and> 100 - pi_last_seen p < PEER_TIMEOUT})"
  using leads_iff_minimum [OF demo_election_iterates, of 100] by simp

text \<open>C11: A converged swarm has exactly one leader: in a finite group of nodes with different
  ids in which everyone has heard of every other member, and of nobody else, in the last ten
  seconds, exactly one node's election rule makes it the leader.\<close>

theorem converged_swarm_has_one_leader:
  assumes "finite vs" and "vs \<noteq> {}" and "inj_on (\<lambda>(e, now, ks). el_my_id e) vs"
    and "\<And>e now ks. (e, now, ks) \<in> vs \<Longrightarrow> iterates (el_peers e) ks \<and>
       insert (el_my_id e) {i. \<exists>p. el_peers e i = Some p \<and> now - pi_last_seen p < PEER_TIMEOUT} =
       (\<lambda>(e, now, ks). el_my_id e) ` vs"
  shows "\<exists>!v. v \<in> vs \<and> (case v of (e, now, ks) \<Rightarrow> i_should_be_leader e now ks)"
proof -
  have id: "view_id = (\<lambda>(e, now, ks). el_my_id e)" by (rule ext) (simp add: view_id_def split: prod.split)
  have "view_ok v \<and> insert (view_id v) (view_alive v) = view_id ` vs" if "v \<in> vs" for v
    using assms(4) that unfolding id by (cases v) (simp add: view_defs live_ids_def live_at_def)
  from swarm.exactly_one [OF assms(1,2) assms(3) [folded id] this]
  show ?thesis by (simp add: view_claims_def)
qed

definition demo_peer :: election where
  "demo_peer = el_run (election_new ''node-a'') [HeardPeer 3 ''node-b'']"

definition demo_swarm :: "(election \<times> nat \<times> string list) set" where
  "demo_swarm = {(demo_peer, 9, [''node-b'']),
     (el_run (election_new ''node-b'') [HeardPeer 4 ''node-a''], 8, [''node-a''])}"

theorem converged_swarm_has_one_leader_witness:
  "\<exists>!v. v \<in> demo_swarm \<and> (case v of (e, now, ks) \<Rightarrow> i_should_be_leader e now ks)"
proof (rule converged_swarm_has_one_leader)
  show "finite demo_swarm" "demo_swarm \<noteq> {}" by (simp_all add: demo_swarm_def)
  show "inj_on (\<lambda>(e, now, ks). el_my_id e) demo_swarm"
    by (simp add: demo_swarm_def demo_peer_def)
  fix e now ks assume v: "(e, now, ks) \<in> demo_swarm"
  have p: "el_peers demo_peer k = (if k = ''node-b'' then Some \<lparr>pi_last_seen = 3,
      pi_is_leader = False, pi_leader_tcp_base = None\<rparr> else None)" for k
    by (simp add: demo_peer_def el_run_peers)
  have q: "el_peers (el_run (election_new ''node-b'') [HeardPeer 4 ''node-a'']) k =
      (if k = ''node-a'' then Some \<lparr>pi_last_seen = 4,
      pi_is_leader = False, pi_leader_tcp_base = None\<rparr> else None)" for k
    by (simp add: el_run_peers)
  have ids: "(\<lambda>(e, now, ks). el_my_id e) ` demo_swarm = {''node-a'', ''node-b''}"
    by (simp add: demo_swarm_def demo_peer_def)
  show "iterates (el_peers e) ks \<and>
      insert (el_my_id e) {i. \<exists>p. el_peers e i = Some p \<and> now - pi_last_seen p < PEER_TIMEOUT} =
      (\<lambda>(e, now, ks). el_my_id e) ` demo_swarm"
    unfolding ids using v
    by (auto simp: demo_swarm_def iterates_def dom_def p q PEER_TIMEOUT_def demo_peer_def [symmetric]
        split: if_splits) (auto simp: demo_peer_def)
qed

text \<open>Two nodes that hear each other never both lead, however little they know of the rest
  of the swarm and however their clocks and iteration orders differ.\<close>

theorem no_two_leaders:
  assumes "iterates (el_peers e) ks" and "iterates (el_peers e') ks'"
    and "el_my_id e \<noteq> el_my_id e'"
    and "el_peers e (el_my_id e') = Some p" and "now - pi_last_seen p < PEER_TIMEOUT"
    and "el_peers e' (el_my_id e) = Some p'" and "now' - pi_last_seen p' < PEER_TIMEOUT"
  shows "\<not> (i_should_be_leader e now ks \<and> i_should_be_leader e' now' ks')"
  using swarm.at_most_one [of "(e, now, ks)" "(e', now', ks')"] assms
  by (auto simp: view_defs live_ids_def live_at_def)

theorem no_two_leaders_witness:
  "\<not> (i_should_be_leader demo_peer 9 [''node-b''] \<and>
      i_should_be_leader (el_run (election_new ''node-b'') [HeardPeer 4 ''node-a'']) 8 [''node-a''])"
proof -
  let ?e = "el_run (election_new ''node-b'') [HeardPeer 4 ''node-a'']"
  have a: "iterates (el_peers demo_peer) [''node-b'']" and b: "iterates (el_peers ?e) [''node-a'']"
    by (auto simp: iterates_def dom_def el_run_peers demo_peer_def)
  have p: "el_peers demo_peer (el_my_id ?e) = Some \<lparr>pi_last_seen = 3, pi_is_leader = False,
      pi_leader_tcp_base = None\<rparr>"
    and q: "el_peers ?e (el_my_id demo_peer) = Some \<lparr>pi_last_seen = 4, pi_is_leader = False,
      pi_leader_tcp_base = None\<rparr>"
    and n: "el_my_id demo_peer \<noteq> el_my_id ?e"
    by (simp_all add: demo_peer_def el_run_peers)
  show ?thesis
    by (rule no_two_leaders [OF a b n p _ q]) (simp_all add: PEER_TIMEOUT_def)
qed

text \<open>The leader a node follows is the one its history justifies: after any sequence of
  messages, flag clearings and role changes, \<open>current_leader\<close> returns only a node that
  announced itself with that address in its latest announcement, has not been cleared since,
  and was heard of less than ten seconds ago; and it returns nothing only if there is none.\<close>

theorem current_leader_justified:
  assumes "iterates (el_peers (el_run (election_new me) es)) ks"
  shows "(\<forall>i a. current_leader (el_run (election_new me) es) now ks = Some (i, a) \<longrightarrow>
            followable me es now i a) \<and>
         (current_leader (el_run (election_new me) es) now ks = None \<longrightarrow>
            (\<nexists>i a. followable me es now i a))"
  using current_leader_Some [of "el_run (election_new me) es" now ks]
    current_leader_None_iff [OF assms, of now]
  by (simp add: followable_iff)

theorem current_leader_justified_witness:
  "current_leader demo_election 100 [''node-a'', ''node-c''] = Some (''node-a'', ''10.0.0.1'') \<and>
   followable ''node-b'' demo_history 100 ''node-a'' ''10.0.0.1''"
proof -
  have c: "current_leader demo_election 100 [''node-a'', ''node-c''] = Some (''node-a'', ''10.0.0.1'')"
    by (simp add: current_leader_def demo_election_peers live_at_def PEER_TIMEOUT_def
        List.map_filter_simps)
  with current_leader_justified [OF demo_election_iterates [unfolded demo_election_def], of 100]
  show ?thesis by (simp add: demo_election_def)
qed

text \<open>A deposed leader is still followed: once a node has announced itself, every later
  plain peer message from it keeps it the current leader for another ten seconds, until the
  follower clears its flags; nothing the deposed node sends can clear them.\<close>

theorem deposed_leader_is_followed:
  assumes "HeardLeader t0 i a \<in> set es" and "FlagsCleared \<notin> set es" and "i \<noteq> me"
    and "iterates (el_peers (el_run (election_new me) (es @ [HeardPeer t i]))) ks"
    and "now - t < PEER_TIMEOUT"
  shows "current_leader (el_run (election_new me) (es @ [HeardPeer t i])) now ks \<noteq> None"
proof -
  have "flagged i (rev es)" using assms(1,2) announced_flagged [of t0 i a "rev es"] by simp
  then obtain b where "announced i (rev es) = Some b" using flagged_announced by blast
  then have "followable me (es @ [HeardPeer t i]) now i b"
    using \<open>flagged i (rev es)\<close> assms(3,5) by (simp add: followable_def)
  then obtain p where "el_peers (el_run (election_new me) (es @ [HeardPeer t i])) i = Some p"
      "pi_is_leader p" "live_at now p" "pi_leader_tcp_base p = Some b"
    unfolding followable_iff by blast
  with current_leader_None_iff [OF assms(4), of now] show ?thesis by blast
qed

theorem deposed_leader_is_followed_witness:
  "current_leader (el_run (election_new ''node-b'') (demo_history @ [HeardPeer 50000000000 ''node-a'']))
     59999999999 [''node-a'', ''node-c''] \<noteq> None"
proof (rule deposed_leader_is_followed)
  show "HeardLeader 7 ''node-a'' ''10.0.0.1'' \<in> set demo_history"
    by (simp add: demo_history_def)
  show "iterates (el_peers (el_run (election_new ''node-b'')
      (demo_history @ [HeardPeer 50000000000 ''node-a'']))) [''node-a'', ''node-c'']"
    by (auto simp: iterates_def dom_def el_run_peers demo_history_def split: if_splits)
qed (simp_all add: demo_history_def PEER_TIMEOUT_def)

end
