(* ===== verification/Mdns.thy ===== *)
theory Mdns
  imports Election
begin

text \<open>
  Peer discovery over mDNS (the first section of
  \<open>host-background-agent/src/transport/mod.rs\<close>): the announcements a node broadcasts, the
  parser of received datagrams and the listener's turn, which feed the election state. Socket
  calls are parameters: the result of each is an argument.
\<close>

text \<open>\<open>get_local_ip\<close>: the arguments are the results of \<open>bind\<close>, \<open>connect\<close> and \<open>local_addr\<close>.\<close>

definition get_local_ip :: "string + 's \<Rightarrow> ('s \<Rightarrow> string + unit) \<Rightarrow> ('s \<Rightarrow> string + string) \<Rightarrow> string option" where
  "get_local_ip bound connect local_ip =
     (case bound of
        Inl _ \<Rightarrow> None
      | Inr socket \<Rightarrow>
          (case connect socket of
             Inl _ \<Rightarrow> None
           | Inr _ \<Rightarrow> (case local_ip socket of Inl _ \<Rightarrow> None | Inr ip \<Rightarrow> Some ip)))"

text \<open>\<open>make_mdns_socket\<close>: which socket a node ends up with. With the fallback it can send but
  does not hear the announcements sent to port 5353.\<close>

datatype mdns_socket = MdnsPort | EphemeralPort

definition make_mdns_socket ::
    "string + unit \<Rightarrow> string + unit \<Rightarrow> string + unit \<Rightarrow> string + unit \<Rightarrow> string + mdns_socket" where
  "make_mdns_socket raw_new set_reuse bind fallback_new =
     (case raw_new of
        Inl e \<Rightarrow> Inl e
      | Inr _ \<Rightarrow>
        (case set_reuse of
           Inl e \<Rightarrow> Inl e
         | Inr _ \<Rightarrow>
           (case bind of
              Inr _ \<Rightarrow> Inr MdnsPort
            | Inl _ \<Rightarrow>
              (case fallback_new of Inl e \<Rightarrow> Inl e | Inr _ \<Rightarrow> Inr EphemeralPort))))"

definition parse_mdns_announcement :: "string \<Rightarrow> nat \<Rightarrow> election \<Rightarrow> election" where
  "parse_mdns_announcement s now e =
     (let parts = split_on (CHR '':'') (trim s) in
      if length parts < 3 \<or> parts ! 0 \<noteq> ''SEAMLESS-SWARM'' then e
      else if parts ! 1 = ''PEER'' then observe_peer e now (parts ! 2)
      else if parts ! 1 = ''LEADER'' \<and> 4 \<le> length parts
      then observe_leader e now (parts ! 2) (parts ! 3)
      else e)"

definition peer_msg :: "string \<Rightarrow> string" where
  "peer_msg node_id = ''SEAMLESS-SWARM:PEER:'' @ node_id"

definition leader_msg :: "string \<Rightarrow> string \<Rightarrow> string" where
  "leader_msg node_id ip = ''SEAMLESS-SWARM:LEADER:'' @ node_id @ '':'' @ ip"

text \<open>The datagrams of one turn of \<open>run_mdns_broadcaster\<close>.\<close>

definition broadcaster_turn :: "string \<Rightarrow> election \<Rightarrow> string option \<Rightarrow> bytes list" where
  "broadcaster_turn node_id e local_ip =
     as_bytes (peer_msg node_id) #
     (if am_i_leader e
      then [as_bytes (leader_msg node_id (case local_ip of Some ip \<Rightarrow> ip | None \<Rightarrow> ''127.0.0.1''))]
      else [])"

text \<open>One turn of \<open>run_mdns_listener\<close>: a datagram is cut to the 512 bytes of the buffer; one
  that is not UTF-8 is ignored; an error only costs half a second.\<close>

definition listener_turn :: "election \<Rightarrow> nat \<Rightarrow> string + bytes \<Rightarrow> election" where
  "listener_turn e now received =
     (case received of
        Inl _ \<Rightarrow> e
      | Inr datagram \<Rightarrow>
          (case from_utf8 (take 512 datagram) of
             Some msg \<Rightarrow> parse_mdns_announcement msg now e
           | None \<Rightarrow> e))"

subsection \<open>Reading announcements\<close>

lemma peer_msg_parts: "plain i \<Longrightarrow>
  split_on (CHR '':'') (trim (peer_msg i)) = [''SEAMLESS-SWARM'', ''PEER'', i]"
  using plain_last [of i] plain_no_colon [of i]
  by (simp add: trim_graphic peer_msg_def graphic_def split_on_free)

lemma leader_msg_parts: "plain i \<Longrightarrow> plain a \<Longrightarrow>
  split_on (CHR '':'') (trim (leader_msg i a)) = [''SEAMLESS-SWARM'', ''LEADER'', i, a]"
  using plain_last [of a] plain_no_colon [of i] plain_no_colon [of a]
  by (simp add: trim_graphic leader_msg_def graphic_def split_on_free split_on_append)

lemma listener_text:
  "\<forall>c\<in>set s. of_char c < (128 :: nat) \<Longrightarrow> length s \<le> 512 \<Longrightarrow>
   listener_turn e now (Inr (as_bytes s)) = parse_mdns_announcement s now e"
  by (simp add: listener_turn_def from_utf8_as_bytes)

lemma peer_msg_ascii: "plain i \<Longrightarrow> \<forall>c\<in>set (peer_msg i). of_char c < (128 :: nat)"
  using plain_ascii [of i] by (auto simp: peer_msg_def)

lemma leader_msg_ascii:
  "plain i \<Longrightarrow> plain a \<Longrightarrow> \<forall>c\<in>set (leader_msg i a). of_char c < (128 :: nat)"
  using plain_ascii [of i] plain_ascii [of a] by (auto simp: leader_msg_def)

lemma hear_peer_msg:
  assumes "plain i" and "length i \<le> 400"
  shows "listener_turn e now (Inr (as_bytes (peer_msg i))) = observe_peer e now i"
proof -
  have "length (peer_msg i) \<le> 512" using assms(2) by (simp add: peer_msg_def)
  from listener_text [OF peer_msg_ascii [OF assms(1)] this] show ?thesis
    by (simp add: parse_mdns_announcement_def peer_msg_parts [OF assms(1)])
qed

lemma hear_leader_msg:
  assumes "plain i" and "plain a" and "length i + length a \<le> 400"
  shows "listener_turn e now (Inr (as_bytes (leader_msg i a))) = observe_leader e now i a"
proof -
  have "length (leader_msg i a) \<le> 512" using assms(3) by (simp add: leader_msg_def)
  from listener_text [OF leader_msg_ascii [OF assms(1,2)] this] show ?thesis
    by (simp add: parse_mdns_announcement_def leader_msg_parts [OF assms(1,2)])
qed

text \<open>Port 5353 carries other mDNS traffic: what does not start with the swarm's prefix is
  ignored.\<close>

lemma foreign_datagram_ignored:
  assumes "\<not> starts_with (trim s) ''SEAMLESS-SWARM:''"
  shows "parse_mdns_announcement s now e = e"
proof -
  let ?ps = "split_on (CHR '':'') (trim s)"
  have "trim s = join_with '':'' ?ps" by (simp add: join_split)
  moreover have "join_with '':'' ?ps = ''SEAMLESS-SWARM:'' @ join_with '':'' (tl ?ps)"
    if "3 \<le> length ?ps" "?ps ! 0 = ''SEAMLESS-SWARM''"
    using that by (cases ?ps; cases "tl ?ps") (auto simp: join_Cons)
  ultimately have "\<not> (3 \<le> length ?ps \<and> ?ps ! 0 = ''SEAMLESS-SWARM'')"
    using assms by (metis starts_with_append)
  then show ?thesis by (auto simp: parse_mdns_announcement_def Let_def)
qed

subsection \<open>Gossip\<close>

text \<open>A node that hears the peer announcements of the listed nodes at the listed times.\<close>

definition hear_all :: "election \<Rightarrow> (nat \<times> string) list \<Rightarrow> election" where
  "hear_all e ms = foldl (\<lambda>e (t, i). listener_turn e t (Inr (as_bytes (peer_msg i)))) e ms"

lemma hear_all_run:
  "\<forall>(t, i)\<in>set ms. plain i \<and> length i \<le> 400 \<Longrightarrow>
   hear_all e ms = el_run e (map (\<lambda>(t, i). HeardPeer t i) ms)"
proof (induction ms rule: rev_induct)
  case Nil
  then show ?case by (simp add: hear_all_def)
next
  case (snoc m ms)
  then have "hear_all e ms = el_run e (map (\<lambda>(t, i). HeardPeer t i) ms)" by auto
  with snoc.prems show ?case
    by (cases m) (simp add: hear_all_def hear_peer_msg)
qed

lemma heard_at_peers:
  "heard_at k (map (\<lambda>(t, i). HeardPeer t i) ms) \<noteq> None \<longleftrightarrow> k \<in> snd ` set ms"
  "heard_at k (map (\<lambda>(t, i). HeardPeer t i) ms) = Some u \<Longrightarrow> (u, k) \<in> set ms"
  by (induction ms) (auto split: if_splits)

subsection \<open>Properties\<close>

text \<open>C24: Announcements survive the wire: the datagrams a node broadcasts, read by another
  node's listener, are exactly the observation of that peer and of that leader with its
  address, for ids and addresses without colons and white space (those the node generates)
  that fit the listener's buffer.\<close>

theorem announcements_round_trip:
  assumes "plain i" and "plain ip" and "length i + length ip \<le> 400"
  shows "map (\<lambda>d. listener_turn e now (Inr d)) (broadcaster_turn i me (Some ip)) =
    observe_peer e now i # (if am_i_leader me then [observe_leader e now i ip] else [])"
  using assms by (simp add: broadcaster_turn_def hear_peer_msg hear_leader_msg)

theorem announcements_round_trip_witness:
  "map (\<lambda>d. listener_turn (election_new ''node-b'') 9 (Inr d))
     (broadcaster_turn ''node-a'' (set_i_am_leader (election_new ''node-a'') True) (Some ''10.0.0.7'')) =
   [observe_peer (election_new ''node-b'') 9 ''node-a'',
    observe_leader (election_new ''node-b'') 9 ''node-a'' ''10.0.0.7'']"
proof -
  have "plain ''node-a''" "plain ''10.0.0.7''" by (simp_all add: plain_def graphic_def)
  then show ?thesis by (simp add: announcements_round_trip am_i_leader_def)
qed

text \<open>C18: Gossip elects the minimum: a node that has heard, within the last ten seconds and in
  any order and number of repetitions, the announcements of all other nodes of a group (and of
  nobody else) takes itself for the leader exactly when its id is the least of the group.\<close>

theorem gossip_elects_minimum:
  assumes "\<forall>(t, i)\<in>set ms. plain i \<and> length i \<le> 400 \<and> now - t < PEER_TIMEOUT"
    and "insert me (snd ` set ms) = I"
    and "iterates (el_peers (hear_all (election_new me) ms)) ks"
  shows "i_should_be_leader (hear_all (election_new me) ms) now ks \<longleftrightarrow> me = Min I"
proof -
  let ?e = "hear_all (election_new me) ms"
  have run: "?e = el_run (election_new me) (map (\<lambda>(t, i). HeardPeer t i) ms)"
    using assms(1) by (intro hear_all_run) auto
  have peers: "(\<exists>p. el_peers ?e k = Some p \<and> live_at now p) \<longleftrightarrow> k \<in> snd ` set ms - {me}" for k
  proof (cases "heard_at k (map (\<lambda>(t, i). HeardPeer t i) (rev ms))")
    case None
    then have "k \<notin> snd ` set ms" using heard_at_peers(1) [of k "rev ms"] by simp
    with None show ?thesis by (simp add: run el_run_peers rev_map)
  next
    case (Some u)
    then have "(u, k) \<in> set ms" using heard_at_peers(2) [of k "rev ms"] by simp
    with Some assms(1) show ?thesis
      by (force simp: run el_run_peers rev_map live_at_def)
  qed
  have id: "el_my_id ?e = me" by (simp add: run)
  have "i_should_be_leader ?e now ks \<longleftrightarrow> (\<forall>i\<in>snd ` set ms - {me}. me \<le> i)"
    unfolding i_should_be_leader_iff [OF assms(3)] live_ids_def peers id by blast
  also have "\<dots> \<longleftrightarrow> me = Min (insert me (snd ` set ms - {me}))"
    by (rule least_iff_Min [symmetric]) simp
  also have "insert me (snd ` set ms - {me}) = I" using assms(2) by auto
  finally show ?thesis .
qed

theorem gossip_elects_minimum_witness:
  "i_should_be_leader (hear_all (election_new ''node-a'') [(3, ''node-b''), (4, ''node-a'')]) 10 [''node-b''] \<longleftrightarrow>
   ''node-a'' = Min {''node-a'', ''node-b''}"
proof (rule gossip_elects_minimum)
  have p: "plain ''node-a''" "plain ''node-b''" by (simp_all add: plain_def graphic_def)
  then show "\<forall>(t, i)\<in>set [(3, ''node-b''), (4, ''node-a'')].
      plain i \<and> length i \<le> 400 \<and> 10 - t < PEER_TIMEOUT" by (simp add: PEER_TIMEOUT_def)
  show "iterates (el_peers (hear_all (election_new ''node-a'') [(3, ''node-b''), (4, ''node-a'')]))
      [''node-b'']"
    using p by (auto simp: hear_all_def hear_peer_msg iterates_def observe_peer_def election_new_def)
qed auto

end
