(* ===== verification/NodeRole.thy ===== *)
theory NodeRole
  imports Mdns HubServer Worker
begin

text \<open>
  The role of a node (\<open>host-background-agent/src/main.rs\<close>): the role loop decides between
  following a known leader, leading, and waiting; a leader starts the hub's servers, registers
  itself and works through the loopback interface until a smaller id appears; a follower
  works until it knows no leader any more. The node is a transition system whose steps are the
  turns of these loops and of the mDNS listener, which runs beside them.
\<close>

definition node_id_of :: "string \<Rightarrow> string outcome" where
  "node_id_of uuid = and_then (str_upto uuid 8) (\<lambda>s. Returns (''node-'' @ s))"

datatype decision = Follow string | Lead | Wait

definition decide :: "election \<Rightarrow> nat \<Rightarrow> string list \<Rightarrow> nat \<Rightarrow> string list \<Rightarrow> decision" where
  "decide e now ks now' ks' =
     (case current_leader e now ks of
        Some (leader_id, leader_tcp_base) \<Rightarrow> Follow leader_tcp_base
      | None \<Rightarrow> if i_should_be_leader e now' ks' then Lead else Wait)"

text \<open>The leader's own profile; floats are shown with two decimals.\<close>

definition leader_profile ::
    "(fp \<Rightarrow> string) \<Rightarrow> string \<Rightarrow> string \<Rightarrow> u64 \<Rightarrow> device_capability list \<Rightarrow> node_profile" where
  "leader_profile show_2 node_id os now_ts caps =
     \<lparr>np_node_id = node_id, np_os_platform = os, np_capabilities = map (core_capability show_2) caps,
      np_last_seen = now_ts, np_public_key = []\<rparr>"

text \<open>\<open>run_as_leader\<close> up to its monitor loop: the running hub, and the election state with the
  leader flag set; a panic of \<open>start_servers\<close> ends the process.\<close>

definition start_leading ::
    "(string \<Rightarrow> bool) \<Rightarrow> (string \<Rightarrow> bool) \<Rightarrow> node_profile \<Rightarrow> election \<Rightarrow> (hub \<times> election) outcome" where
  "start_leading new_socket listen profile e =
     and_then (start_servers new_socket listen
                 (hub_new (register_node registry_new profile) scheduler_new ''0.0.0.0''))
       (\<lambda>(h, _). Returns (h, set_i_am_leader e True))"

text \<open>One turn of the leader's monitor: the election state and whether the leader steps down.\<close>

definition leader_check :: "election \<Rightarrow> nat \<Rightarrow> string list \<Rightarrow> election \<times> bool" where
  "leader_check e now ks =
     (if \<not> i_should_be_leader e now ks then (set_i_am_leader e False, True) else (e, False))"

definition leader_client_endpoints :: "string list" where
  "leader_client_endpoints =
     [''tcp://127.0.0.1:5555'', ''tcp://127.0.0.1:5556'', ''tcp://127.0.0.1:5557'', ''tcp://127.0.0.1:5558'']"

definition follower_client_endpoints :: "string \<Rightarrow> string list" where
  "follower_client_endpoints base =
     map (\<lambda>port. ''tcp://'' @ base @ port) ['':5555'', '':5556'', '':5557'', '':5558'']"

text \<open>\<open>run_as_follower\<close> and \<open>run_worker_on_loopback\<close> after their life cycle call: one turn of the
  polling loop, \<open>True\<close> when the function returns. An error of the life cycle returns at once.\<close>

definition follower_poll :: "(string + unit) \<Rightarrow> election \<Rightarrow> nat \<Rightarrow> string list \<Rightarrow> bool" where
  "follower_poll session e now ks =
     (case session of Inl _ \<Rightarrow> True | Inr _ \<Rightarrow> current_leader e now ks = None)"

definition loopback_poll :: "(string + unit) \<Rightarrow> election \<Rightarrow> bool" where
  "loopback_poll session e = (case session of Inl _ \<Rightarrow> True | Inr _ \<Rightarrow> \<not> am_i_leader e)"

subsection \<open>The node as a transition system\<close>

datatype role = Starting | Deciding | Leading | Following string | Dead

text \<open>\<open>nd_listening\<close>: the addresses on which hubs of this process listen. The servers of a hub
  run for ever and share its sockets, so an address is never freed when the role ends; binding
  an address that is in use fails.\<close>

record node =
  nd_election :: election
  nd_role :: role
  nd_listening :: "string set"

definition node_new :: "string \<Rightarrow> node" where
  "node_new node_id =
     \<lparr>nd_election = election_new node_id, nd_role = Starting, nd_listening = {}\<rparr>"

definition bind_free :: "node \<Rightarrow> (string \<Rightarrow> bool) \<Rightarrow> string \<Rightarrow> bool" where
  "bind_free n os_allows a \<longleftrightarrow> a \<notin> nd_listening n \<and> os_allows a"

definition hub_listening :: "hub \<Rightarrow> string set" where
  "hub_listening h = set_option (hub_task_push h) \<union> set_option (hub_progress_pub h)"

inductive node_step :: "node \<Rightarrow> node \<Rightarrow> bool" where
  hear: "nd_role n \<noteq> Dead \<Longrightarrow>
    node_step n (n\<lparr>nd_election := listener_turn (nd_election n) now received\<rparr>)"
| started: "nd_role n = Starting \<Longrightarrow> node_step n (n\<lparr>nd_role := Deciding\<rparr>)"
| follow: "nd_role n = Deciding \<Longrightarrow> decide (nd_election n) now ks now' ks' = Follow base \<Longrightarrow>
    node_step n (n\<lparr>nd_role := Following base\<rparr>)"
| lead: "nd_role n = Deciding \<Longrightarrow> decide (nd_election n) now ks now' ks' = Lead \<Longrightarrow>
    start_leading new_socket (bind_free n os_allows) profile (nd_election n) = Returns (h, e) \<Longrightarrow>
    node_step n \<lparr>nd_election = e, nd_role = Leading,
      nd_listening = nd_listening n \<union> hub_listening h\<rparr>"
| lead_panics: "nd_role n = Deciding \<Longrightarrow> decide (nd_election n) now ks now' ks' = Lead \<Longrightarrow>
    start_leading new_socket (bind_free n os_allows) profile (nd_election n) = Panics \<Longrightarrow>
    node_step n (n\<lparr>nd_role := Dead\<rparr>)"
| wait: "nd_role n = Deciding \<Longrightarrow> decide (nd_election n) now ks now' ks' = Wait \<Longrightarrow> node_step n n"
| keep_leading: "nd_role n = Leading \<Longrightarrow> leader_check (nd_election n) now ks = (e, False) \<Longrightarrow>
    node_step n (n\<lparr>nd_election := e\<rparr>)"
| step_down: "nd_role n = Leading \<Longrightarrow> leader_check (nd_election n) now ks = (e, True) \<Longrightarrow>
    node_step n (n\<lparr>nd_election := e, nd_role := Deciding\<rparr>)"
| keep_following: "nd_role n = Following base \<Longrightarrow>
    \<not> follower_poll session (nd_election n) now ks \<Longrightarrow> node_step n n"
| leader_lost: "nd_role n = Following base \<Longrightarrow> follower_poll session (nd_election n) now ks \<Longrightarrow>
    node_step n (n\<lparr>nd_election := clear_leader_flags (nd_election n), nd_role := Deciding\<rparr>)"

subsection \<open>Invariant\<close>

text \<open>The addresses of the hub's two shared sockets.\<close>

definition task_addr :: string where "task_addr = ''tcp://0.0.0.0:5556''"
definition pub_addr :: string where "pub_addr = ''tcp://0.0.0.0:5560''"

definition node_inv :: "node \<Rightarrow> bool" where
  "node_inv n \<longleftrightarrow> (nd_role n = Leading \<longrightarrow> am_i_leader (nd_election n)) \<and>
     (am_i_leader (nd_election n) \<longrightarrow> nd_role n = Leading) \<and>
     (nd_role n = Leading \<longrightarrow> task_addr \<in> nd_listening n)"

lemma listener_turn_leader [simp]: "am_i_leader (listener_turn e now r) = am_i_leader e"
  by (auto simp: listener_turn_def parse_mdns_announcement_def am_i_leader_def Let_def
      split: sum.split option.split)

lemma listener_turn_id [simp]: "el_my_id (listener_turn e now r) = el_my_id e"
  by (auto simp: listener_turn_def parse_mdns_announcement_def Let_def split: sum.split option.split)

lemma am_i_leader_simps [simp]:
  "am_i_leader (set_i_am_leader e b) = b" "am_i_leader (clear_leader_flags e) = am_i_leader e"
  "\<not> am_i_leader (election_new i)"
  by (simp_all add: am_i_leader_def)

lemma start_leading_if:
  "start_leading new_socket listen p e =
     (if new_socket task_addr \<and> listen task_addr \<and> new_socket pub_addr \<and> listen pub_addr
      then Returns ((hub_new (register_node registry_new p) scheduler_new ''0.0.0.0'')
          \<lparr>hub_task_push := Some task_addr, hub_progress_pub := Some pub_addr\<rparr>,
          set_i_am_leader e True)
      else Panics)"
  by (simp add: start_leading_def start_servers_def hub_addr_def hub_new_def Let_def
      task_addr_def pub_addr_def)

lemma start_leading_flag:
  "start_leading new_socket listen p e = Returns (h, e') \<Longrightarrow> e' = set_i_am_leader e True"
  by (simp add: start_leading_if split: if_splits)

lemma start_leading_addr:
  "start_leading new_socket listen p e = Returns (h, e') \<Longrightarrow>
   listen task_addr \<and> hub_listening h = {task_addr, pub_addr}"
  by (auto simp: start_leading_if hub_listening_def split: if_splits)

lemma step_down_flag: "leader_check e now ks = (e', True) \<Longrightarrow> e' = set_i_am_leader e False"
  by (simp add: leader_check_def split: if_splits)

lemma keep_leading_same: "leader_check e now ks = (e', False) \<Longrightarrow> e' = e"
  by (simp add: leader_check_def split: if_splits)

lemma node_step_inv:
  assumes "node_step n n'" and "node_inv n"
  shows "node_inv n'"
  using assms
proof cases
  case (lead now ks now' ks' new_socket os_allows profile h e)
  then show ?thesis
    by (simp add: node_inv_def start_leading_flag [OF lead(4)] start_leading_addr [OF lead(4)])
next
  case (keep_leading now ks e)
  with assms(2) show ?thesis by (simp add: node_inv_def keep_leading_same [OF keep_leading(3)])
next
  case (step_down now ks e)
  then show ?thesis by (simp add: node_inv_def step_down_flag [OF step_down(3)])
qed (use assms(2) in \<open>simp_all add: node_inv_def\<close>)

interpretation node_system: invariant_system node_step node_inv
  by unfold_locales (rule node_step_inv)

lemma node_new_inv: "node_inv (node_new i)"
  by (simp add: node_inv_def node_new_def)

text \<open>A node that has led and is not leading any more.\<close>

definition retired :: "node \<Rightarrow> bool" where
  "retired n \<longleftrightarrow> task_addr \<in> nd_listening n \<and> nd_role n \<noteq> Leading"

lemma node_step_retired:
  assumes "node_step n n'" and "retired n"
  shows "retired n'"
  using assms
proof cases
  case (lead now ks now' ks' new_socket os_allows profile h e)
  with assms(2) show ?thesis
    using start_leading_addr [OF lead(4)] by (simp add: retired_def bind_free_def)
qed (use assms(2) in \<open>simp_all add: retired_def\<close>)

interpretation retirement: invariant_system node_step retired
  by unfold_locales (rule node_step_retired)

subsection \<open>Properties\<close>

text \<open>A node announces itself as leader exactly while it leads: in every state a node can
  reach from its start, whatever it hears and decides, its broadcaster sends a leader
  announcement if and only if its role is leader, and every datagram carries its own id.\<close>

theorem announces_iff_leading:
  assumes "node_step\<^sup>*\<^sup>* (node_new i) n"
  shows "broadcaster_turn i (nd_election n) ip =
    (if nd_role n = Leading
     then [as_bytes (peer_msg i), as_bytes (leader_msg i (case ip of Some a \<Rightarrow> a | None \<Rightarrow> ''127.0.0.1''))]
     else [as_bytes (peer_msg i)])"
  using node_system.run_inv [OF assms node_new_inv]
  by (simp add: node_inv_def broadcaster_turn_def)

lemma lead_demo:
  "nd_listening n = {} \<Longrightarrow>
   start_leading (\<lambda>_. True) (bind_free n (\<lambda>_. True)) p e = Returns
     ((hub_new (register_node registry_new p) scheduler_new ''0.0.0.0'')
        \<lparr>hub_task_push := Some task_addr, hub_progress_pub := Some pub_addr\<rparr>,
      set_i_am_leader e True)"
  by (simp add: start_leading_if bind_free_def)

definition leading_node :: node where
  "leading_node = \<lparr>nd_election = set_i_am_leader (election_new ''node-a'') True, nd_role = Leading,
     nd_listening = {task_addr, pub_addr}\<rparr>"

lemma leading_node_reachable: "node_step\<^sup>*\<^sup>* (node_new ''node-a'') leading_node"
proof -
  let ?d = "(node_new ''node-a'')\<lparr>nd_role := Deciding\<rparr>"
  have 1: "node_step (node_new ''node-a'') ?d"
    by (rule node_step.started) (simp add: node_new_def)
  have d: "decide (nd_election ?d) 0 [] 0 [] = Lead"
    by (simp add: decide_def node_new_def current_leader_def i_should_be_leader_def
        List.map_filter_simps)
  have l: "nd_listening ?d = {}" by (simp add: node_new_def)
  have "node_step ?d leading_node"
    using node_step.lead [OF _ d lead_demo [OF l, of "demo_node ''node-a'' 5"]]
    by (simp add: leading_node_def node_new_def hub_listening_def insert_commute)
  with 1 show ?thesis by (meson converse_rtranclp_into_rtranclp rtranclp.rtrancl_refl)
qed

theorem announces_iff_leading_witness:
  "broadcaster_turn ''node-a'' (nd_election leading_node) (Some ''10.0.0.1'') =
     [as_bytes (peer_msg ''node-a''), as_bytes (leader_msg ''node-a'' ''10.0.0.1'')]"
  using announces_iff_leading [OF leading_node_reachable, of "Some ''10.0.0.1''"]
  by (simp add: leading_node_def)

text \<open>C23: A leader that steps down can never lead again: its first hub still holds the task
  port, so the next time the node decides to lead it panics; from the moment it has stepped
  down, no reachable state is a leader's.\<close>

theorem never_leads_twice:
  assumes "node_step\<^sup>*\<^sup>* (node_new i) n" and "nd_role n = Leading"
    and "node_step n n'" and "nd_role n' \<noteq> Leading" and "node_step\<^sup>*\<^sup>* n' m"
  shows "nd_role m \<noteq> Leading"
proof -
  have "task_addr \<in> nd_listening n"
    using node_system.run_inv [OF assms(1) node_new_inv] assms(2) by (simp add: node_inv_def)
  moreover have "nd_listening n' = nd_listening n"
    using assms(3,2) by cases auto
  ultimately have "retired n'" using assms(4) by (simp add: retired_def)
  from retirement.run_inv [OF assms(5) this] show ?thesis by (simp add: retired_def)
qed

definition challenged_node :: node where
  "challenged_node = leading_node\<lparr>nd_election := observe_peer (nd_election leading_node) 5 ''node-0''\<rparr>"

theorem never_leads_twice_witness:
  "nd_role (challenged_node\<lparr>nd_election := set_i_am_leader (nd_election challenged_node) False,
     nd_role := Deciding\<rparr>) \<noteq> Leading"
proof (rule never_leads_twice)
  have "plain ''node-0''" by (simp add: plain_def graphic_def)
  then have "listener_turn (nd_election leading_node) 5 (Inr (as_bytes (peer_msg ''node-0''))) =
      observe_peer (nd_election leading_node) 5 ''node-0''" by (rule hear_peer_msg) simp
  then have "node_step leading_node challenged_node"
    using node_step.hear [of leading_node 5 "Inr (as_bytes (peer_msg ''node-0''))"]
    by (simp add: challenged_node_def leading_node_def)
  then show "node_step\<^sup>*\<^sup>* (node_new ''node-a'') challenged_node"
    using leading_node_reachable by (meson rtranclp.rtrancl_into_rtrancl)
  show role: "nd_role challenged_node = Leading"
    by (simp add: challenged_node_def leading_node_def)
  have "\<not> i_should_be_leader (nd_election challenged_node) 6 [''node-0'']"
    by (simp add: i_should_be_leader_def challenged_node_def leading_node_def observe_peer_def
        peer_entry_def live_at_def PEER_TIMEOUT_def set_i_am_leader_def election_new_def)
  then have "leader_check (nd_election challenged_node) 6 [''node-0''] =
      (set_i_am_leader (nd_election challenged_node) False, True)" by (simp add: leader_check_def)
  from node_step.step_down [OF role this]
  show "node_step challenged_node (challenged_node\<lparr>nd_election :=
      set_i_am_leader (nd_election challenged_node) False, nd_role := Deciding\<rparr>)" .
qed simp_all

end
