(* ===== verification/NngServer.thy ===== *)
theory NngServer
  imports HubServer
begin

text \<open>
  The older heartbeat receiver of the core library (\<open>compute-module-core/src/transport/mod.rs\<close>).
  It has its own numbering of message types, checks the length of every frame and records the
  real time of a heartbeat. Nothing in the repository starts it beside the hub's own servers.
\<close>

datatype message_type =
    HandshakeChallenge | HandshakeResponse | HandshakeResult
  | CapabilityProfile | TaskDefinition | TaskProgress

fun message_type_u8 :: "message_type \<Rightarrow> u8" where
  "message_type_u8 HandshakeChallenge = 1"
| "message_type_u8 HandshakeResponse = 2"
| "message_type_u8 HandshakeResult = 3"
| "message_type_u8 CapabilityProfile = 4"
| "message_type_u8 TaskDefinition = 5"
| "message_type_u8 TaskProgress = 6"

record nng_server =
  ns_endpoint :: string
  ns_registry :: registry

definition nng_server_new :: "string \<Rightarrow> registry \<Rightarrow> nng_server" where
  "nng_server_new endpoint reg = \<lparr>ns_endpoint = endpoint, ns_registry = reg\<rparr>"

text \<open>\<open>start\<close> fails when the socket cannot be made or bound; otherwise the thread runs.\<close>

definition nng_server_start :: "string + unit \<Rightarrow> (string \<Rightarrow> string + unit) \<Rightarrow> nng_server \<Rightarrow> string + unit" where
  "nng_server_start new_socket listen ns =
     (case new_socket of Inl e \<Rightarrow> Inl e | Inr _ \<Rightarrow> listen (ns_endpoint ns))"

definition received_profile :: "(fp \<Rightarrow> string) \<Rightarrow> u64 \<Rightarrow> capability_profile \<Rightarrow> node_profile" where
  "received_profile show_f64 now p =
     \<lparr>np_node_id = cp_node_id p, np_os_platform = cp_os_platform p,
      np_capabilities = map (core_capability show_f64) (cp_capabilities p),
      np_last_seen = now, np_public_key = []\<rparr>"

text \<open>One turn of the thread's loop: every error is logged and the loop goes on.\<close>

definition nng_server_turn ::
    "codecs \<Rightarrow> (fp \<Rightarrow> string) \<Rightarrow> u64 \<Rightarrow> registry \<Rightarrow> string + bytes \<Rightarrow> registry" where
  "nng_server_turn cs show_f64 now reg received =
     (case received of
        Inl _ \<Rightarrow> reg
      | Inr s \<Rightarrow>
          if length s < 5 then reg
          else if length s < 5 + frame_len s then reg
          else if s ! 4 = message_type_u8 CapabilityProfile then
            (case cd_decode (c_profile cs) (take (frame_len s) (drop 5 s)) of
               Inr p \<Rightarrow> register_node reg (received_profile show_f64 now p)
             | Inl _ \<Rightarrow> reg)
          else reg)"

text \<open>The type numbers are those of no sender in the repository: the worker sends its profile as
  type 5, which this server ignores.\<close>

lemma message_type_inj: "message_type_u8 t = message_type_u8 u \<longleftrightarrow> t = u"
  by (cases t; cases u) simp_all

lemma ignores_worker_profile:
  "nng_server_turn cs show_f64 now reg (Inr (frame_msg 5 (c_profile cs) p)) = reg"
  by (simp add: nng_server_turn_def)

lemma nng_server_registers:
  assumes "carries (c_profile cs) p"
  shows "nng_server_turn cs show_f64 now reg (Inr (frame_msg 4 (c_profile cs) p)) =
    register_node reg (received_profile show_f64 now p)"
  using assms
  by (simp add: nng_server_turn_def carries_def frame_msg_def frame_len_build_frame)

text \<open>A heartbeat received through this server lives for the threshold.\<close>

lemma received_profile_fresh:
  "fresh_at t th (received_profile show_f64 now p) \<longleftrightarrow> t < now \<or> unat t - unat now < unat th"
  by (simp add: fresh_at_iff received_profile_def)

lemma nng_server_turn_inv:
  "registry_inv reg \<Longrightarrow> registry_inv (nng_server_turn cs show_f64 now reg r)"
  by (auto simp: nng_server_turn_def registry_inv_register split: sum.split)

end
