(* ===== verification/MediumCli.thy ===== *)
theory MediumCli
  imports HubServer
begin

text \<open>
  The medium interface (\<open>tools/swarm-medium/src/main.rs\<close>), a console client of the hub: access
  key and first status, the menu, the request built from a choice, the hub's answer, and the
  watch on the progress broadcast. Console lines come in as arguments; of what is printed only
  the progress lines are kept.
\<close>

datatype 'a cli = Continues 'a | Exits nat | CliPanics

definition send_framed :: "u8 \<Rightarrow> 'm codec \<Rightarrow> 'm \<Rightarrow> (bytes \<Rightarrow> string + unit) \<Rightarrow> string + unit" where
  "send_framed t c m send = send (frame_msg t c m)"

text \<open>From the access key to the first status: every failure exits with code 1, an undecodable
  answer panics.\<close>

definition cli_connect ::
    "codecs \<Rightarrow> string \<Rightarrow> string + unit \<Rightarrow> (bytes \<Rightarrow> string + unit) \<Rightarrow> string + bytes \<Rightarrow>
     (string \<times> swarm_status_response) cli" where
  "cli_connect cs line dial send received =
     (let access_key = trim line in
      if access_key = [] then Exits 1
      else case dial of Inl _ \<Rightarrow> Exits 1 | Inr _ \<Rightarrow>
       (case send_framed 10 (c_status_req cs) \<lparr>sq_access_key = access_key\<rparr> send of
          Inl _ \<Rightarrow> Exits 1
        | Inr _ \<Rightarrow>
          (case recv_framed received of
             Inl _ \<Rightarrow> Exits 1
           | Inr (msg_type, payload) \<Rightarrow>
              if msg_type \<noteq> 11 then Exits 1
              else (case cd_decode (c_status_resp cs) payload of
                      Inl _ \<Rightarrow> CliPanics
                    | Inr status \<Rightarrow>
                        if \<not> sr_authorized status then Exits 1
                        else Continues (access_key, status)))))"

definition refresh_status ::
    "codecs \<Rightarrow> string \<Rightarrow> (bytes \<Rightarrow> string + unit) \<Rightarrow> string + bytes \<Rightarrow> swarm_status_response option" where
  "refresh_status cs access_key send received =
     (case send_framed 10 (c_status_req cs) \<lparr>sq_access_key = access_key\<rparr> send of
        Inl _ \<Rightarrow> None
      | Inr _ \<Rightarrow>
        (case recv_framed received of
           Inl _ \<Rightarrow> None
         | Inr (msg_type, payload) \<Rightarrow>
             if msg_type \<noteq> 11 then None
             else (case cd_decode (c_status_resp cs) payload of Inl _ \<Rightarrow> None | Inr s \<Rightarrow> Some s)))"

subsection \<open>The menu\<close>

datatype menu = Quit | Status | OllamaTask | StatefulTask | InteractiveTask | InvalidChoice

definition menu_choice :: "string \<Rightarrow> menu" where
  "menu_choice line =
     (let choice = trim line in
      if choice = ''q'' \<or> choice = ''Q'' then Quit
      else if choice = ''s'' \<or> choice = ''S'' then Status
      else if choice = ''1'' then OllamaTask
      else if choice = ''2'' then StatefulTask
      else if choice = ''3'' then InteractiveTask
      else InvalidChoice)"

text \<open>The request of a choice and how many seconds to wait for it; \<open>None\<close> when there is nothing
  to submit (an empty prompt, or no task was chosen).\<close>

definition task_plan :: "menu \<Rightarrow> string \<Rightarrow> (i32 \<times> string \<times> string \<times> bytes \<times> nat) option" where
  "task_plan choice prompt_line =
     (case choice of
        OllamaTask \<Rightarrow>
          (let p = trim prompt_line in
           if p = [] then None
           else Some (0, ''ollama_execution'', ''ollama inference'', as_bytes p, 120))
      | StatefulTask \<Rightarrow>
          Some (1, ''blender_execution'', ''blender scene render'', as_bytes ''demo-payload'', 30)
      | InteractiveTask \<Rightarrow>
          Some (0, ''claude_execution'', ''claude AI task'', as_bytes ''demo-payload'', 30)
      | _ \<Rightarrow> None)"

definition submit_request ::
    "string \<Rightarrow> string \<Rightarrow> i32 \<times> string \<times> string \<times> bytes \<times> nat \<Rightarrow> task_submit_request outcome" where
  "submit_request access_key uuid plan =
     (case plan of (category, cap, label, payload, timeout) \<Rightarrow>
        and_then (str_upto uuid 6) (\<lambda>short. Returns
          \<lparr>ts_access_key = access_key,
           ts_task_name = replace_char (CHR '' '') ''-'' label @ ''-'' @ short,
           ts_category = category, ts_required_capabilities = [cap], ts_payload = payload\<rparr>))"

text \<open>Sending the request and reading the answer: the id of the accepted task, or back to the
  menu.\<close>

definition submit_to_hub ::
    "codecs \<Rightarrow> task_submit_request \<Rightarrow> (bytes \<Rightarrow> string + unit) \<Rightarrow> string + bytes \<Rightarrow> string option cli" where
  "submit_to_hub cs req send received =
     (case send_framed 12 (c_submit_req cs) req send of
        Inl _ \<Rightarrow> Continues None
      | Inr _ \<Rightarrow>
        (case recv_framed received of
           Inl _ \<Rightarrow> Continues None
         | Inr (resp_type, payload) \<Rightarrow>
             if resp_type \<noteq> 13 then Continues None
             else (case cd_decode (c_submit_resp cs) payload of
                     Inl _ \<Rightarrow> CliPanics
                   | Inr resp \<Rightarrow>
                       if \<not> ta_accepted resp then Continues None
                       else Continues (Some (ta_task_id resp)))))"

subsection \<open>Watching progress\<close>

datatype watch_end =
    WatchCompleted string
  | WatchFailed string
  | WatchError string
  | WatchTimedOut
  | StillWatching

text \<open>The nearest \<open>f32\<close> number to 0.1.\<close>

definition tenth :: fp where "tenth = Fin (13421773 / 134217728)"

definition status_str :: "i32 \<Rightarrow> string" where
  "status_str s =
     (if s = 0 then ''Pending'' else if s = 1 then ''Running'' else if s = 2 then ''Completed''
      else if s = 3 then ''Failed'' else ''Unknown'')"

text \<open>The progress report in a received frame, if it is one for this task.\<close>

definition own_progress :: "codecs \<Rightarrow> string \<Rightarrow> bytes \<Rightarrow> task_progress option" where
  "own_progress cs task_id s =
     (if length s < 5 then None
      else if s ! 4 \<noteq> 7 then None
      else if length s < 5 + frame_len s then None
      else (case cd_decode (c_progress cs) (take (frame_len s) (drop 5 s)) of
              Inl _ \<Rightarrow> None
            | Inr p \<Rightarrow> if tp_task_id p \<noteq> task_id then None else Some p))"

text \<open>The loop over the clock readings and receives: the lines printed and how it ends.\<close>

fun watch_progress ::
    "codecs \<Rightarrow> rounding \<Rightarrow> string \<Rightarrow> nat \<Rightarrow> fp \<Rightarrow> (nat \<times> recv_result) list \<Rightarrow>
     (string \<times> fp) list \<times> watch_end" where
  "watch_progress cs rnd task_id deadline last_pct [] = ([], StillWatching)"
| "watch_progress cs rnd task_id deadline last_pct ((now, r) # rest) =
     (if \<not> now < deadline then ([], WatchTimedOut)
      else
        (case r of
           RecvTimedOut \<Rightarrow> watch_progress cs rnd task_id deadline last_pct rest
         | RecvError e \<Rightarrow> ([], WatchError e)
         | Received s \<Rightarrow>
           (case own_progress cs task_id s of
              None \<Rightarrow> watch_progress cs rnd task_id deadline last_pct rest
            | Some p \<Rightarrow>
              (let pct = tp_progress_percentage p;
                   shown = tenth < fp_abs (fp_sub rnd pct last_pct) \<or> tp_status p \<noteq> 1;
                   line = (if shown then [(status_str (tp_status p), pct)] else []);
                   last' = (if shown then pct else last_pct)
               in if tp_status p = 2 then (line, WatchCompleted (tp_result_text p))
                  else if tp_status p = 3 then (line, WatchFailed (tp_error_message p))
                  else (case watch_progress cs rnd task_id deadline last' rest of
                          (ls, e) \<Rightarrow> (line @ ls, e))))))"

subsection \<open>The watch as a search\<close>

text \<open>The reference: the first event that ends the watch, and how.\<close>

definition watch_verdict :: "codecs \<Rightarrow> string \<Rightarrow> nat \<Rightarrow> nat \<times> recv_result \<Rightarrow> watch_end option" where
  "watch_verdict cs task_id deadline ev =
     (case ev of (now, r) \<Rightarrow>
        if deadline \<le> now then Some WatchTimedOut
        else (case r of
                RecvTimedOut \<Rightarrow> None
              | RecvError e \<Rightarrow> Some (WatchError e)
              | Received s \<Rightarrow>
                (case own_progress cs task_id s of
                   None \<Rightarrow> None
                 | Some p \<Rightarrow>
                     if tp_status p = 2 then Some (WatchCompleted (tp_result_text p))
                     else if tp_status p = 3 then Some (WatchFailed (tp_error_message p))
                     else None)))"

lemma own_progress_frame:
  "carries (c_progress cs) p \<Longrightarrow>
   own_progress cs i (frame_msg 7 (c_progress cs) p) = (if tp_task_id p = i then Some p else None)"
  by (simp add: own_progress_def carries_def frame_msg_def frame_len_build_frame)

lemma watch_verdict_at:
  "watch_verdict cs task_id deadline (now, r) =
     (if deadline \<le> now then Some WatchTimedOut
      else (case r of
              RecvTimedOut \<Rightarrow> None
            | RecvError e \<Rightarrow> Some (WatchError e)
            | Received s \<Rightarrow>
              (case own_progress cs task_id s of
                 None \<Rightarrow> None
               | Some p \<Rightarrow>
                   if tp_status p = 2 then Some (WatchCompleted (tp_result_text p))
                   else if tp_status p = 3 then Some (WatchFailed (tp_error_message p))
                   else None)))"
  by (simp add: watch_verdict_def)

lemma snd_case: "snd (case w of (ls, e) \<Rightarrow> (f ls, e)) = snd w"
  by (simp split: prod.split)

lemma watch_is_search:
  "snd (watch_progress cs rnd task_id deadline last_pct evs) =
     (case List.map_filter (watch_verdict cs task_id deadline) evs of
        [] \<Rightarrow> StillWatching | v # _ \<Rightarrow> v)"
proof (induction evs arbitrary: last_pct)
  case Nil
  then show ?case by (simp add: List.map_filter_simps)
next
  case (Cons ev evs)
  obtain now r where ev: "ev = (now, r)" by fastforce
  show ?case
  proof (cases "now < deadline")
    case False
    then show ?thesis by (simp add: ev List.map_filter_simps watch_verdict_at)
  next
    case True
    show ?thesis
    proof (cases r)
      case (Received s)
      with True Cons.IH show ?thesis
        by (cases "own_progress cs task_id s")
          (auto simp: ev List.map_filter_simps watch_verdict_at Let_def snd_case)
    qed (use True Cons.IH in \<open>simp_all add: ev List.map_filter_simps watch_verdict_at\<close>)
  qed
qed

lemma first_hit:
  assumes "d \<noteq> v"
  shows "(case List.map_filter f xs of [] \<Rightarrow> d | u # _ \<Rightarrow> u) = v \<longleftrightarrow>
    (\<exists>pre x post. xs = pre @ x # post \<and> List.map_filter f pre = [] \<and> f x = Some v)"
proof (induction xs)
  case Nil
  with assms show ?case by (simp add: List.map_filter_simps)
next
  case (Cons y xs)
  show ?case
  proof (cases "f y")
    case None
    have "(\<exists>pre x post. y # xs = pre @ x # post \<and> List.map_filter f pre = [] \<and> f x = Some v) \<longleftrightarrow>
        (\<exists>pre x post. xs = pre @ x # post \<and> List.map_filter f pre = [] \<and> f x = Some v)"
    proof
      assume "\<exists>pre x post. y # xs = pre @ x # post \<and> List.map_filter f pre = [] \<and> f x = Some v"
      then obtain pre x post where e: "y # xs = pre @ x # post" "List.map_filter f pre = []"
        "f x = Some v" by blast
      with None obtain pre' where "pre = y # pre'" by (cases pre) auto
      with e None show "\<exists>pre x post. xs = pre @ x # post \<and> List.map_filter f pre = [] \<and> f x = Some v"
        by (auto simp: List.map_filter_simps)
    next
      assume "\<exists>pre x post. xs = pre @ x # post \<and> List.map_filter f pre = [] \<and> f x = Some v"
      then obtain pre x post where "xs = pre @ x # post" "List.map_filter f pre = []" "f x = Some v"
        by blast
      with None show "\<exists>pre x post. y # xs = pre @ x # post \<and> List.map_filter f pre = [] \<and> f x = Some v"
        by (intro exI [of _ "y # pre"]) (simp add: List.map_filter_simps)
    qed
    with None Cons.IH show ?thesis by (simp add: List.map_filter_simps)
  next
    case (Some u)
    have "(\<exists>pre x post. y # xs = pre @ x # post \<and> List.map_filter f pre = [] \<and> f x = Some v) \<longleftrightarrow> u = v"
    proof
      assume "\<exists>pre x post. y # xs = pre @ x # post \<and> List.map_filter f pre = [] \<and> f x = Some v"
      then obtain pre x post where e: "y # xs = pre @ x # post" "List.map_filter f pre = []"
        "f x = Some v" by blast
      with Some have "pre = []" by (cases pre) (auto simp: List.map_filter_simps)
      with e Some show "u = v" by simp
    next
      assume "u = v"
      with Some show "\<exists>pre x post. y # xs = pre @ x # post \<and> List.map_filter f pre = [] \<and> f x = Some v"
        by (intro exI [of _ "[]"]) (simp add: List.map_filter_simps)
    qed
    with Some show ?thesis by (simp add: List.map_filter_simps)
  qed
qed

subsection \<open>Properties\<close>

text \<open>C26: The client reports success truthfully: the watch ends with the completion of the task
  and the result text \<open>res\<close> exactly when, before the deadline, it receives a whole frame of
  type 7 that decodes to a completed report of this very task with that text, and nothing
  before it ended the watch (no passed deadline, socket error, or final report of the task);
  frames of any other content, truncated ones included, are skipped.\<close>

theorem watch_completes_iff:
  "snd (watch_progress cs rnd task_id deadline last_pct evs) = WatchCompleted res \<longleftrightarrow>
     (\<exists>pre now s p post. evs = pre @ (now, Received s) # post \<and> now < deadline \<and>
        own_progress cs task_id s = Some p \<and> tp_status p = status_i32 COMPLETED \<and>
        tp_result_text p = res \<and>
        List.map_filter (watch_verdict cs task_id deadline) pre = [])"
proof -
  have at: "watch_verdict cs task_id deadline ev = Some (WatchCompleted res) \<longleftrightarrow>
      (\<exists>now s p. ev = (now, Received s) \<and> now < deadline \<and> own_progress cs task_id s = Some p \<and>
         tp_status p = status_i32 COMPLETED \<and> tp_result_text p = res)" for ev
  proof -
    obtain now r where ev: "ev = (now, r)" by fastforce
    show ?thesis
    proof (cases r)
      case (Received s)
      then show ?thesis
        by (cases "own_progress cs task_id s") (auto simp: ev watch_verdict_at not_le)
    qed (simp_all add: ev watch_verdict_at)
  qed
  have "snd (watch_progress cs rnd task_id deadline last_pct evs) = WatchCompleted res \<longleftrightarrow>
      (\<exists>pre x post. evs = pre @ x # post \<and>
         List.map_filter (watch_verdict cs task_id deadline) pre = [] \<and>
         watch_verdict cs task_id deadline x = Some (WatchCompleted res))"
    unfolding watch_is_search by (rule first_hit) simp
  then show ?thesis unfolding at by blast
qed

end
