(* ===== verification/Swarm.thy ===== *)
theory Swarm
  imports HubGuarantees WorkerProperties NodeRole NngServer MediumCli
begin

text \<open>
  The components put together: the authentication server as the peer of a node's handshake, and
  a task's reports on their way from a worker back to the hub and to the client that watches
  it. The properties that span components are in the root theory.
\<close>

subsection \<open>The handshake\<close>

text \<open>What the worker receives when the hub answers a frame.\<close>

definition reply_of :: "auth_out served \<Rightarrow> string + bytes" where
  "reply_of r =
     (case r of
        Serving out \<Rightarrow> (case ao_reply out of Some f \<Rightarrow> Inr f | None \<Rightarrow> Inl ''timed out'')
      | _ \<Rightarrow> Inl ''closed'')"

text \<open>The authentication server as the peer of one handshake attempt: it draws the token, then
  answers the response in the state the join has left it in.\<close>

definition hub_peer ::
    "('sk, 'vk, 'sg) hub_env \<Rightarrow> hub \<Rightarrow> bytes \<Rightarrow> u64 \<Rightarrow> string \<Rightarrow> attempt_io" where
  "hub_peer env h token ts uuid =
     \<lparr>ai_open = Inr (), ai_send_join = Inr (),
      ai_recv_challenge = (\<lambda>join. reply_of
        (auth_turn env h AwaitJoin token ts uuid (\<lambda>_. Inr ()) (Received join))),
      ai_send_response = Inr (),
      ai_recv_result = (\<lambda>join resp.
        (case auth_turn env h AwaitJoin token ts uuid (\<lambda>_. Inr ()) (Received join) of
           Serving out \<Rightarrow> reply_of
             (auth_turn env (ao_hub out) (ao_phase out) token ts uuid (\<lambda>_. Inr ()) (Received resp))
         | _ \<Rightarrow> Inl ''closed''))\<rparr>"

lemma read_reply_frame:
  "carries c m \<Longrightarrow> read_reply t a b d c (frame_msg t c m) = Returns (Inr m)"
  by (simp add: read_reply_def slice_frame_msg decode_carried frame_msg_long [THEN leD])

lemma auth_join_frame:
  "auth_turn env h AwaitJoin token ts uuid (\<lambda>_. Inr ()) (Received (join_frame c)) =
     Serving \<lparr>ao_hub = h, ao_phase = AwaitResponse token, ao_reply = Some
       (frame_msg 2 (c_challenge (he_codecs env)) \<lparr>hc_high_entropy_token = token, hc_timestamp = ts\<rparr>)\<rparr>"
  by (simp add: auth_join_def join_frame_def auth_send_def)

lemma auth_response_frame:
  assumes "carries (c_response (he_codecs env)) resp"
    and "auth_verdict env h token resp = (h1, ok, n, reason)"
  shows "auth_turn env h (AwaitResponse token) tok ts uuid (\<lambda>_. Inr ())
      (Received (frame_msg 3 (c_response (he_codecs env)) resp)) =
    Serving \<lparr>ao_hub = h1, ao_phase = AwaitJoin, ao_reply = Some
      (frame_msg 4 (c_result (he_codecs env)) (auth_result ok uuid n reason))\<rparr>"
  using assms
  by (simp add: auth_response_def slice_frame_msg decode_carried auth_send_def frame_msg_long [THEN leD])

lemma verdict_on_own_response:
  assumes "crypto_laws (he_crypto env)" and "we_crypto w = he_crypto env"
  shows "\<exists>h1. auth_verdict env h token (response_msg w c
      (get_public_key (we_crypto w) (nc_secure_element c)) th token) = (h1, True, nc_node_id c, [])"
  using verify_signed [OF assms(1), of "nc_secure_element c" token]
  by (simp add: auth_verdict_def response_msg_def assms(2) Let_def)

subsection \<open>Progress back to the hub\<close>

text \<open>The progress server over a sequence of frames: the final hub and all it has published;
  \<open>None\<close> when it stops or crashes.\<close>

fun progress_run ::
    "('sk, 'vk, 'sg) hub_env \<Rightarrow> hub \<Rightarrow> bytes list \<Rightarrow> (hub \<times> bytes list) option" where
  "progress_run env h [] = Some (h, [])"
| "progress_run env h (f # fs) =
     (case progress_turn env h (Received f) of
        Serving (h1, ps) \<Rightarrow>
          map_option (\<lambda>(h2, qs). (h2, ps @ qs)) (progress_run env h1 fs)
      | _ \<Rightarrow> None)"

lemma task_turn_frame:
  assumes "carries (c_task (we_codecs w)) t" and "execute_task w t = (ps, Returns ())"
  shows "task_turn w (Inr (Some (frame_msg 6 (c_task (we_codecs w)) t))) =
    (map (send_progress w) ps, GoOn)"
  using assms by (simp add: task_turn_def read_body_frame_msg) (simp add: carries_def)

lemma send_progress_frame:
  "we_codecs w = he_codecs env \<Longrightarrow> send_progress w p = frame_msg 7 (c_progress (he_codecs env)) p"
  by (simp add: send_progress_def)

lemma progress_result_simps:
  "progress_result (progress_msg i COMPLETED pct c e r) = Some Success"
  "progress_result (progress_msg i RUNNING pct c e r) =
     (if c = [] then None else Some (CheckpointSaved c))"
  "progress_result (progress_msg i FAILED pct c e r) =
     (if c = [] then None else Some (CheckpointSaved c))"
  by (simp_all add: progress_result_def)

text \<open>What a watching client makes of a published report.\<close>

lemma watch_own_terminal:
  assumes "carries (c_progress cs) p" and "now < deadline" and "tp_task_id p = i"
  shows "watch_verdict cs i deadline (now, Received (frame_msg 7 (c_progress cs) p)) =
    (if tp_status p = 2 then Some (WatchCompleted (tp_result_text p))
     else if tp_status p = 3 then Some (WatchFailed (tp_error_message p)) else None)"
  using assms by (simp add: watch_verdict_at own_progress_frame)

lemma progress_run_step:
  assumes "carries (c_progress (he_codecs env)) p"
  shows "progress_run env h (frame_msg 7 (c_progress (he_codecs env)) p # fs) =
    map_option (\<lambda>(h2, qs). (h2, published_to h (frame_msg 7 (c_progress (he_codecs env)) p) @ qs))
      (progress_run env
        (case progress_result p of
           None \<Rightarrow> h
         | Some res \<Rightarrow> h\<lparr>hub_scheduler := update_task_progress (hub_scheduler h) (tp_task_id p) res\<rparr>) fs)"
  by (simp add: progress_turn_frame [OF assms])

definition published_all :: "hub \<Rightarrow> bytes list \<Rightarrow> bytes list" where
  "published_all h fs = (if hub_progress_pub h = None then [] else fs)"

lemma published_to_append:
  "published_to h f = published_all h [f]"
  "published_all h fs @ published_all h gs = published_all h (fs @ gs)"
  "published_all (h\<lparr>hub_scheduler := s\<rparr>) fs = published_all h fs"
  "published_all h [] = []"
  by (simp_all add: published_to_def published_all_def)

lemma progress_run_simulated:
  fixes t :: task and h :: hub
  assumes "we_codecs w = he_codecs env"
    and "\<forall>p\<in>set (simulated_reports td). carries (c_progress (he_codecs env)) p"
  shows "progress_run env h (map (send_progress w) (simulated_reports td)) =
    Some (h\<lparr>hub_scheduler := update_task_progress
        (if td_category td = category_i32 STATEFUL_LONG_RUNNING
         then update_task_progress (hub_scheduler h) (td_task_id td) (CheckpointSaved [88, 99, 111, 222])
         else hub_scheduler h) (td_task_id td) Success\<rparr>,
      published_all h (map (send_progress w) (simulated_reports td)))"
  using assms
  by (simp add: simulated_reports_def send_progress_frame progress_run_step progress_result_simps
      published_to_append del: progress_run.simps(2))

lemma progress_run_ollama:
  fixes h :: hub
  assumes "we_codecs w = he_codecs env"
    and "\<forall>p\<in>set (ollama_reports td response). carries (c_progress (he_codecs env)) p"
  shows "progress_run env h (map (send_progress w) (ollama_reports td response)) =
    Some (h\<lparr>hub_scheduler := update_task_progress (hub_scheduler h) (td_task_id td) Success\<rparr>,
      published_all h (map (send_progress w) (ollama_reports td response)))"
  using assms
  by (simp add: ollama_reports_def send_progress_frame progress_run_step progress_result_simps
      published_to_append del: progress_run.simps(2))

text \<open>A node for concrete instances.\<close>

definition demo_client :: "u8 nng_client" where
  "demo_client = \<lparr>nc_auth_endpoint = [], nc_task_endpoint = [], nc_heartbeat_endpoint = [],
     nc_progress_endpoint = [], nc_node_id = ''n1'', nc_secure_element = \<lparr>signing_key = 7\<rparr>\<rparr>"

end
