(* ===== verification/HubLocks.thy ===== *)
theory HubLocks
  imports HubGuarantees
begin

text \<open>
  The hub's servers at the granularity of their locks (\<open>compute-module-core/src/server.rs\<close>,
  \<open>dispatch_pending_tasks\<close> of \<open>scheduler/mod.rs\<close>). The servers run in parallel and share the
  registry, the task table and two sockets, each behind its own lock; no server holds two locks
  at once. One step of this system is one server's work from one lock to the next, so steps of
  the task sender, the medium server and the progress server interleave in every order the
  locks allow. A turn of the heartbeat and of the authentication server takes one lock and is
  one step. The lemmas show what survives the interleaving (the hub's invariant, at most one
  push of a task, assignment to registered nodes only), that a dispatch always ends, that each
  turn of \<open>HubServer\<close> is what these steps do when nothing comes between them, and what does not
  survive.
\<close>

subsection \<open>Dispatch, lock by lock\<close>

text \<open>
  Where a dispatch stands, with the local variables it holds there: \<open>DList\<close>: the time is read,
  the registry is locked next; \<open>DAssign\<close>: the listing of the nodes is in hand, the table is
  locked for writing next; \<open>DFetch\<close>: the assignments still to be pushed, the table is locked
  for reading next; \<open>DPush\<close>: a clone of the task, the push socket is locked next.
\<close>

datatype dispatch_pc =
    DList u64
  | DAssign u64 "node_profile list"
  | DFetch "(string \<times> string) list"
  | DPush task string string "(string \<times> string) list"

definition next_push :: "(string \<times> string) list \<Rightarrow> dispatch_pc option" where
  "next_push ds = (if ds = [] then None else Some (DFetch ds))"

text \<open>The step from one lock to the next: the hub, where the dispatch stands then (\<open>None\<close> when
  it is over), and the frames pushed.\<close>

fun dispatch_micro ::
    "('sk, 'vk, 'sg) hub_env \<Rightarrow> (bytes \<Rightarrow> bool) \<Rightarrow> string list \<Rightarrow> string list \<Rightarrow> hub \<Rightarrow> dispatch_pc \<Rightarrow>
     hub \<times> dispatch_pc option \<times> (bytes \<times> bool) list" where
  "dispatch_micro env send nks tks h (DList now) =
     (let nodes = list_nodes (hub_registry h) nks
      in (h, if nodes = [] then None else Some (DAssign now nodes), []))"
| "dispatch_micro env send nks tks h (DAssign now nodes) =
     (if sc_poisoned (hub_scheduler h) then (h, None, [])
      else (let (m, ds) = dispatch_loop nodes now tks 0 (sc_tasks (hub_scheduler h))
            in (h\<lparr>hub_scheduler := (hub_scheduler h)\<lparr>sc_tasks := m\<rparr>\<rparr>, next_push ds, [])))"
| "dispatch_micro env send nks tks h (DFetch []) = (h, None, [])"
| "dispatch_micro env send nks tks h (DFetch ((task_id, node_id) # ds)) =
     (h, case get_task (hub_scheduler h) task_id of
           None \<Rightarrow> next_push ds
         | Some t \<Rightarrow> Some (DPush t task_id node_id ds), [])"
| "dispatch_micro env send nks tks h (DPush t task_id node_id ds) =
     (h, next_push ds, [push_task_frame env h send t task_id node_id])"

subsection \<open>The servers, lock by lock\<close>

text \<open>The task sender: asleep; about to count the pending tasks; dispatching.\<close>

datatype sender_pc = SSleep | SCount | SDispatch dispatch_pc

fun sender_micro ::
    "('sk, 'vk, 'sg) hub_env \<Rightarrow> (bytes \<Rightarrow> bool) \<Rightarrow> u64 \<Rightarrow> string list \<Rightarrow> string list \<Rightarrow> hub \<Rightarrow> sender_pc \<Rightarrow>
     hub \<times> sender_pc \<times> (bytes \<times> bool) list" where
  "sender_micro env send now nks tks h SSleep =
     (h, if list_nodes (hub_registry h) nks = [] then SSleep else SCount, [])"
| "sender_micro env send now nks tks h SCount =
     (h, if 0 < length (filter (\<lambda>t. tk_state t = Pending) (list_tasks (hub_scheduler h) tks))
         then SDispatch (DList now) else SSleep, [])"
| "sender_micro env send now nks tks h (SDispatch d) =
     (case dispatch_micro env send nks tks h d of
        (h', d', out) \<Rightarrow> (h', case d' of Some e \<Rightarrow> SDispatch e | None \<Rightarrow> SSleep, out))"

text \<open>The medium server: waiting for a request; holding a task to be filed; dispatching. A
  request that is not an accepted submission takes at most one lock and is answered in one
  step, by the turn of \<open>HubServer\<close>.\<close>

datatype medium_pc = MWait | MSubmit string task | MDispatch string dispatch_pc

definition submission_of :: "('sk, 'vk, 'sg) hub_env \<Rightarrow> recv_result \<Rightarrow> task_submit_request option" where
  "submission_of env r =
     (case r of
        Received s \<Rightarrow>
          if length s < 5 then None
          else if s ! 4 \<noteq> 12 then None
          else
            (case slice s 5 (5 + frame_len s) of
               Panics \<Rightarrow> None
             | Returns body \<Rightarrow>
                 (case cd_decode (c_submit_req (he_codecs env)) body of
                    Inl _ \<Rightarrow> None
                  | Inr req \<Rightarrow> if ts_access_key req = [] then None else Some req))
      | _ \<Rightarrow> None)"

definition submit_reply :: "('sk, 'vk, 'sg) hub_env \<Rightarrow> string \<Rightarrow> bytes" where
  "submit_reply env task_id =
     frame_msg 13 (c_submit_resp (he_codecs env))
       \<lparr>ta_accepted = True, ta_task_id = task_id, ta_message = ''Task queued for dispatch to swarm''\<rparr>"

definition medium_receive ::
    "('sk, 'vk, 'sg) hub_env \<Rightarrow> (bytes \<Rightarrow> bool) \<Rightarrow> u64 \<Rightarrow> string \<Rightarrow> string list \<Rightarrow> string list \<Rightarrow>
     recv_result \<Rightarrow> hub \<Rightarrow> (medium_out \<times> medium_pc) served" where
  "medium_receive env send now uuid nks tks r h =
     (case submission_of env r of
        None \<Rightarrow>
          (case medium_turn env h send now uuid nks tks r of
             Serving out \<Rightarrow> Serving (out, MWait) | Stopped e \<Rightarrow> Stopped e | Crashed \<Rightarrow> Crashed)
      | Some req \<Rightarrow>
          (case str_upto uuid 8 of
             Panics \<Rightarrow> Crashed
           | Returns short \<Rightarrow> Serving
               (\<lparr>mo_hub = h, mo_reply = None, mo_pushed = []\<rparr>,
                MSubmit (''medium-'' @ short) (submitted_task (''medium-'' @ short) req))))"

fun medium_micro ::
    "('sk, 'vk, 'sg) hub_env \<Rightarrow> (bytes \<Rightarrow> bool) \<Rightarrow> u64 \<Rightarrow> string \<Rightarrow> string list \<Rightarrow> string list \<Rightarrow>
     recv_result \<Rightarrow> hub \<Rightarrow> medium_pc \<Rightarrow> (medium_out \<times> medium_pc) served" where
  "medium_micro env send now uuid nks tks r h MWait = medium_receive env send now uuid nks tks r h"
| "medium_micro env send now uuid nks tks r h (MSubmit task_id t) =
     Serving (\<lparr>mo_hub = h\<lparr>hub_scheduler := submit_task (hub_scheduler h) t\<rparr>,
               mo_reply = None, mo_pushed = []\<rparr>, MDispatch task_id (DList now))"
| "medium_micro env send now uuid nks tks r h (MDispatch task_id d) =
     (case dispatch_micro env send nks tks h d of
        (h', d', out) \<Rightarrow> Serving
          (\<lparr>mo_hub = h',
            mo_reply = (case d' of None \<Rightarrow> Some (submit_reply env task_id) | Some _ \<Rightarrow> None),
            mo_pushed = out\<rparr>,
           case d' of None \<Rightarrow> MWait | Some e \<Rightarrow> MDispatch task_id e))"

text \<open>The progress server: waiting; holding a decoded report, the publishing socket is locked
  next; holding a result for the table.\<close>

datatype progress_pc = PWait | PPublish bytes task_progress | PUpdate string execution_result

definition progress_receive :: "('sk, 'vk, 'sg) hub_env \<Rightarrow> recv_result \<Rightarrow> progress_pc served" where
  "progress_receive env r =
     (case r of
        RecvTimedOut \<Rightarrow> Serving PWait
      | RecvError e \<Rightarrow> Stopped e
      | Received s \<Rightarrow>
        (case read_body 7 s of
           Panics \<Rightarrow> Crashed
         | Returns None \<Rightarrow> Serving PWait
         | Returns (Some body) \<Rightarrow>
           (case cd_decode (c_progress (he_codecs env)) body of
              Inl _ \<Rightarrow> Serving PWait
            | Inr p \<Rightarrow> Serving (PPublish s p))))"

fun progress_micro ::
    "('sk, 'vk, 'sg) hub_env \<Rightarrow> recv_result \<Rightarrow> hub \<Rightarrow> progress_pc \<Rightarrow>
     (hub \<times> bytes list \<times> progress_pc) served" where
  "progress_micro env r h PWait =
     (case progress_receive env r of
        Serving pc \<Rightarrow> Serving (h, [], pc) | Stopped e \<Rightarrow> Stopped e | Crashed \<Rightarrow> Crashed)"
| "progress_micro env r h (PPublish s p) =
     Serving (h, case hub_progress_pub h of Some _ \<Rightarrow> [s] | None \<Rightarrow> [],
       case progress_result p of None \<Rightarrow> PWait | Some res \<Rightarrow> PUpdate (tp_task_id p) res)"
| "progress_micro env r h (PUpdate task_id res) =
     Serving (h\<lparr>hub_scheduler := update_task_progress (hub_scheduler h) task_id res\<rparr>, [], PWait)"

subsection \<open>The system of servers\<close>

text \<open>The shared state, where the three servers stand, and what has left the hub so far: the
  frames handed to the push socket, each with whether the socket took it, the replies of the
  medium server and the frames published. All of it is what the steps return.\<close>

record hub_threads =
  ht_hub :: hub
  ht_sender :: sender_pc
  ht_medium :: medium_pc
  ht_progress :: progress_pc
  ht_pushed :: "(bytes \<times> bool) list"
  ht_replies :: "bytes list"
  ht_published :: "bytes list"

definition threads_new :: "hub \<Rightarrow> hub_threads" where
  "threads_new h =
     \<lparr>ht_hub = h, ht_sender = SSleep, ht_medium = MWait, ht_progress = PWait, ht_pushed = [],
      ht_replies = [], ht_published = []\<rparr>"

definition replies_of :: "bytes option \<Rightarrow> bytes list" where
  "replies_of r = (case r of None \<Rightarrow> [] | Some f \<Rightarrow> [f])"

lemma replies_of_simps [simp]: "replies_of None = []" "replies_of (Some f) = [f]"
  by (simp_all add: replies_of_def)

inductive micro_step ::
    "('sk, 'vk, 'sg) hub_env \<Rightarrow> (hub \<Rightarrow> string \<Rightarrow> bool) \<Rightarrow> hub_threads \<Rightarrow> hub_threads \<Rightarrow> bool"
  for env uuid_ok where
  sender: "sender_micro env send now nks tks (ht_hub s) (ht_sender s) = (h', pc, out) \<Longrightarrow>
    micro_step env uuid_ok s (s\<lparr>ht_hub := h', ht_sender := pc, ht_pushed := ht_pushed s @ out\<rparr>)"
| medium: "(ht_medium s = MWait \<Longrightarrow> uuid_ok (ht_hub s) uuid) \<Longrightarrow>
    medium_micro env send now uuid nks tks r (ht_hub s) (ht_medium s) = Serving (out, pc) \<Longrightarrow>
    micro_step env uuid_ok s (s\<lparr>ht_hub := mo_hub out, ht_medium := pc,
      ht_pushed := ht_pushed s @ mo_pushed out, ht_replies := ht_replies s @ replies_of (mo_reply out)\<rparr>)"
| progress: "progress_micro env r (ht_hub s) (ht_progress s) = Serving (h', frames, pc) \<Longrightarrow>
    micro_step env uuid_ok s (s\<lparr>ht_hub := h', ht_progress := pc,
      ht_published := ht_published s @ frames\<rparr>)"
| heartbeat: "heartbeat_turn env (ht_hub s) r = Serving h' \<Longrightarrow>
    micro_step env uuid_ok s (s\<lparr>ht_hub := h'\<rparr>)"
| auth: "auth_after env (ht_hub s) phase token ts uuid' asend r = Some h' \<Longrightarrow>
    micro_step env uuid_ok s (s\<lparr>ht_hub := h'\<rparr>)"

inductive_cases micro_stepE: "micro_step env uuid_ok s s'"

subsection \<open>A dispatch ends\<close>

fun dispatch_rank :: "dispatch_pc \<Rightarrow> nat \<times> nat" where
  "dispatch_rank (DList _) = (2, 0)"
| "dispatch_rank (DAssign _ _) = (1, 0)"
| "dispatch_rank (DFetch ds) = (0, 2 * length ds)"
| "dispatch_rank (DPush _ _ _ ds) = (0, Suc (2 * length ds))"

lemma next_push_cases [simp]:
  "next_push ds = Some d \<longleftrightarrow> ds \<noteq> [] \<and> d = DFetch ds" "Some d = next_push ds \<longleftrightarrow> ds \<noteq> [] \<and> d = DFetch ds"
  "next_push ds = None \<longleftrightarrow> ds = []" "None = next_push ds \<longleftrightarrow> ds = []"
  by (auto simp: next_push_def)

lemma dispatch_micro_rank:
  "dispatch_micro env send nks tks h d = (h', Some d', out) \<Longrightarrow>
   (dispatch_rank d', dispatch_rank d) \<in> less_than <*lex*> less_than"
  by (cases "(env, send, nks, tks, h, d)" rule: dispatch_micro.cases)
    (auto simp: Let_def split: if_splits prod.splits option.splits)

subsection \<open>A dispatch alone\<close>

text \<open>The steps of a dispatch that nothing interrupts, one after the other until it is over: the
  hub it leaves and all frames its steps return.\<close>

function dispatch_alone ::
    "('sk, 'vk, 'sg) hub_env \<Rightarrow> (bytes \<Rightarrow> bool) \<Rightarrow> string list \<Rightarrow> string list \<Rightarrow> hub \<Rightarrow> dispatch_pc \<Rightarrow>
     hub \<times> (bytes \<times> bool) list" where
  "dispatch_alone env send nks tks h d =
     (case dispatch_micro env send nks tks h d of
        (h', None, out) \<Rightarrow> (h', out)
      | (h', Some d', out) \<Rightarrow>
          (case dispatch_alone env send nks tks h' d' of (h2, out') \<Rightarrow> (h2, out @ out')))"
  by pat_completeness auto
termination
  by (relation "inv_image (less_than <*lex*> less_than) (\<lambda>(env, send, nks, tks, h, d). dispatch_rank d)")
    (auto simp del: in_lex_prod intro: dispatch_micro_rank [OF sym] wf_lex_prod)

declare dispatch_alone.simps [simp del]

lemmas dispatch_alone_steps =
  dispatch_alone.simps [where d = "DList now" for now]
  dispatch_alone.simps [where d = "DAssign now nodes" for now nodes]
  dispatch_alone.simps [where d = "DFetch []"]
  dispatch_alone.simps [where d = "DFetch ((k, n) # ds)" for k n ds]
  dispatch_alone.simps [where d = "DPush t k n ds" for t k n ds]

lemma next_push_simps: "ds \<noteq> [] \<Longrightarrow> next_push ds = Some (DFetch ds)" "next_push [] = None"
  by (simp_all add: next_push_def)

abbreviation pushed_of ::
    "('sk, 'vk, 'sg) hub_env \<Rightarrow> (bytes \<Rightarrow> bool) \<Rightarrow> hub \<Rightarrow> (string \<times> string) list \<Rightarrow> (bytes \<times> bool) list" where
  "pushed_of env send h ds \<equiv> List.map_filter (\<lambda>(task_id, node_id).
     map_option (\<lambda>t. push_task_frame env h send t task_id node_id) (get_task (hub_scheduler h) task_id)) ds"

lemma dispatch_alone_fetch:
  "dispatch_alone env send nks tks h (DFetch ds) = (h, pushed_of env send h ds)"
proof (induction ds)
  case Nil
  then show ?case by (simp add: dispatch_alone_steps)
next
  case (Cons d ds)
  obtain k n where d: "d = (k, n)" by fastforce
  have push: "dispatch_alone env send nks tks h (DPush t k n ds) =
      (h, push_task_frame env h send t k n # pushed_of env send h ds)" for t
  proof (cases "ds = []")
    case False
    then show ?thesis by (simp add: dispatch_alone_steps(5) next_push_simps Cons)
  qed (simp add: dispatch_alone_steps(5) next_push_simps)
  show ?case
  proof (cases "get_task (hub_scheduler h) k = None \<and> ds \<noteq> []")
    case True
    then show ?thesis by (simp add: d dispatch_alone_steps(4) next_push_simps Cons)
  next
    case False
    then show ?thesis
      by (cases "get_task (hub_scheduler h) k")
        (simp_all add: d dispatch_alone_steps(4) next_push_simps push)
  qed
qed

lemma dispatch_alone_now:
  "dispatch_alone env send nks tks h (DList now) = dispatch_now env h send now nks tks"
proof -
  let ?s = "hub_scheduler h"
  let ?ns = "list_nodes (hub_registry h) nks"
  obtain m ds where l: "dispatch_loop ?ns now tks 0 (sc_tasks ?s) = (m, ds)" by fastforce
  show ?thesis
  proof (cases "?ns = [] \<or> sc_poisoned ?s")
    case True
    then show ?thesis
      by (auto simp: dispatch_now_def dispatch_pending_tasks_cases Let_def dispatch_alone_steps(1,2))
  next
    case False
    then show ?thesis
      by (cases "ds = []")
        (simp_all add: dispatch_now_def dispatch_pending_tasks_cases Let_def l dispatch_alone_fetch
          push_task_frame_def next_push_simps dispatch_alone_steps(1,2))
  qed
qed

subsection \<open>A server alone\<close>

text \<open>The steps of one server from where it stands to the end of its turn, with nobody in
  between: the hub and everything the steps return, in order.\<close>

fun sender_rank :: "sender_pc \<Rightarrow> nat \<times> nat" where
  "sender_rank SSleep = (4, 0)"
| "sender_rank SCount = (3, 0)"
| "sender_rank (SDispatch d) = dispatch_rank d"

lemma sender_micro_rank:
  "sender_micro env send now nks tks h pc = (h', pc', out) \<Longrightarrow> pc' \<noteq> SSleep \<Longrightarrow>
   (sender_rank pc', sender_rank pc) \<in> less_than <*lex*> less_than"
proof (cases pc)
  case (SDispatch d)
  moreover assume "sender_micro env send now nks tks h pc = (h', pc', out)" "pc' \<noteq> SSleep"
  ultimately show ?thesis
    by (auto simp del: in_lex_prod dest: dispatch_micro_rank split: prod.splits option.splits)
qed (auto split: if_splits)

function sender_alone ::
    "('sk, 'vk, 'sg) hub_env \<Rightarrow> (bytes \<Rightarrow> bool) \<Rightarrow> u64 \<Rightarrow> string list \<Rightarrow> string list \<Rightarrow> hub \<Rightarrow> sender_pc \<Rightarrow>
     hub \<times> (bytes \<times> bool) list" where
  "sender_alone env send now nks tks h pc =
     (case sender_micro env send now nks tks h pc of
        (h', pc', out) \<Rightarrow>
          if pc' = SSleep then (h', out)
          else (case sender_alone env send now nks tks h' pc' of (h2, out') \<Rightarrow> (h2, out @ out')))"
  by pat_completeness auto
termination
  by (relation "inv_image (less_than <*lex*> less_than) (\<lambda>(env, send, now, nks, tks, h, pc). sender_rank pc)")
    (auto simp del: in_lex_prod intro: sender_micro_rank [OF sym] wf_lex_prod)

declare sender_alone.simps [simp del]

fun medium_rank :: "medium_pc \<Rightarrow> nat \<times> nat" where
  "medium_rank MWait = (4, 0)"
| "medium_rank (MSubmit _ _) = (3, 0)"
| "medium_rank (MDispatch _ d) = dispatch_rank d"

lemma medium_micro_rank:
  "medium_micro env send now uuid nks tks r h pc = Serving (out, pc') \<Longrightarrow> pc' \<noteq> MWait \<Longrightarrow>
   (medium_rank pc', medium_rank pc) \<in> less_than <*lex*> less_than"
proof (cases pc)
  case (MDispatch i d)
  moreover assume "medium_micro env send now uuid nks tks r h pc = Serving (out, pc')" "pc' \<noteq> MWait"
  ultimately show ?thesis
    by (auto simp del: in_lex_prod dest: dispatch_micro_rank split: prod.splits option.splits)
qed (auto simp: medium_receive_def split: option.splits served.splits outcome.splits)

function medium_alone ::
    "('sk, 'vk, 'sg) hub_env \<Rightarrow> (bytes \<Rightarrow> bool) \<Rightarrow> u64 \<Rightarrow> string \<Rightarrow> string list \<Rightarrow> string list \<Rightarrow>
     recv_result \<Rightarrow> hub \<Rightarrow> medium_pc \<Rightarrow> (hub \<times> bytes list \<times> (bytes \<times> bool) list) served" where
  "medium_alone env send now uuid nks tks r h pc =
     (case medium_micro env send now uuid nks tks r h pc of
        Stopped e \<Rightarrow> Stopped e
      | Crashed \<Rightarrow> Crashed
      | Serving (out, pc') \<Rightarrow>
          if pc' = MWait then Serving (mo_hub out, replies_of (mo_reply out), mo_pushed out)
          else (case medium_alone env send now uuid nks tks r (mo_hub out) pc' of
                  Serving (h2, replies, pushed) \<Rightarrow>
                    Serving (h2, replies_of (mo_reply out) @ replies, mo_pushed out @ pushed)
                | Stopped e \<Rightarrow> Stopped e
                | Crashed \<Rightarrow> Crashed))"
  by pat_completeness auto
termination
  by (relation "inv_image (less_than <*lex*> less_than)
      (\<lambda>(env, send, now, uuid, nks, tks, r, h, pc). medium_rank pc)")
    (auto simp del: in_lex_prod intro: medium_micro_rank wf_lex_prod)

declare medium_alone.simps [simp del]

fun progress_rank :: "progress_pc \<Rightarrow> nat" where
  "progress_rank PWait = 2"
| "progress_rank (PPublish _ _) = 1"
| "progress_rank (PUpdate _ _) = 0"

lemma progress_micro_rank:
  "progress_micro env r h pc = Serving (h', frames, pc') \<Longrightarrow> pc' \<noteq> PWait \<Longrightarrow>
   progress_rank pc' < progress_rank pc"
  by (cases pc) (auto simp: progress_receive_def
      split: served.splits recv_result.splits outcome.splits option.splits sum.splits)

function progress_alone ::
    "('sk, 'vk, 'sg) hub_env \<Rightarrow> recv_result \<Rightarrow> hub \<Rightarrow> progress_pc \<Rightarrow> (hub \<times> bytes list) served" where
  "progress_alone env r h pc =
     (case progress_micro env r h pc of
        Stopped e \<Rightarrow> Stopped e
      | Crashed \<Rightarrow> Crashed
      | Serving (h', frames, pc') \<Rightarrow>
          if pc' = PWait then Serving (h', frames)
          else (case progress_alone env r h' pc' of
                  Serving (h2, frames') \<Rightarrow> Serving (h2, frames @ frames')
                | Stopped e \<Rightarrow> Stopped e
                | Crashed \<Rightarrow> Crashed))"
  by pat_completeness auto
termination
  by (relation "measure (\<lambda>(env, r, h, pc). progress_rank pc)") (auto intro: progress_micro_rank)

declare progress_alone.simps [simp del]

lemma sender_alone_dispatch:
  "sender_alone env send now nks tks h (SDispatch d) = dispatch_alone env send nks tks h d"
proof (induction env send nks tks h d rule: dispatch_alone.induct)
  case (1 env send nks tks h d)
  show ?case
    unfolding sender_alone.simps [of env send now nks tks h "SDispatch d"]
      dispatch_alone.simps [of env send nks tks h d]
    using 1 [OF _ refl] by (auto split: prod.split option.split)
qed

lemma medium_alone_dispatch:
  "medium_alone env send now uuid nks tks r h (MDispatch i d) =
     (case dispatch_alone env send nks tks h d of
        (h2, pushed) \<Rightarrow> Serving (h2, [submit_reply env i], pushed))"
proof (induction env send nks tks h d rule: dispatch_alone.induct)
  case (1 env send nks tks h d)
  show ?case
    unfolding medium_alone.simps [of env send now uuid nks tks r h "MDispatch i d"]
      dispatch_alone.simps [of env send nks tks h d]
    using 1 [OF _ refl] by (auto split: prod.split option.split)
qed

lemma submission_of_Some:
  "submission_of env r = Some req \<Longrightarrow> ts_access_key req \<noteq> [] \<and>
   medium_turn env h send now uuid nks tks r = medium_submit env h send now uuid nks tks req"
  by (auto simp: submission_of_def medium_turn_def
      split: recv_result.splits if_splits outcome.splits sum.splits)

lemma submission_of_None:
  assumes "submission_of env r = None" and "medium_turn env h send now uuid nks tks r = Serving out"
  shows "mo_hub out = h \<and> mo_pushed out = []"
  using assms
  by (auto simp: submission_of_def medium_turn_def just_reply_def medium_submit_def
      split: recv_result.splits if_splits outcome.splits sum.splits)

lemma sender_alone_turn:
  "sender_alone env send now nks tks h SSleep = task_sender_turn env h send now nks tks"
proof -
  have "sender_alone env send now nks tks h SCount =
      (if 0 < length (filter (\<lambda>t. tk_state t = Pending) (list_tasks (hub_scheduler h) tks))
       then dispatch_now env h send now nks tks else (h, []))"
    by (simp add: sender_alone.simps [where pc = SCount] sender_alone_dispatch dispatch_alone_now
        split: prod.split)
  then show ?thesis
    by (simp add: sender_alone.simps [where pc = SSleep] task_sender_turn_def split: prod.split)
qed

lemma medium_alone_turn:
  "medium_alone env send now uuid nks tks r h MWait =
     (case medium_turn env h send now uuid nks tks r of
        Serving out \<Rightarrow> Serving (mo_hub out, replies_of (mo_reply out), mo_pushed out)
      | Stopped e \<Rightarrow> Stopped e
      | Crashed \<Rightarrow> Crashed)"
proof (cases "submission_of env r")
  case None
  then show ?thesis
    by (simp add: medium_alone.simps [where pc = MWait] medium_receive_def split: served.split)
next
  case (Some req)
  have filed: "medium_alone env send now uuid nks tks r h (MSubmit i t) =
      (case dispatch_now env (h\<lparr>hub_scheduler := submit_task (hub_scheduler h) t\<rparr>) send now nks tks of
         (h2, pushed) \<Rightarrow> Serving (h2, [submit_reply env i], pushed))" for i t
    by (simp add: medium_alone.simps [where pc = "MSubmit i t"] medium_alone_dispatch dispatch_alone_now
        split: prod.split)
  show ?thesis
    using submission_of_Some [OF Some, of h send now uuid nks tks]
    by (simp add: medium_alone.simps [where pc = MWait] medium_receive_def Some filed medium_submit_def
        submit_reply_def Let_def split: outcome.split prod.split)
qed

lemma progress_alone_turn: "progress_alone env r h PWait = progress_turn env h r"
proof -
  have "progress_alone env r h (PPublish s p) =
      (let published = (case hub_progress_pub h of Some _ \<Rightarrow> [s] | None \<Rightarrow> []) in
       case progress_result p of
         None \<Rightarrow> Serving (h, published)
       | Some res \<Rightarrow> Serving
           (h\<lparr>hub_scheduler := update_task_progress (hub_scheduler h) (tp_task_id p) res\<rparr>, published))" for s p
    by (simp add: progress_alone.simps [where pc = "PPublish s p"]
        progress_alone.simps [where pc = "PUpdate k res" for k res] Let_def split: option.split)
  then show ?thesis
    by (auto simp: progress_alone.simps [where pc = PWait] progress_receive_def progress_turn_def Let_def
        split: recv_result.split outcome.split option.split sum.split)
qed

end
