(* ===== verification/HubInterleaving.thy ===== *)
theory HubInterleaving
  imports HubLocks
begin

text \<open>
  What the interleaving of the hub's servers keeps: the invariant of the system of \<open>HubLocks\<close>,
  which accounts for every frame the steps hand to the push socket and every push a dispatch in
  progress still owes, with the properties that follow from it; that a server's turn is what its
  steps do alone; and what a dispatch loses when others step in between
  (\<open>stale_profile_dispatch\<close>).
\<close>

subsection \<open>The dispatch loop over any order\<close>

lemma chosen_node_in: "dispatchable nodes t \<Longrightarrow> chosen_node nodes i t \<in> set nodes"
  using chosen_node_capable [of nodes t i] by (simp add: set_capable_nodes)

lemma dispatch_loop_from:
  assumes "fst (dispatch_loop nodes now ks i m) k = Some t'"
  shows "m k = Some t' \<or>
    (\<exists>t p. m k = Some t \<and> tk_state t = Pending \<and> p \<in> set nodes \<and> t' = assigned now p t)"
  using assms
proof (induction ks arbitrary: i m)
  case (Cons j ks)
  show ?case
  proof (cases "\<exists>u. m j = Some u \<and> dispatchable nodes u")
    case True
    then obtain u where u: "m j = Some u" "dispatchable nodes u" by blast
    let ?a = "assigned now (chosen_node nodes i u) u"
    have "fst (dispatch_loop nodes now ks (Suc i) (m(j \<mapsto> ?a))) k = Some t'"
      using Cons.prems u by (simp add: dispatch_loop_Cons Let_def)
    from Cons.IH [OF this] show ?thesis
      using u chosen_node_in [OF u(2), of i] by (auto simp: dispatchable_def split: if_splits)
  next
    case False
    then have "dispatch_loop nodes now (j # ks) i m = dispatch_loop nodes now ks i m"
      by (auto simp: dispatch_loop_Cons split: option.split)
    with Cons show ?thesis by simp
  qed
qed simp

text \<open>The assignments of one dispatch: no task twice, each from pending to a listed node.\<close>

lemma dispatch_loop_new:
  assumes "\<forall>k t. m k = Some t \<longrightarrow> tk_id t = k"
  shows "distinct (map fst (snd (dispatch_loop nodes now ks i m))) \<and>
    (\<forall>(k, n)\<in>set (snd (dispatch_loop nodes now ks i m)).
       (\<exists>t. m k = Some t \<and> tk_state t = Pending) \<and>
       (\<exists>t. fst (dispatch_loop nodes now ks i m) k = Some t \<and> tk_state t = Running n now))"
  using assms
proof (induction ks arbitrary: i m)
  case (Cons j ks)
  show ?case
  proof (cases "\<exists>u. m j = Some u \<and> dispatchable nodes u")
    case True
    then obtain u where u: "m j = Some u" "dispatchable nodes u" by blast
    let ?p = "chosen_node nodes i u"
    let ?m = "m(j \<mapsto> assigned now ?p u)"
    let ?r = "dispatch_loop nodes now ks (Suc i) ?m"
    have keyed: "\<forall>k t. ?m k = Some t \<longrightarrow> tk_id t = k" using Cons.prems u(1) by auto
    have e: "dispatch_loop nodes now (j # ks) i m = (fst ?r, (j, np_node_id ?p) # snd ?r)"
      using u Cons.prems by (simp add: dispatch_loop_Cons Let_def)
    obtain m2 ds where r: "?r = (m2, ds)" by fastforce
    note ih = Cons.IH [OF keyed, of "Suc i", unfolded r fst_conv snd_conv]
    have d: "distinct (map fst ds)" using ih by (rule conjunct1)
    have old: "\<exists>t. ?m k = Some t \<and> tk_state t = Pending"
      and after: "\<exists>t. m2 k = Some t \<and> tk_state t = Running n now" if "(k, n) \<in> set ds" for k n
      using bspec [OF conjunct2 [OF ih] that] by simp_all
    have "False" if "(j, n) \<in> set ds" for n using old [OF that] by simp
    then have new: "j \<notin> fst ` set ds" by auto
    have before: "\<exists>t. m k = Some t \<and> tk_state t = Pending" if "(k, n) \<in> set ds" for k n
      using old [OF that] new that by (cases "k = j") force+
    have "?m j = Some (assigned now ?p u)" by simp
    from dispatch_loop_entry [where m = ?m, OF this, of nodes now ks "Suc i"] have
      "\<exists>t. m2 j = Some t \<and> tk_state t = Running (np_node_id ?p) now"
      unfolding r by auto
    with d after new before u show ?thesis
      unfolding e r by (auto simp: dispatchable_def)
  next
    case False
    then have "dispatch_loop nodes now (j # ks) i m = dispatch_loop nodes now ks i m"
      by (auto simp: dispatch_loop_Cons split: option.split)
    with Cons show ?thesis by simp
  qed
qed simp

subsection \<open>What the servers never undo\<close>

definition assigned_to :: "hub \<Rightarrow> string \<Rightarrow> string \<Rightarrow> bool" where
  "assigned_to h k n \<longleftrightarrow> (\<exists>t since. get_task (hub_scheduler h) k = Some t \<and> kept_or_done n since t)"

text \<open>Every running task runs on a registered node.\<close>

definition running_registered :: "hub \<Rightarrow> bool" where
  "running_registered h \<longleftrightarrow> (\<forall>k t n since. get_task (hub_scheduler h) k = Some t \<longrightarrow>
     tk_state t = Running n since \<longrightarrow> get_node (hub_registry h) n \<noteq> None)"

definition hub_ok :: "hub \<Rightarrow> bool" where
  "hub_ok h \<longleftrightarrow> hub_inv h \<and> registry_ok (hub_registry h) \<and> scheduler_ok (hub_scheduler h) \<and>
     running_registered h"

text \<open>From one hub to a later one: nodes stay registered, assigned tasks stay with their node
  or are done, and no task id is filed except those of \<open>new\<close>.\<close>

definition grows :: "string set \<Rightarrow> hub \<Rightarrow> hub \<Rightarrow> bool" where
  "grows new h h' \<longleftrightarrow> hub_ok h' \<and>
     (\<forall>k. get_node (hub_registry h) k \<noteq> None \<longrightarrow> get_node (hub_registry h') k \<noteq> None) \<and>
     (\<forall>k n. assigned_to h k n \<longrightarrow> assigned_to h' k n) \<and>
     (\<forall>k. get_task (hub_scheduler h) k = None \<longrightarrow> k \<notin> new \<longrightarrow> get_task (hub_scheduler h') k = None)"

lemma grows_refl: "hub_ok h \<Longrightarrow> grows new h h"
  by (simp add: grows_def)

lemma grows_ok: "grows new h h' \<Longrightarrow> hub_ok h'"
  by (simp add: grows_def)

lemma grows_assigned: "grows new h h' \<Longrightarrow> assigned_to h k n \<Longrightarrow> assigned_to h' k n"
  by (simp add: grows_def)

lemma grows_register:
  assumes "hub_ok h"
  shows "grows new h (h\<lparr>hub_registry := register_node (hub_registry h) p\<rparr>)"
  using assms
  by (simp add: grows_def hub_ok_def hub_inv_def registry_inv_register running_registered_def
      assigned_to_def store_simps)

lemma grows_thumbprint:
  assumes "hub_ok h" and "th \<notin> set (hub_thumbprints h)"
  shows "grows new h (h\<lparr>hub_thumbprints := hub_thumbprints h @ [th]\<rparr>)"
  using assms
  by (simp add: grows_def hub_ok_def hub_inv_def running_registered_def assigned_to_def)

lemma grows_update:
  assumes "hub_ok h" and "res = Success \<or> (\<exists>c. res = CheckpointSaved c)"
  shows "grows new h (h\<lparr>hub_scheduler := update_task_progress (hub_scheduler h) k res\<rparr>)"
proof -
  have "kept_or_done n since t \<Longrightarrow> kept_or_done n since (apply_result res t)" for n since t
    using assms(2) by (auto simp: kept_or_done_def)
  then have "assigned_to h j n \<Longrightarrow> assigned_to (h\<lparr>hub_scheduler := update_task_progress (hub_scheduler h) k res\<rparr>) j n" for j n
    by (fastforce simp: assigned_to_def store_simps)
  moreover have "running_registered (h\<lparr>hub_scheduler := update_task_progress (hub_scheduler h) k res\<rparr>)"
    using assms by (auto simp: hub_ok_def running_registered_def store_simps)
  ultimately show ?thesis
    using assms(1) by (simp add: grows_def hub_ok_def hub_inv_def sched_inv_update store_simps)
qed

lemma grows_submit:
  assumes "hub_ok h" and "get_task (hub_scheduler h) (tk_id t) = None" and "tk_state t = Pending"
    and "task_ok t"
  shows "grows {tk_id t} h (h\<lparr>hub_scheduler := submit_task (hub_scheduler h) t\<rparr>)"
proof -
  have "get_task (submit_task (hub_scheduler h) t) k =
      (if k = tk_id t then Some t else get_task (hub_scheduler h) k)" for k
    using assms(1) by (simp add: hub_ok_def store_simps)
  with assms show ?thesis
    by (auto simp: grows_def hub_ok_def hub_inv_def sched_inv_submit running_registered_def assigned_to_def)
qed


lemma grows_assign:
  assumes "hub_ok h" and "\<forall>p\<in>set nodes. get_node (hub_registry h) (np_node_id p) \<noteq> None"
  shows "grows new h (h\<lparr>hub_scheduler := (hub_scheduler h)
    \<lparr>sc_tasks := fst (dispatch_loop nodes now ks i (sc_tasks (hub_scheduler h)))\<rparr>\<rparr>)"
proof -
  let ?s = "hub_scheduler h"
  let ?m = "fst (dispatch_loop nodes now ks i (sc_tasks ?s))"
  have ok: "\<not> sc_poisoned ?s" and inv: "sched_inv ?s"
    using assms(1) by (simp_all add: hub_ok_def hub_inv_def scheduler_ok_def)
  have origin: "get_task ?s k = Some t' \<or> (\<exists>t p. get_task ?s k = Some t \<and> tk_state t = Pending \<and>
      p \<in> set nodes \<and> t' = assigned now p t)" if "?m k = Some t'" for k t'
    using dispatch_loop_from [OF that] ok by (simp add: get_task_def)
  have inv': "sched_inv (?s\<lparr>sc_tasks := ?m\<rparr>)"
    using inv origin sched_inv_task [OF inv] by (fastforce simp: sched_inv_def dispatch_loop_dom)
  have run: "running_registered (h\<lparr>hub_scheduler := ?s\<lparr>sc_tasks := ?m\<rparr>\<rparr>)"
    using assms origin ok by (fastforce simp: running_registered_def hub_ok_def get_task_def)
  have keep: "assigned_to (h\<lparr>hub_scheduler := ?s\<lparr>sc_tasks := ?m\<rparr>\<rparr>) k n" if "assigned_to h k n" for k n
  proof -
    from that obtain t since where t: "sc_tasks ?s k = Some t" "kept_or_done n since t"
      using ok by (auto simp: assigned_to_def get_task_def)
    from dispatch_loop_entry [where m = "sc_tasks ?s", OF t(1), of nodes now ks i] t(2)
    have "?m k = Some t" by (auto simp: kept_or_done_def)
    with t(2) ok show ?thesis by (auto simp: assigned_to_def get_task_def)
  qed
  show ?thesis
    using assms(1) inv' run keep ok dispatch_loop_none [of "sc_tasks ?s" _ nodes now ks i]
    by (simp add: grows_def hub_ok_def hub_inv_def scheduler_ok_def get_task_def)
qed

subsection \<open>What a dispatch in progress owes\<close>

fun listed :: "dispatch_pc \<Rightarrow> node_profile list" where
  "listed (DAssign _ nodes) = nodes"
| "listed _ = []"

fun owed :: "dispatch_pc option \<Rightarrow> (string \<times> string) list" where
  "owed (Some (DFetch ds)) = ds"
| "owed (Some (DPush t k n ds)) = (k, n) # ds"
| "owed _ = []"

text \<open>The push a step of a dispatch makes: the pair of task and node its frame is to carry.\<close>

fun dispatch_log :: "dispatch_pc \<Rightarrow> (string \<times> string) list" where
  "dispatch_log (DPush t k n ds) = [(k, n)]"
| "dispatch_log _ = []"

definition frame_for ::
    "('sk, 'vk, 'sg) hub_env \<Rightarrow> bytes \<times> bool \<Rightarrow> string \<times> string \<Rightarrow> bool" where
  "frame_for env f d \<longleftrightarrow>
     (\<exists>t. fst f = frame_msg 6 (c_task (he_codecs env)) (task_definition_of t (fst d) (snd d)))"

lemma dispatch_micro_frames:
  "dispatch_micro env send nks tks h d = (h', d', out) \<Longrightarrow> list_all2 (frame_for env) out (dispatch_log d)"
  by (cases "(env, send, nks, tks, h, d)" rule: dispatch_micro.cases)
    (auto simp: Let_def frame_for_def push_task_frame_def split: if_splits prod.splits)

definition registered :: "hub \<Rightarrow> node_profile list \<Rightarrow> bool" where
  "registered h nodes \<longleftrightarrow> (\<forall>p\<in>set nodes. get_node (hub_registry h) (np_node_id p) \<noteq> None)"

text \<open>The pushes owed after a step: as before, or new ones for tasks that had no node.\<close>

definition owes_on :: "hub \<Rightarrow> hub \<Rightarrow> (string \<times> string) list \<Rightarrow> (string \<times> string) list \<Rightarrow> bool" where
  "owes_on h h' ds ds' \<longleftrightarrow> (distinct (map fst ds) \<longrightarrow> distinct (map fst ds')) \<and>
     (\<forall>k n. (k, n) \<in> set ds' \<longrightarrow>
        (k, n) \<in> set ds \<or> (\<forall>m. \<not> assigned_to h k m) \<and> assigned_to h' k n)"

lemma owes_on_refl [simp]: "owes_on h h' ds ds"
  by (simp add: owes_on_def)

lemma registered_list_nodes:
  "hub_ok h \<Longrightarrow> registered h (list_nodes (hub_registry h) nks)"
  by (auto simp: registered_def hub_ok_def hub_inv_def registry_inv_def list_nodes_def get_node_def
      registry_ok_def set_values_in)

lemma registered_grows: "registered h nodes \<Longrightarrow> grows new h h' \<Longrightarrow> registered h' nodes"
  by (simp add: registered_def grows_def)

lemma dispatch_micro_keeps:
  assumes "dispatch_micro env send nks tks h d = (h', d', out)" and "hub_ok h" and "registered h (listed d)"
  shows "grows {} h h' \<and> (\<forall>e. d' = Some e \<longrightarrow> registered h' (listed e)) \<and>
    owes_on h h' (owed (Some d)) (dispatch_log d @ owed d')"
proof (cases "(env, send, nks, tks, h, d)" rule: dispatch_micro.cases)
  case (1 env send nks tks h now)
  then show ?thesis
    using assms registered_list_nodes [OF assms(2), of nks]
    by (auto simp: grows_refl Let_def split: if_splits)
next
  case (2 env send nks tks h now nodes)
  let ?s = "hub_scheduler h"
  obtain m ds where l: "dispatch_loop nodes now tks 0 (sc_tasks ?s) = (m, ds)" by fastforce
  have ok: "\<not> sc_poisoned ?s" and inv: "sched_inv ?s"
    using assms(2) 2 by (simp_all add: hub_ok_def hub_inv_def scheduler_ok_def)
  have keyed: "\<forall>k t. sc_tasks ?s k = Some t \<longrightarrow> tk_id t = k" using inv by (simp add: sched_inv_def)
  have g: "grows {} h h'"
    using grows_assign [of h nodes "{}" now tks 0] assms 2 ok l by (simp add: registered_def)
  have h': "h' = h\<lparr>hub_scheduler := ?s\<lparr>sc_tasks := m\<rparr>\<rparr>" and d': "d' = next_push ds"
    using assms(1) 2 ok l by simp_all
  note new = dispatch_loop_new [OF keyed, of nodes now tks 0, unfolded l fst_conv snd_conv]
  have "(\<forall>m. \<not> assigned_to h k m) \<and> assigned_to h' k n" if "(k, n) \<in> set ds" for k n
    using bspec [OF conjunct2 [OF new] that] ok
    by (auto simp: assigned_to_def h' get_task_def kept_or_done_def)
  moreover have "owed d' = ds" by (simp add: d' next_push_def)
  ultimately show ?thesis
    using g new 2 by (auto simp: owes_on_def d' registered_def)
next
  case (3 env send nks tks h)
  then show ?thesis using assms by (simp add: grows_refl)
next
  case (4 env send nks tks h k n ds)
  then show ?thesis
    using assms
    by (cases ds) (auto simp: grows_refl owes_on_def registered_def next_push_def split: option.splits)
next
  case (5 env send nks tks h t k n ds)
  then show ?thesis
    using assms by (cases ds) (auto simp: grows_refl registered_def next_push_def)
qed

subsection \<open>The invariant of the interleaved servers\<close>

fun sender_dispatch :: "sender_pc \<Rightarrow> dispatch_pc option" where
  "sender_dispatch (SDispatch d) = Some d"
| "sender_dispatch _ = None"

fun medium_dispatch :: "medium_pc \<Rightarrow> dispatch_pc option" where
  "medium_dispatch (MDispatch _ d) = Some d"
| "medium_dispatch _ = None"

fun sender_log :: "sender_pc \<Rightarrow> (string \<times> string) list" where
  "sender_log (SDispatch d) = dispatch_log d"
| "sender_log _ = []"

fun medium_log :: "medium_pc \<Rightarrow> (string \<times> string) list" where
  "medium_log (MDispatch _ d) = dispatch_log d"
| "medium_log _ = []"

lemma sender_micro_frames:
  "sender_micro env send now nks tks h pc = (h', pc', out) \<Longrightarrow> list_all2 (frame_for env) out (sender_log pc)"
  by (cases pc) (auto split: if_splits prod.splits dest: dispatch_micro_frames)

lemma medium_micro_frames:
  "medium_micro env send now uuid nks tks r h pc = Serving (out, pc') \<Longrightarrow>
   list_all2 (frame_for env) (mo_pushed out) (medium_log pc)"
  by (cases pc)
    (auto simp: medium_receive_def split: option.splits served.splits outcome.splits prod.splits
      dest: dispatch_micro_frames submission_of_None)

text \<open>Pushes done and owed: no task twice, and each task with its node (or done).\<close>

definition commit_ok :: "hub \<Rightarrow> (string \<times> string) list \<Rightarrow> bool" where
  "commit_ok h cs \<longleftrightarrow> distinct (map fst cs) \<and> (\<forall>k n. (k, n) \<in> set cs \<longrightarrow> assigned_to h k n)"

definition server_ok :: "hub \<Rightarrow> sender_pc \<Rightarrow> medium_pc \<Rightarrow> progress_pc \<Rightarrow> bool" where
  "server_ok h spc mpc ppc \<longleftrightarrow>
     (\<forall>d. sender_dispatch spc = Some d \<longrightarrow> registered h (listed d)) \<and>
     (\<forall>d. medium_dispatch mpc = Some d \<longrightarrow> registered h (listed d)) \<and>
     (\<forall>i t. mpc = MSubmit i t \<longrightarrow> get_task (hub_scheduler h) i = None \<and> tk_id t = i \<and>
        tk_state t = Pending \<and> task_ok t) \<and>
     (\<forall>k res. ppc = PUpdate k res \<longrightarrow> res = Success \<or> (\<exists>c. res = CheckpointSaved c))"

text \<open>\<open>cs\<close> are the pushes done so far.\<close>

definition pushes_inv :: "(string \<times> string) list \<Rightarrow> hub_threads \<Rightarrow> bool" where
  "pushes_inv cs s \<longleftrightarrow> hub_ok (ht_hub s) \<and> server_ok (ht_hub s) (ht_sender s) (ht_medium s) (ht_progress s) \<and>
     commit_ok (ht_hub s) (cs @ owed (sender_dispatch (ht_sender s)) @
       owed (medium_dispatch (ht_medium s)))"

text \<open>The frames that left the hub, one by one, are those pushes.\<close>

definition threads_inv :: "('sk, 'vk, 'sg) hub_env \<Rightarrow> hub_threads \<Rightarrow> bool" where
  "threads_inv env s \<longleftrightarrow> (\<exists>cs. list_all2 (frame_for env) (ht_pushed s) cs \<and> pushes_inv cs s)"

lemma commit_ok_grows: "commit_ok h cs \<Longrightarrow> grows new h h' \<Longrightarrow> commit_ok h' cs"
  by (simp add: commit_ok_def grows_def)

lemma commit_ok_Nil [simp]: "commit_ok h []"
  by (simp add: commit_ok_def)

lemma commit_ok_append:
  "commit_ok h (cs @ ds) \<longleftrightarrow>
     commit_ok h cs \<and> commit_ok h ds \<and> fst ` set cs \<inter> fst ` set ds = {}"
  by (auto simp: commit_ok_def)

lemma owes_on_commit:
  assumes "owes_on h h' ds ds'" and "grows new h h'" and "commit_ok h ds"
  shows "commit_ok h' ds'"
  using assms grows_assigned [OF assms(2)] unfolding owes_on_def commit_ok_def by blast

lemma owes_on_apart:
  assumes "owes_on h h' ds ds'" and "commit_ok h cs" and "fst ` set cs \<inter> fst ` set ds = {}"
  shows "fst ` set cs \<inter> fst ` set ds' = {}"
proof -
  have False if c: "(k, n) \<in> set cs" and d: "(k, m) \<in> set ds'" for k n m
  proof -
    have "assigned_to h k n" using assms(2) c by (simp add: commit_ok_def)
    moreover have "(k, m) \<notin> set ds" using assms(3) c by force
    ultimately show False using assms(1) d by (auto simp: owes_on_def)
  qed
  then show ?thesis by auto
qed

text \<open>One server goes on, the others' commitments stand.\<close>

lemma commit_ok_switch:
  assumes "commit_ok h (ps @ ds @ cs)" and "owes_on h h' ds (l @ ds')" and "grows new h h'"
  shows "commit_ok h' ((ps @ l) @ ds' @ cs)"
proof -
  have old: "commit_ok h ps" "commit_ok h ds" "commit_ok h cs" "fst ` set ps \<inter> fst ` set ds = {}"
      "fst ` set ps \<inter> fst ` set cs = {}" "fst ` set cs \<inter> fst ` set ds = {}"
    using assms(1) by (auto simp: commit_ok_append)
  note old(1) [THEN commit_ok_grows, OF assms(3)] old(3) [THEN commit_ok_grows, OF assms(3)]
    owes_on_commit [OF assms(2,3) old(2)]
  moreover note owes_on_apart [OF assms(2) old(1,4)] owes_on_apart [OF assms(2) old(3,6)]
  ultimately show ?thesis using old(5) by (auto simp: commit_ok_append)
qed

lemma server_ok_grows:
  assumes "server_ok h spc mpc ppc" and "grows {} h h'"
  shows "server_ok h' spc mpc ppc"
  using assms registered_grows [OF _ assms(2)] by (simp add: server_ok_def grows_def)

lemma server_ok_update:
  "server_ok h spc mpc ppc \<Longrightarrow> (\<And>d. sender_dispatch spc' = Some d \<Longrightarrow> registered h (listed d)) \<Longrightarrow>
   server_ok h spc' mpc ppc"
  "server_ok h spc mpc ppc \<Longrightarrow> (\<And>d. medium_dispatch mpc' = Some d \<Longrightarrow> registered h (listed d)) \<Longrightarrow>
   (\<And>i t. mpc' = MSubmit i t \<Longrightarrow> get_task (hub_scheduler h) i = None \<and> tk_id t = i \<and>
      tk_state t = Pending \<and> task_ok t) \<Longrightarrow> server_ok h spc mpc' ppc"
  "server_ok h spc mpc ppc \<Longrightarrow>
   (\<And>k res. ppc' = PUpdate k res \<Longrightarrow> res = Success \<or> (\<exists>c. res = CheckpointSaved c)) \<Longrightarrow>
   server_ok h spc mpc ppc'"
  by (simp_all add: server_ok_def)

lemma threads_inv_new: "hub_ok h \<Longrightarrow> threads_inv env (threads_new h)"
  by (simp add: threads_inv_def pushes_inv_def threads_new_def server_ok_def commit_ok_def)

lemma pushes_inv_hub:
  assumes "pushes_inv cs s" and "grows {} (ht_hub s) h'"
  shows "pushes_inv cs (s\<lparr>ht_hub := h'\<rparr>)"
  using assms(1) commit_ok_grows [OF _ assms(2)] server_ok_grows [OF _ assms(2)] assms(2)
  by (simp add: pushes_inv_def) (simp add: grows_def)

lemma pushes_inv_logs [simp]:
  "pushes_inv cs (s\<lparr>ht_pushed := ps\<rparr>) = pushes_inv cs s"
  "pushes_inv cs (s\<lparr>ht_replies := rs\<rparr>) = pushes_inv cs s"
  "pushes_inv cs (s\<lparr>ht_published := fs\<rparr>) = pushes_inv cs s"
  by (simp_all add: pushes_inv_def)

lemma sender_micro_inv:
  assumes "sender_micro env send now nks tks (ht_hub s) (ht_sender s) = (h', pc, out)" and "pushes_inv cs s"
  shows "pushes_inv (cs @ sender_log (ht_sender s)) (s\<lparr>ht_hub := h', ht_sender := pc\<rparr>)"
proof (cases "ht_sender s")
  case (SDispatch d)
  obtain d' out' where m: "dispatch_micro env send nks tks (ht_hub s) d = (h', d', out')"
      and pc: "pc = (case d' of Some e \<Rightarrow> SDispatch e | None \<Rightarrow> SSleep)"
    using assms(1) SDispatch by (auto split: prod.splits)
  from assms(2) SDispatch have inv: "hub_ok (ht_hub s)" "registered (ht_hub s) (listed d)"
    by (simp_all add: pushes_inv_def server_ok_def)
  note keeps = dispatch_micro_keeps [OF m inv]
  have sd: "sender_dispatch pc = d'" by (simp add: pc split: option.split)
  have "server_ok h' (ht_sender s) (ht_medium s) (ht_progress s)"
    using assms(2) keeps server_ok_grows unfolding pushes_inv_def by blast
  then have "server_ok h' pc (ht_medium s) (ht_progress s)"
    by (rule server_ok_update(1)) (use keeps in \<open>simp add: sd\<close>)
  moreover have "commit_ok h' ((cs @ dispatch_log d) @ owed d' @ owed (medium_dispatch (ht_medium s)))"
    using assms(2) SDispatch keeps
    by (intro commit_ok_switch [of "ht_hub s" _ "owed (Some d)", where new = "{}"]) (simp_all add: pushes_inv_def)
  ultimately show ?thesis
    using keeps SDispatch by (simp add: pushes_inv_def sd) (simp add: grows_def)
next
  case SSleep
  then have "h' = ht_hub s" "sender_dispatch pc = None" "sender_log (ht_sender s) = []"
    using assms(1) by (auto split: if_splits)
  with assms(2) SSleep show ?thesis by (simp add: pushes_inv_def server_ok_def)
next
  case SCount
  then have "h' = ht_hub s" "pc = SSleep \<or> pc = SDispatch (DList now)" "sender_log (ht_sender s) = []"
    using assms(1) by (auto split: if_splits)
  with assms(2) SCount show ?thesis by (auto simp: pushes_inv_def server_ok_def registered_def)
qed

lemma medium_micro_inv:
  assumes "medium_micro env send now uuid nks tks r (ht_hub s) (ht_medium s) = Serving (out, pc)"
    and "pushes_inv cs s" and "ht_medium s = MWait \<Longrightarrow> fresh_uuid (ht_hub s) uuid"
  shows "pushes_inv (cs @ medium_log (ht_medium s)) (s\<lparr>ht_hub := mo_hub out, ht_medium := pc\<rparr>)"
proof (cases "ht_medium s")
  case MWait
  have inv: "hub_ok (ht_hub s)" "server_ok (ht_hub s) (ht_sender s) MWait (ht_progress s)"
    using assms(2) MWait by (simp_all add: pushes_inv_def)
  have "mo_hub out = ht_hub s \<and> (pc = MWait \<or> (\<exists>req. pc = MSubmit (''medium-'' @ take 8 uuid)
      (submitted_task (''medium-'' @ take 8 uuid) req)))"
    using assms(1) MWait
    by (auto simp: medium_receive_def dest: submission_of_None str_upto_Returns
        split: option.splits served.splits outcome.splits)
  moreover have "get_task (hub_scheduler (ht_hub s)) (''medium-'' @ take 8 uuid) = None"
    using assms(3) [OF MWait] by (simp add: fresh_uuid_def get_task_def)
  ultimately have "mo_hub out = ht_hub s" "medium_dispatch pc = None"
    and "server_ok (ht_hub s) (ht_sender s) pc (ht_progress s)"
    using inv(2) by (auto intro: server_ok_update(2))
  with assms(2) MWait show ?thesis by (simp add: pushes_inv_def)
next
  case (MSubmit i t)
  have inv: "hub_ok (ht_hub s)" "get_task (hub_scheduler (ht_hub s)) (tk_id t) = None"
      "tk_state t = Pending" "task_ok t" "commit_ok (ht_hub s) (cs @ owed (sender_dispatch (ht_sender s)))"
    and srv: "server_ok (ht_hub s) (ht_sender s) (MSubmit i t) (ht_progress s)"
    using assms(2) MSubmit by (simp_all add: pushes_inv_def server_ok_def)
  have o: "mo_hub out = (ht_hub s)\<lparr>hub_scheduler := submit_task (hub_scheduler (ht_hub s)) t\<rparr>"
      "pc = MDispatch i (DList now)" "medium_log (ht_medium s) = []"
    using assms(1) MSubmit by auto
  have g: "grows {tk_id t} (ht_hub s) (mo_hub out)" unfolding o by (rule grows_submit [OF inv(1-4)])
  have "server_ok (mo_hub out) (ht_sender s) pc (ht_progress s)"
    using srv registered_grows [OF _ g] by (auto simp: server_ok_def o(2) registered_def)
  with commit_ok_grows [OF inv(5) g] grows_ok [OF g] show ?thesis
    by (simp add: pushes_inv_def o(2,3))
next
  case (MDispatch i d)
  obtain d' out' where m: "dispatch_micro env send nks tks (ht_hub s) d = (mo_hub out, d', out')"
      and pc: "pc = (case d' of Some e \<Rightarrow> MDispatch i e | None \<Rightarrow> MWait)"
    using assms(1) MDispatch by (auto split: prod.splits)
  from assms(2) MDispatch have inv: "hub_ok (ht_hub s)" "registered (ht_hub s) (listed d)"
    by (simp_all add: pushes_inv_def server_ok_def)
  note keeps = dispatch_micro_keeps [OF m inv]
  have md: "medium_dispatch pc = d'" by (simp add: pc split: option.split)
  have "server_ok (mo_hub out) (ht_sender s) (ht_medium s) (ht_progress s)"
    using assms(2) keeps server_ok_grows unfolding pushes_inv_def by blast
  then have "server_ok (mo_hub out) (ht_sender s) pc (ht_progress s)"
    by (rule server_ok_update(2)) (use keeps in \<open>simp_all add: md, simp add: pc split: option.splits\<close>)
  moreover have "commit_ok (mo_hub out)
      ((cs @ dispatch_log d) @ d2 @ owed (sender_dispatch (ht_sender s)))" if "d2 = owed d'" for d2
    using assms(2) MDispatch keeps that
    by (intro commit_ok_switch [of "ht_hub s" _ "owed (Some d)", where new = "{}"])
      (auto simp: pushes_inv_def commit_ok_append)
  then have "commit_ok (mo_hub out)
      ((cs @ dispatch_log d) @ owed (sender_dispatch (ht_sender s)) @ owed d')"
    by (auto simp: commit_ok_append)
  ultimately show ?thesis
    using keeps MDispatch by (simp add: pushes_inv_def md) (simp add: grows_def)
qed

lemma progress_micro_inv:
  assumes "progress_micro env r (ht_hub s) (ht_progress s) = Serving (h', frames, pc)" and "pushes_inv cs s"
  shows "pushes_inv cs (s\<lparr>ht_hub := h', ht_progress := pc\<rparr>)"
proof -
  have inv: "hub_ok (ht_hub s)" "server_ok (ht_hub s) (ht_sender s) (ht_medium s) (ht_progress s)"
    using assms(2) by (simp_all add: pushes_inv_def)
  have g: "grows {} (ht_hub s) h'"
  proof (cases "ht_progress s")
    case (PUpdate k res)
    with inv have "res = Success \<or> (\<exists>c. res = CheckpointSaved c)" by (simp add: server_ok_def)
    with grows_update [OF inv(1)] assms(1) PUpdate show ?thesis by auto
  qed (use assms(1) grows_refl [OF inv(1)] in \<open>auto split: served.splits\<close>)
  have "res = Success \<or> (\<exists>c. res = CheckpointSaved c)" if "pc = PUpdate k res" for k res
    using assms(1) that
    by (cases "ht_progress s")
      (auto simp: progress_receive_def progress_result_def
        split: served.splits recv_result.splits outcome.splits option.splits sum.splits if_splits)
  then have "server_ok h' (ht_sender s) (ht_medium s) pc"
    by (intro server_ok_update(3) [OF server_ok_grows [OF inv(2) g]]) blast
  with pushes_inv_hub [OF assms(2) g] show ?thesis by (simp add: pushes_inv_def)
qed

lemma micro_step_inv:
  assumes "micro_step env fresh_uuid s s'" and "threads_inv env s"
  shows "threads_inv env s'"
proof -
  from assms(2) obtain cs where cs: "list_all2 (frame_for env) (ht_pushed s) cs" "pushes_inv cs s"
    by (auto simp: threads_inv_def)
  then have ok: "hub_ok (ht_hub s)" by (simp add: pushes_inv_def)
  from assms(1) show ?thesis
  proof cases
    case (sender send now nks tks h' pc out)
    then show ?thesis
      using list_all2_appendI [OF cs(1) sender_micro_frames [OF sender(2)]]
        sender_micro_inv [OF sender(2) cs(2)] by (auto simp: threads_inv_def)
  next
    case (medium uuid send now nks tks r out pc)
    then show ?thesis
      using list_all2_appendI [OF cs(1) medium_micro_frames [OF medium(3)]]
        medium_micro_inv [OF medium(3) cs(2) medium(2)] by (auto simp: threads_inv_def)
  next
    case (progress r h' frames pc)
    with progress_micro_inv [OF progress(2) cs(2)] cs(1) show ?thesis by (auto simp: threads_inv_def)
  next
    case (heartbeat r h')
    from heartbeat_turn_cases [OF heartbeat(2)] have "grows {} (ht_hub s) h'"
      using grows_refl [OF ok] grows_register [OF ok] by auto
    with pushes_inv_hub [OF cs(2)] heartbeat(1) cs(1) show ?thesis by (auto simp: threads_inv_def)
  next
    case (auth phase token ts uuid' asend r h')
    from auth_after_cases [OF auth(2)] have "grows {} (ht_hub s) h'"
      using grows_refl [OF ok] grows_thumbprint [OF ok] by auto
    with pushes_inv_hub [OF cs(2)] auth(1) cs(1) show ?thesis by (auto simp: threads_inv_def)
  qed
qed

interpretation server_threads: invariant_system "micro_step env fresh_uuid" "threads_inv env" for env
  by unfold_locales (rule micro_step_inv)

subsection \<open>A race, step by step\<close>

text \<open>A hub with one node. A client submits a task; the medium server files it and lists the
  nodes; the task sender counts it, lists the nodes as well, and assigns it first; the medium
  server then finds nothing pending; the task sender fetches and pushes the task.\<close>

definition race_hub :: hub where
  "race_hub = demo_hub\<lparr>hub_task_push := Some ''tcp://127.0.0.1:5556'',
     hub_progress_pub := Some ''tcp://127.0.0.1:5560''\<rparr>"

definition race_task :: task where
  "race_task = submitted_task ''medium-abcdefgh'' demo_submit"

definition race_filed :: hub where
  "race_filed = race_hub\<lparr>hub_registry := register_node registry_new demo_profile,
     hub_scheduler := submit_task scheduler_new race_task\<rparr>"

definition race_assigned :: hub where
  "race_assigned = race_filed\<lparr>hub_scheduler :=
     submit_task scheduler_new (assigned 9 demo_profile race_task)\<rparr>"

definition race_end :: hub_threads where
  "race_end = (threads_new race_assigned)
     \<lparr>ht_pushed := [push_task_frame demo_env race_assigned (\<lambda>_. True)
        (assigned 9 demo_profile race_task) ''medium-abcdefgh'' ''n1''],
      ht_replies := [submit_reply demo_env ''medium-abcdefgh'']\<rparr>"

lemma race_start:
  "start_servers (\<lambda>_. True) (\<lambda>_. True) (hub_new registry_new scheduler_new ''127.0.0.1'') =
     Returns (race_hub, map (hub_addr race_hub) [''5555'', ''5557'', ''5559'', ''5558''])"
  by (simp add: start_servers_def race_hub_def demo_hub_def hub_addr_def hub_new_def)

lemma race_task_simps [simp]:
  "tk_id race_task = ''medium-abcdefgh''" "tk_state race_task = Pending"
  "tk_required race_task = [''llm-inference'']"
  by (simp_all add: race_task_def demo_submit_def)

lemma race_simps [simp]:
  "list_nodes (hub_registry race_filed) [''n1''] = [demo_profile]"
  "list_nodes (hub_registry race_assigned) [''n1''] = [demo_profile]"
  "sc_poisoned (hub_scheduler race_filed) = False" "sc_poisoned (hub_scheduler race_assigned) = False"
  "list_tasks (hub_scheduler race_filed) [''medium-abcdefgh''] = [race_task]"
  "get_task (hub_scheduler race_assigned) ''medium-abcdefgh'' = Some (assigned 9 demo_profile race_task)"
  by (simp_all add: race_filed_def race_assigned_def list_nodes_def register_node_def registry_new_def
      submit_task_def scheduler_new_def list_tasks_def get_task_def)

lemma race_loop:
  "dispatch_loop [demo_profile] 9 [''medium-abcdefgh''] 0 (sc_tasks (hub_scheduler race_filed)) =
     (sc_tasks (hub_scheduler race_assigned), [(''medium-abcdefgh'', ''n1'')])"
  "dispatch_loop [demo_profile] 9 [''medium-abcdefgh''] 0 (sc_tasks (hub_scheduler race_assigned)) =
     (sc_tasks (hub_scheduler race_assigned), [])"
proof -
  have "node_matches_capabilities demo_profile [''llm-inference'']"
    by (simp add: node_matches_capabilities_def demo_profile_def heartbeat_profile_def
        demo_heartbeat_def core_capability_def render_value_def)
  then have "dispatchable [demo_profile] race_task" "chosen_node [demo_profile] 0 race_task = demo_profile"
    by (simp_all add: dispatchable_def chosen_node_def capable_nodes_def)
  then show "dispatch_loop [demo_profile] 9 [''medium-abcdefgh''] 0 (sc_tasks (hub_scheduler race_filed)) =
      (sc_tasks (hub_scheduler race_assigned), [(''medium-abcdefgh'', ''n1'')])"
    and "dispatch_loop [demo_profile] 9 [''medium-abcdefgh''] 0 (sc_tasks (hub_scheduler race_assigned)) =
      (sc_tasks (hub_scheduler race_assigned), [])"
    by (simp_all add: dispatch_loop_Cons race_filed_def race_assigned_def submit_task_def scheduler_new_def)
qed

lemma race_put:
  "race_filed\<lparr>hub_scheduler := (hub_scheduler race_filed)\<lparr>sc_tasks := sc_tasks (hub_scheduler race_assigned)\<rparr>\<rparr> =
     race_assigned"
  by (simp add: race_assigned_def race_filed_def submit_task_def scheduler_new_def)

lemma race_submission:
  "c_submit_req (he_codecs env) = one_message [9] demo_submit \<Longrightarrow>
   submission_of env (Received (frame_msg 12 (one_message [9] demo_submit) demo_submit)) = Some demo_submit"
proof -
  let ?f = "frame_msg 12 (one_message [9] demo_submit) demo_submit"
  have "frame_len ?f = 1" by (simp add: frame_msg_def frame_len_build_frame)
  then have "slice ?f 5 (5 + frame_len ?f) = Returns [9]" by (simp add: slice_def frame_msg_def build_frame_def)
  moreover assume "c_submit_req (he_codecs env) = one_message [9] demo_submit"
  moreover have "ts_access_key demo_submit \<noteq> []" by (simp add: demo_submit_def)
  ultimately show ?thesis by (simp add: submission_of_def frame_msg_long [THEN leD])
qed

lemma race_run: "(micro_step demo_env fresh_uuid)\<^sup>*\<^sup>* (threads_new race_hub) race_end"
proof -
  let ?k = "''medium-abcdefgh''" and ?R = "micro_step demo_env fresh_uuid"
  let ?reg = "race_hub\<lparr>hub_registry := register_node registry_new demo_profile\<rparr>"
  let ?filed = "threads_new race_filed" and ?put = "threads_new race_assigned"
  let ?done = "(threads_new race_assigned)\<lparr>ht_replies := [submit_reply demo_env ?k]\<rparr>"
  let ?md = "MDispatch ?k (DAssign 9 [demo_profile])"
  note sender = micro_step.sender [where env = demo_env and uuid_ok = fresh_uuid and send = "\<lambda>_. True"
    and now = 9 and nks = "[''n1'']" and tks = "[?k]"]
  note medium = micro_step.medium [where env = demo_env and uuid_ok = fresh_uuid and send = "\<lambda>_. True"
    and now = 9 and nks = "[''n1'']" and tks = "[?k]" and uuid = "''abcdefgh-x''"
    and r = "Received (frame_msg 12 (one_message [9] demo_submit) demo_submit)"]
  have 1: "?R (threads_new race_hub) (threads_new ?reg)"
    using micro_step.heartbeat [of demo_env "threads_new race_hub"
        "Received (frame_msg 5 (one_message [4] demo_heartbeat) demo_heartbeat)" ?reg fresh_uuid]
    by (simp add: threads_new_def heartbeat_turn_def read_one_message race_hub_def demo_profile_def)
  have fresh: "fresh_uuid ?reg ''abcdefgh-x''"
    by (simp add: fresh_uuid_def race_hub_def scheduler_new_def)
  have 2: "?R (threads_new ?reg) ((threads_new ?reg)\<lparr>ht_medium := MSubmit ?k race_task\<rparr>)"
    using medium [of "threads_new ?reg"] fresh race_submission [of demo_env]
    by (simp add: threads_new_def medium_receive_def race_task_def str_upto_def cont_byte_def)
  have 3: "?R ((threads_new ?reg)\<lparr>ht_medium := MSubmit ?k race_task\<rparr>) (?filed\<lparr>ht_medium := MDispatch ?k (DList 9)\<rparr>)"
    using medium [of "(threads_new ?reg)\<lparr>ht_medium := MSubmit ?k race_task\<rparr>"]
    by (simp add: threads_new_def race_filed_def race_hub_def)
  have 4: "?R (?filed\<lparr>ht_medium := MDispatch ?k (DList 9)\<rparr>) (?filed\<lparr>ht_medium := ?md\<rparr>)"
    using medium [of "?filed\<lparr>ht_medium := MDispatch ?k (DList 9)\<rparr>"] by (simp add: threads_new_def)
  have 5: "?R (?filed\<lparr>ht_medium := ?md\<rparr>) (?filed\<lparr>ht_medium := ?md, ht_sender := SCount\<rparr>)"
    using sender [of "?filed\<lparr>ht_medium := ?md\<rparr>"] by (simp add: threads_new_def)
  have 6: "?R (?filed\<lparr>ht_medium := ?md, ht_sender := SCount\<rparr>)
      (?filed\<lparr>ht_medium := ?md, ht_sender := SDispatch (DList 9)\<rparr>)"
    using sender [of "?filed\<lparr>ht_medium := ?md, ht_sender := SCount\<rparr>"] by (simp add: threads_new_def)
  have 7: "?R (?filed\<lparr>ht_medium := ?md, ht_sender := SDispatch (DList 9)\<rparr>)
      (?filed\<lparr>ht_medium := ?md, ht_sender := SDispatch (DAssign 9 [demo_profile])\<rparr>)"
    using sender [of "?filed\<lparr>ht_medium := ?md, ht_sender := SDispatch (DList 9)\<rparr>"]
    by (simp add: threads_new_def)
  have 8: "?R (?filed\<lparr>ht_medium := ?md, ht_sender := SDispatch (DAssign 9 [demo_profile])\<rparr>)
      (?put\<lparr>ht_medium := ?md, ht_sender := SDispatch (DFetch [(?k, ''n1'')])\<rparr>)"
    using sender [of "?filed\<lparr>ht_medium := ?md, ht_sender := SDispatch (DAssign 9 [demo_profile])\<rparr>"]
    by (simp add: threads_new_def race_loop next_push_def race_put)
  have 9: "?R (?put\<lparr>ht_medium := ?md, ht_sender := SDispatch (DFetch [(?k, ''n1'')])\<rparr>)
      (?done\<lparr>ht_sender := SDispatch (DFetch [(?k, ''n1'')])\<rparr>)"
    using medium [of "?put\<lparr>ht_medium := ?md, ht_sender := SDispatch (DFetch [(?k, ''n1'')])\<rparr>"]
    by (simp add: threads_new_def race_loop next_push_def)
  have 10: "?R (?done\<lparr>ht_sender := SDispatch (DFetch [(?k, ''n1'')])\<rparr>)
      (?done\<lparr>ht_sender := SDispatch (DPush (assigned 9 demo_profile race_task) ?k ''n1'' [])\<rparr>)"
    using sender [of "?done\<lparr>ht_sender := SDispatch (DFetch [(?k, ''n1'')])\<rparr>"] by (simp add: threads_new_def)
  have 11: "?R (?done\<lparr>ht_sender := SDispatch (DPush (assigned 9 demo_profile race_task) ?k ''n1'' [])\<rparr>) race_end"
    using sender [of "?done\<lparr>ht_sender := SDispatch (DPush (assigned 9 demo_profile race_task) ?k ''n1'' [])\<rparr>"]
    by (simp add: threads_new_def race_end_def next_push_def)
  from 1 2 3 4 5 6 7 8 9 10 11 show ?thesis by (meson converse_rtranclp_into_rtranclp r_into_rtranclp)
qed

subsection \<open>Properties\<close>

lemma hub_ok_new:
  assumes "registry_inv reg" and "registry_ok reg" and "start_servers new_socket listen (hub_new reg scheduler_new ip) = Returns (h, addrs)"
  shows "hub_ok h"
  using assms
  by (auto simp: start_servers_def Let_def hub_ok_def hub_inv_def hub_new_def sched_inv_new
      running_registered_def split: if_splits)

lemma interleaved_hub_ok:
  assumes "hub_ok h" and "(micro_step env fresh_uuid)\<^sup>*\<^sup>* (threads_new h) s"
  shows "threads_inv env s"
  using server_threads.run_inv [OF assms(2) threads_inv_new [OF assms(1)]] .

text \<open>C4: However the hub's servers interleave from the start of the hub, as long as the medium
  server draws UUIDs whose first eight digits name no task yet, the frames the task sender and
  the medium server hand to the push socket are, one by one, task frames for pairwise different
  task ids, although both servers dispatch all pending tasks from their own listing of the nodes;
  every task so pushed is in the table, running on the node its frame names or completed.\<close>

theorem no_task_pushed_twice:
  assumes "registry_inv reg" and "registry_ok reg"
    and "start_servers new_socket listen (hub_new reg scheduler_new ip) = Returns (h, addrs)"
    and "(micro_step env fresh_uuid)\<^sup>*\<^sup>* (threads_new h) s"
  shows "\<exists>cs. list_all2 (\<lambda>(frame, taken) (k, n). \<exists>t.
        frame = frame_msg 6 (c_task (he_codecs env)) (task_definition_of t k n)) (ht_pushed s) cs \<and>
    distinct (map fst cs) \<and>
    (\<forall>(k, n)\<in>set cs. \<exists>t. get_task (hub_scheduler (ht_hub s)) k = Some t \<and>
       ((\<exists>since. tk_state t = Running n since) \<or> (\<exists>r. tk_state t = Completed r)))"
proof -
  obtain cs where f: "list_all2 (frame_for env) (ht_pushed s) cs" and p: "pushes_inv cs s"
    using interleaved_hub_ok [OF hub_ok_new [OF assms(1-3)] assms(4)] by (auto simp: threads_inv_def)
  from p have "commit_ok (ht_hub s) cs" by (simp add: pushes_inv_def commit_ok_append)
  moreover have "list_all2 (\<lambda>(frame, taken) (k, n). \<exists>t.
        frame = frame_msg 6 (c_task (he_codecs env)) (task_definition_of t k n)) (ht_pushed s) cs"
    using f by (rule list_all2_mono) (auto simp: frame_for_def)
  ultimately show ?thesis by (fastforce simp: commit_ok_def assigned_to_def kept_or_done_def)
qed

theorem no_task_pushed_twice_witness:
  "\<exists>k n t. map fst (ht_pushed race_end) =
      [frame_msg 6 (c_task (he_codecs demo_env)) (task_definition_of t k n)] \<and>
    get_task (hub_scheduler (ht_hub race_end)) k \<noteq> None"
proof -
  obtain f where f: "ht_pushed race_end = [f]" by (simp add: race_end_def)
  from no_task_pushed_twice [OF registry_inv_new registry_new_ok race_start race_run] f
  obtain k n t where "fst f = frame_msg 6 (c_task (he_codecs demo_env)) (task_definition_of t k n)"
    and "get_task (hub_scheduler (ht_hub race_end)) k \<noteq> None"
    by (auto simp: list_all2_Cons1 split: prod.splits)
  with f show ?thesis by fastforce
qed

text \<open>C9: In every state the interleaved servers reach from the start of the hub, as long as the
  medium server draws UUIDs whose first eight digits name no task yet, nodes and tasks
  are filed under their ids, no task has used more retries than it was given, no thumbprint is
  listed twice, and every running task runs on a registered node.\<close>

theorem interleaving_invariant:
  assumes "registry_inv reg" and "registry_ok reg"
    and "start_servers new_socket listen (hub_new reg scheduler_new ip) = Returns (h, addrs)"
    and "(micro_step env fresh_uuid)\<^sup>*\<^sup>* (threads_new h) s"
  shows "distinct (hub_thumbprints (ht_hub s)) \<and>
    (\<forall>i p. get_node (hub_registry (ht_hub s)) i = Some p \<longrightarrow> np_node_id p = i) \<and>
    (\<forall>k t. get_task (hub_scheduler (ht_hub s)) k = Some t \<longrightarrow>
       tk_id t = k \<and> tk_current_retry t \<le> tk_max_retries t \<and>
       (\<forall>n since. tk_state t = Running n since \<longrightarrow> get_node (hub_registry (ht_hub s)) n \<noteq> None))"
proof -
  have ok: "hub_ok (ht_hub s)"
    using interleaved_hub_ok [OF hub_ok_new [OF assms(1-3)] assms(4)] by (auto simp: threads_inv_def pushes_inv_def)
  then have "sched_inv (hub_scheduler (ht_hub s))" by (simp add: hub_ok_def hub_inv_def)
  from sched_inv_task [OF this] ok show ?thesis
    by (auto simp: hub_ok_def hub_inv_def registry_inv_def get_node_def task_ok_def
        running_registered_def split: if_splits)
qed

theorem interleaving_invariant_witness:
  "get_node (hub_registry (ht_hub race_end)) ''n1'' \<noteq> None"
proof -
  have "get_task (hub_scheduler (ht_hub race_end)) ''medium-abcdefgh'' =
      Some (assigned 9 demo_profile race_task)"
    by (simp add: race_end_def threads_new_def)
  with interleaving_invariant [OF registry_inv_new registry_new_ok race_start race_run]
  show ?thesis by fastforce
qed


text \<open>C28: A dispatch ends however the other servers change the hub between its steps: the steps of
  a dispatch decrease a well-founded order on where it stands, whatever hub each step finds.\<close>

theorem dispatch_terminates:
  "wf {(d', d). \<exists>send nks tks h h' out. dispatch_micro env send nks tks h d = (h', Some d', out)}"
proof (rule wf_subset)
  show "wf (inv_image (less_than <*lex*> less_than) dispatch_rank)" by auto
  show "{(d', d). \<exists>send nks tks h h' out. dispatch_micro env send nks tks h d = (h', Some d', out)}
      \<subseteq> inv_image (less_than <*lex*> less_than) dispatch_rank"
    using dispatch_micro_rank by (auto simp del: in_lex_prod)
qed

text \<open>C29: The listing a dispatch works on can be out of date: when a node's profile changes between
  the listing and the assignment, a pending task that only this node could run is assigned to it
  by the old profile, although the profile now registered does not offer what the task needs.\<close>

theorem stale_profile_dispatch:
  assumes "hub_ok h" and "iterates (rg_nodes (hub_registry h)) nks"
    and "get_task (hub_scheduler h) k = Some t" and "tk_state t = Pending"
    and "capable_nodes (list_nodes (hub_registry h) nks) t = [p]"
    and "heartbeat_turn env h r = Serving h2"
    and "get_node (hub_registry h2) (np_node_id p) = Some q"
    and "\<not> node_matches_capabilities q (tk_required t)"
    and "iterates (sc_tasks (hub_scheduler h2)) tks"
  shows "\<exists>h3 d t'. dispatch_micro env send nks tks h2 (DAssign now (list_nodes (hub_registry h) nks)) = (h3, d, []) \<and>
    get_task (hub_scheduler h3) k = Some t' \<and> tk_state t' = Running (np_node_id p) now \<and>
    get_node (hub_registry h3) (np_node_id p) = Some q \<and>
    \<not> node_matches_capabilities q (tk_required t')"
proof -
  let ?ns = "list_nodes (hub_registry h) nks"
  have s: "hub_scheduler h2 = hub_scheduler h" using heartbeat_turn_cases [OF assms(6)] by auto
  have ok: "\<not> sc_poisoned (hub_scheduler h)" using assms(1) by (simp add: hub_ok_def scheduler_ok_def)
  have t: "sc_tasks (hub_scheduler h) k = Some t" using assms(3) ok by (simp add: get_task_def)
  obtain m ds where l: "dispatch_loop ?ns now tks 0 (sc_tasks (hub_scheduler h)) = (m, ds)" by fastforce
  have "dispatchable ?ns t" using assms(4,5) by (simp add: dispatchable_def)
  moreover have "distinct tks" "k \<in> set tks" using assms(9) t by (auto simp: iterates_def s)
  ultimately have "m k = Some (assigned now p t)"
    using dispatch_loop_hit [where m = "sc_tasks (hub_scheduler h)", OF _ _ t, of tks ?ns now 0] assms(5)
    by (simp add: l)
  then show ?thesis using assms(7,8) ok by (auto simp: s l get_task_def)
qed

definition tired_profile :: node_profile where
  "tired_profile = demo_profile\<lparr>np_capabilities := []\<rparr>"

definition tired_heartbeat :: capability_profile where
  "tired_heartbeat = demo_heartbeat\<lparr>cp_capabilities := []\<rparr>"

definition tired_env :: "(u8, u8, bytes) hub_env" where
  "tired_env = demo_env\<lparr>he_codecs := demo_codecs\<lparr>c_profile := one_message [4] tired_heartbeat\<rparr>\<rparr>"

theorem stale_profile_dispatch_witness:
  "\<exists>h3 d t'. dispatch_micro tired_env (\<lambda>_. True) [''n1''] [''medium-abcdefgh'']
      (race_filed\<lparr>hub_registry := register_node (hub_registry race_filed) tired_profile\<rparr>)
      (DAssign 9 (list_nodes (hub_registry race_filed) [''n1''])) = (h3, d, []) \<and>
    get_task (hub_scheduler h3) ''medium-abcdefgh'' = Some t' \<and> tk_state t' = Running (np_node_id demo_profile) 9 \<and>
    get_node (hub_registry h3) (np_node_id demo_profile) = Some tired_profile \<and>
    \<not> node_matches_capabilities tired_profile (tk_required t')"
proof (rule stale_profile_dispatch)
  have r: "hub_registry race_filed = register_node registry_new demo_profile"
    and sc: "hub_scheduler race_filed = submit_task scheduler_new race_task"
    by (simp_all add: race_filed_def)
  have task: "task_ok race_task" by (simp add: race_task_def)
  show "hub_ok race_filed"
    by (simp add: hub_ok_def hub_inv_def r sc registry_inv_intros sched_inv_intros task running_registered_def
        store_simps) (simp add: race_filed_def race_hub_def)
  show "iterates (rg_nodes (hub_registry race_filed)) [''n1'']"
    by (simp add: r iterates_def register_node_def registry_new_def)
  show "get_task (hub_scheduler race_filed) ''medium-abcdefgh'' = Some race_task"
    by (simp add: sc store_simps)
  show "iterates (sc_tasks (hub_scheduler (race_filed\<lparr>hub_registry := register_node (hub_registry race_filed) tired_profile\<rparr>)))
      [''medium-abcdefgh'']"
    by (simp add: sc iterates_def submit_task_def scheduler_new_def)
  show "get_node (hub_registry (race_filed\<lparr>hub_registry := register_node (hub_registry race_filed) tired_profile\<rparr>))
      (np_node_id demo_profile) = Some tired_profile"
    by (simp add: r store_simps tired_profile_def)
  show "capable_nodes (list_nodes (hub_registry race_filed) [''n1'']) race_task = [demo_profile]"
    by (simp add: capable_nodes_def node_matches_capabilities_def demo_profile_def heartbeat_profile_def
        demo_heartbeat_def core_capability_def render_value_def)
  show "heartbeat_turn tired_env race_filed
      (Received (frame_msg 5 (one_message [4] tired_heartbeat) tired_heartbeat)) =
      Serving (race_filed\<lparr>hub_registry := register_node (hub_registry race_filed) tired_profile\<rparr>)"
    by (simp add: heartbeat_turn_def tired_env_def read_one_message tired_profile_def tired_heartbeat_def
        demo_profile_def heartbeat_profile_def)
  show "\<not> node_matches_capabilities tired_profile (tk_required race_task)"
    by (simp add: node_matches_capabilities_def tired_profile_def)
qed simp

end
