(* ===== verification/SwarmSystem.thy ===== *)
theory SwarmSystem
  imports Swarm HubInterleaving
begin

text \<open>
  The hub, its workers and the messages between them as one system. Task frames pushed by the
  hub are in flight until some worker takes them: the push socket hands a frame to any connected
  worker, not to the one it names. Reports are in flight until the hub's progress server reads
  them, in any order. Either kind can be lost. Every step applies the turns of \<open>HubServer\<close> and
  \<open>Worker\<close>. The lemmas follow a task through the system: it is executed at most once (as long as task ids are
  fresh), the hub
  records it as completed only if a worker that accepts every capability it requires has executed
  it, and once its frame or its reports are lost nothing ever changes it again.
\<close>

subsection \<open>The system\<close>

text \<open>A frame is in flight when the socket has taken it; frames of 4 GiB and more, whose length
  field would wrap, are taken to be lost.\<close>

definition transmitted :: "bytes \<Rightarrow> bool" where
  "transmitted f \<longleftrightarrow> length f < 2 ^ 32 + 5"

definition accepted :: "(bytes \<times> bool) list \<Rightarrow> bytes list" where
  "accepted sent = filter transmitted (map fst (filter snd sent))"

record ('sk, 'vk, 'sg) execution =
  ex_node :: string
  ex_worker :: "('sk, 'vk, 'sg) worker_env"
  ex_task :: task_definition

record ('sk, 'vk, 'sg) swarm =
  sw_hub :: hub
  sw_tasks :: "bytes list"
  sw_reports :: "bytes list"
  sw_published :: "bytes list"
  sw_executed :: "('sk, 'vk, 'sg) execution list"

definition swarm_new :: "hub \<Rightarrow> ('sk, 'vk, 'sg) swarm" where
  "swarm_new h =
     \<lparr>sw_hub = h, sw_tasks = [], sw_reports = [], sw_published = [], sw_executed = []\<rparr>"

text \<open>What a worker executes when it takes a frame, for the record.\<close>

definition frame_task :: "codecs \<Rightarrow> bytes \<Rightarrow> task_definition option" where
  "frame_task cs f =
     (case read_body 6 f of
        Returns (Some body) \<Rightarrow>
          (case cd_decode (c_task cs) body of Inr td \<Rightarrow> Some td | Inl _ \<Rightarrow> None)
      | _ \<Rightarrow> None)"

definition executions ::
    "string \<Rightarrow> ('sk, 'vk, 'sg) worker_env \<Rightarrow> bytes \<Rightarrow> ('sk, 'vk, 'sg) execution list" where
  "executions i w f =
     (case frame_task (we_codecs w) f of
        Some td \<Rightarrow> [\<lparr>ex_node = i, ex_worker = w, ex_task = td\<rparr>]
      | None \<Rightarrow> [])"

text \<open>\<open>uuid_ok h uuid\<close>: the UUID the medium server may draw for a submission (\<open>fresh_uuid\<close>: its
  first eight digits name no task yet). \<open>acts i w\<close>: the node \<open>i\<close> may find its machine (files, programs, their output) as in \<open>w\<close> when
  it executes a task.\<close>

inductive swarm_step ::
    "('sk, 'vk, 'sg) hub_env \<Rightarrow> (hub \<Rightarrow> string \<Rightarrow> bool) \<Rightarrow> (string \<Rightarrow> ('sk, 'vk, 'sg) worker_env \<Rightarrow> bool) \<Rightarrow>
     ('sk, 'vk, 'sg) swarm \<Rightarrow> ('sk, 'vk, 'sg) swarm \<Rightarrow> bool"
  for env uuid_ok acts where
  send: "task_sender_turn env (sw_hub s) send now nks tks = (h', sent) \<Longrightarrow>
    swarm_step env uuid_ok acts s (s\<lparr>sw_hub := h', sw_tasks := sw_tasks s @ accepted sent\<rparr>)"
| client: "uuid_ok (sw_hub s) uuid \<Longrightarrow>
    medium_turn env (sw_hub s) send now uuid nks tks r = Serving out \<Longrightarrow>
    swarm_step env uuid_ok acts s
      (s\<lparr>sw_hub := mo_hub out, sw_tasks := sw_tasks s @ accepted (mo_pushed out)\<rparr>)"
| join: "auth_after env (sw_hub s) phase token ts uuid' asend r = Some h' \<Longrightarrow>
    swarm_step env uuid_ok acts s (s\<lparr>sw_hub := h'\<rparr>)"
| profile: "heartbeat_turn env (sw_hub s) r = Serving h' \<Longrightarrow>
    swarm_step env uuid_ok acts s (s\<lparr>sw_hub := h'\<rparr>)"
| work: "sw_tasks s = fs @ f # gs \<Longrightarrow> acts i w \<Longrightarrow> task_turn w (Inr (Some f)) = (frames, e) \<Longrightarrow>
    swarm_step env uuid_ok acts s (s\<lparr>sw_tasks := fs @ gs,
      sw_reports := sw_reports s @ filter transmitted frames,
      sw_executed := sw_executed s @ executions i w f\<rparr>)"
| report: "sw_reports s = fs @ f # gs \<Longrightarrow>
    progress_turn env (sw_hub s) (Received f) = Serving (h', published) \<Longrightarrow>
    swarm_step env uuid_ok acts s (s\<lparr>sw_hub := h', sw_reports := fs @ gs,
      sw_published := sw_published s @ published\<rparr>)"
| lose_task: "sw_tasks s = fs @ f # gs \<Longrightarrow> swarm_step env uuid_ok acts s (s\<lparr>sw_tasks := fs @ gs\<rparr>)"
| lose_report: "sw_reports s = fs @ f # gs \<Longrightarrow> swarm_step env uuid_ok acts s (s\<lparr>sw_reports := fs @ gs\<rparr>)"

inductive_cases swarm_stepE: "swarm_step env uuid_ok acts s s'"

subsection \<open>Codecs that lose nothing\<close>

definition faithful :: "'m codec \<Rightarrow> bool" where
  "faithful c \<longleftrightarrow> (\<forall>m. length (cd_encode c m) < 2 ^ 32 \<longrightarrow> cd_decode c (cd_encode c m) = Inr m)"

lemma transmitted_frame_msg: "transmitted (frame_msg t c m) \<longleftrightarrow> length (cd_encode c m) < 2 ^ 32"
  by (simp add: transmitted_def frame_msg_def)

lemma faithful_carries: "faithful c \<Longrightarrow> transmitted (frame_msg t c m) \<Longrightarrow> carries c m"
  by (simp add: transmitted_frame_msg faithful_def carries_def)

lemma frame_task_msg:
  "carries (c_task cs) td \<Longrightarrow> frame_task cs (frame_msg 6 (c_task cs) td) = Some td"
  by (simp add: frame_task_def read_body_frame_msg) (simp add: carries_def)

lemma executions_msg:
  "carries (c_task (we_codecs w)) td \<Longrightarrow>
   executions i w (frame_msg 6 (c_task (we_codecs w)) td) = [\<lparr>ex_node = i, ex_worker = w, ex_task = td\<rparr>]"
  by (simp add: executions_def frame_task_msg)

lemma task_turn_msg:
  assumes "carries (c_task (we_codecs w)) td"
    and "task_turn w (Inr (Some (frame_msg 6 (c_task (we_codecs w)) td))) = (frames, e)"
  shows "frames = map (send_progress w) (fst (execute_task w td))"
proof -
  have "cd_decode (c_task (we_codecs w)) (cd_encode (c_task (we_codecs w)) td) = Inr td"
    using assms(1) by (simp add: carries_def)
  then show ?thesis
    using assms by (auto simp: task_turn_def read_body_frame_msg split: prod.splits outcome.splits)
qed

subsection \<open>What the hub does to its tasks\<close>

text \<open>The requirements of a task never change, and only the tasks of \<open>fin\<close> are completed.\<close>

definition tasks_kept :: "string set \<Rightarrow> hub \<Rightarrow> hub \<Rightarrow> bool" where
  "tasks_kept fin h h' \<longleftrightarrow>
     (\<forall>k t. get_task (hub_scheduler h) k = Some t \<longrightarrow>
        (\<exists>t'. get_task (hub_scheduler h') k = Some t' \<and> tk_required t' = tk_required t)) \<and>
     (\<forall>k t' r. get_task (hub_scheduler h') k = Some t' \<longrightarrow> tk_state t' = Completed r \<longrightarrow>
        k \<in> fin \<or> (\<exists>t r'. get_task (hub_scheduler h) k = Some t \<and> tk_state t = Completed r'))"

lemma tasks_kept_same: "hub_scheduler h' = hub_scheduler h \<Longrightarrow> tasks_kept fin h h'"
  by (simp add: tasks_kept_def)

lemma tasks_kept_trans:
  assumes "tasks_kept fin h h1" and "tasks_kept fin h1 h2"
  shows "tasks_kept fin h h2"
  using assms unfolding tasks_kept_def by (metis (no_types, lifting))

lemma tasks_kept_submit:
  assumes "scheduler_ok (hub_scheduler h)" and "get_task (hub_scheduler h) (tk_id t) = None"
    and "tk_state t = Pending"
  shows "tasks_kept fin h (h\<lparr>hub_scheduler := submit_task (hub_scheduler h) t\<rparr>)"
  using assms by (auto simp: tasks_kept_def store_simps split: if_splits)

lemma tasks_kept_dispatch:
  "tasks_kept fin h (h\<lparr>hub_scheduler := fst (dispatch_pending_tasks (hub_registry h) (hub_scheduler h) now nks tks)\<rparr>)"
proof -
  let ?s = "hub_scheduler h" and ?s' = "fst (dispatch_pending_tasks (hub_registry h) (hub_scheduler h) now nks tks)"
  have source: "\<exists>t. get_task ?s k = Some t \<and> (t' = t \<or> (\<exists>n. t' = assigned now n t))"
    if "get_task ?s' k = Some t'" for k t'
  proof (cases "get_task ?s k")
    case None
    then show ?thesis using that by (simp add: get_task_dispatch_none)
  next
    case (Some t)
    from get_task_dispatch_entry [OF this, of "hub_registry h" now nks tks] that show ?thesis
      using Some by auto
  qed
  have "\<exists>t'. get_task ?s' k = Some t' \<and> tk_required t' = tk_required t" if "get_task ?s k = Some t" for k t
    using get_task_dispatch_entry [OF that, of "hub_registry h" now nks tks] by auto
  with source show ?thesis by (fastforce simp: tasks_kept_def)
qed

lemma apply_result_required [simp]: "tk_required (apply_result res t) = tk_required t"
  by (cases res) simp_all

lemma tasks_kept_update:
  assumes "res = Success \<and> k \<in> fin \<or> (\<exists>c. res = CheckpointSaved c)"
  shows "tasks_kept fin h (h\<lparr>hub_scheduler := update_task_progress (hub_scheduler h) k res\<rparr>)"
  using assms by (auto simp: tasks_kept_def store_simps)

subsection \<open>The frames of one dispatch\<close>

lemma grows_trans: "grows new h h1 \<Longrightarrow> grows new h1 h2 \<Longrightarrow> grows new h h2"
  by (simp add: grows_def)

lemma grows_more: "grows new h h' \<Longrightarrow> new \<subseteq> new' \<Longrightarrow> grows new' h h'"
  unfolding grows_def by blast

lemma grows_dispatch:
  assumes "hub_ok h"
  shows "grows new h (h\<lparr>hub_scheduler := fst (dispatch_pending_tasks (hub_registry h) (hub_scheduler h) now nks tks)\<rparr>)"
proof (cases "list_nodes (hub_registry h) nks = []")
  case True
  then show ?thesis using grows_refl [OF assms] by (simp add: dispatch_pending_tasks_cases)
next
  case False
  have "\<not> sc_poisoned (hub_scheduler h)" using assms by (simp add: hub_ok_def scheduler_ok_def)
  with False grows_assign [OF assms, of "list_nodes (hub_registry h) nks" new now tks 0]
    registered_list_nodes [OF assms, of nks]
  show ?thesis by (simp add: dispatch_pending_tasks_cases registered_def)
qed

text \<open>The id and node a task frame carries.\<close>

definition frame_commit :: "codecs \<Rightarrow> bytes \<Rightarrow> (string \<times> string) option" where
  "frame_commit cs f = map_option (\<lambda>td. (td_task_id td, td_module_target td)) (frame_task cs f)"

text \<open>A frame of a task that the table holds, with the requirements it has there.\<close>

definition task_frame :: "codecs \<Rightarrow> hub \<Rightarrow> bytes \<Rightarrow> bool" where
  "task_frame cs h f \<longleftrightarrow> (\<exists>td t. f = frame_msg 6 (c_task cs) td \<and> carries (c_task cs) td \<and>
     get_task (hub_scheduler h) (td_task_id td) = Some t \<and>
     tk_required t = td_required_capabilities td)"

lemma task_definition_simps [simp]:
  "td_task_id (task_definition_of t k n) = k" "td_module_target (task_definition_of t k n) = n"
  "td_required_capabilities (task_definition_of t k n) = tk_required t"
  by (simp_all add: task_definition_of_def)

lemma accepted_Cons:
  "accepted ((f, ok) # sent) = (if ok \<and> transmitted f then [f] else []) @ accepted sent"
  by (simp add: accepted_def)

lemma accepted_pushes:
  assumes "faithful (c_task (he_codecs env))" and "distinct (map fst ds)"
  shows "(\<forall>f\<in>set (accepted (pushed_of env send h ds)). task_frame (he_codecs env) h f) \<and>
    distinct (map fst (List.map_filter (frame_commit (he_codecs env)) (accepted (pushed_of env send h ds)))) \<and>
    set (List.map_filter (frame_commit (he_codecs env)) (accepted (pushed_of env send h ds))) \<subseteq> set ds"
  using assms(2)
proof (induction ds)
  case Nil
  then show ?case by (simp add: accepted_def)
next
  case (Cons d ds)
  obtain k n where d: "d = (k, n)" by fastforce
  show ?case
  proof (cases "get_task (hub_scheduler h) k")
    case None
    with Cons show ?thesis by (auto simp: d)
  next
    case (Some t)
    let ?td = "task_definition_of t k n"
    obtain ok where p: "push_task_frame env h send t k n = (frame_msg 6 (c_task (he_codecs env)) ?td, ok)"
      by (simp add: push_task_frame_def Let_def)
    show ?thesis
    proof (cases "ok \<and> transmitted (frame_msg 6 (c_task (he_codecs env)) ?td)")
      case False
      with Cons Some p show ?thesis by (auto simp: d accepted_Cons)
    next
      case True
      then have c: "carries (c_task (he_codecs env)) ?td" using faithful_carries [OF assms(1)] by blast
      then have "frame_commit (he_codecs env) (frame_msg 6 (c_task (he_codecs env)) ?td) = Some (k, n)"
        by (simp add: frame_commit_def frame_task_msg)
      moreover have "task_frame (he_codecs env) h (frame_msg 6 (c_task (he_codecs env)) ?td)"
        using c Some by (auto simp: task_frame_def intro!: exI [of _ ?td])
      ultimately show ?thesis
        using Cons Some p True by (auto simp: d accepted_Cons List.map_filter_simps)
    qed
  qed
qed

lemma pushed_of_hub:
  "hub_task_push h' = hub_task_push h \<Longrightarrow> get_task (hub_scheduler h') = get_task s \<Longrightarrow>
   List.map_filter (\<lambda>(k, n). map_option (\<lambda>t. push_task_frame env h send t k n) (get_task s k)) ds =
     pushed_of env send h' ds"
  by (simp add: push_task_frame_def cong: option.case_cong)

text \<open>One dispatch: what it commits the hub to are tasks that had no node before.\<close>

lemma dispatch_now_effect:
  assumes "dispatch_now env h send now nks tks = (h', sent)" and "hub_ok h"
    and "faithful (c_task (he_codecs env))"
  shows "grows new h h'" and "tasks_kept fin h h'"
    and "owes_on h h' [] (List.map_filter (frame_commit (he_codecs env)) (accepted sent))"
    and "\<forall>f\<in>set (accepted sent). task_frame (he_codecs env) h' f"
proof -
  let ?ns = "list_nodes (hub_registry h) nks" and ?cs = "he_codecs env"
  obtain s' ds where d: "dispatch_pending_tasks (hub_registry h) (hub_scheduler h) now nks tks = (s', ds)"
    by fastforce
  have h': "h' = h\<lparr>hub_scheduler := s'\<rparr>" and sent: "sent = pushed_of env send h' ds"
    using assms(1) pushed_of_hub [of h' h s' env send ds] by (auto simp: dispatch_now_def d)
  show g: "grows new h h'" and "tasks_kept fin h h'"
    using grows_dispatch [OF assms(2), of new now nks tks] tasks_kept_dispatch [of fin h now nks tks]
    by (simp_all add: d h')
  have ok: "\<not> sc_poisoned (hub_scheduler h)" and inv: "sched_inv (hub_scheduler h)"
    using assms(2) by (simp_all add: hub_ok_def hub_inv_def scheduler_ok_def)
  have keyed: "\<forall>k t. sc_tasks (hub_scheduler h) k = Some t \<longrightarrow> tk_id t = k"
    using inv by (simp add: sched_inv_def)
  have new: "distinct (map fst ds) \<and> (\<forall>k n. (k, n) \<in> set ds \<longrightarrow>
      (\<forall>m. \<not> assigned_to h k m) \<and> assigned_to h' k n)"
  proof (cases "?ns = []")
    case True
    then show ?thesis using d by (simp add: dispatch_pending_tasks_cases)
  next
    case False
    obtain m es where l: "dispatch_loop ?ns now tks 0 (sc_tasks (hub_scheduler h)) = (m, es)" by fastforce
    with d False ok have e: "s' = (hub_scheduler h)\<lparr>sc_tasks := m\<rparr>" "ds = es"
      by (simp_all add: dispatch_pending_tasks_cases)
    note loop = dispatch_loop_new [OF keyed, of ?ns now tks 0, unfolded l fst_conv snd_conv]
    have "(\<forall>m. \<not> assigned_to h k m) \<and> assigned_to h' k n" if "(k, n) \<in> set es" for k n
      using bspec [OF conjunct2 [OF loop] that] ok
      by (auto simp: assigned_to_def h' e(1) get_task_def kept_or_done_def)
    with loop e(2) show ?thesis by blast
  qed
  note push = accepted_pushes [OF assms(3), of ds h' send, folded sent]
  show "owes_on h h' [] (List.map_filter (frame_commit ?cs) (accepted sent))"
    using push new by (simp add: owes_on_def) (meson subsetD)
  show "\<forall>f\<in>set (accepted sent). task_frame ?cs h' f" using push new by blast
qed

lemma owes_on_earlier:
  assumes "grows new h h1" and "owes_on h1 h2 [] ds"
  shows "owes_on h h2 [] ds"
  using assms(2) grows_assigned [OF assms(1)] unfolding owes_on_def by blast

lemma sender_turn_effect:
  assumes "task_sender_turn env h send now nks tks = (h', sent)" and "hub_ok h"
    and "faithful (c_task (he_codecs env))"
  shows "grows {} h h' \<and> tasks_kept {} h h' \<and>
    owes_on h h' [] (List.map_filter (frame_commit (he_codecs env)) (accepted sent)) \<and>
    (\<forall>f\<in>set (accepted sent). task_frame (he_codecs env) h' f)"
proof (cases "h' = h \<and> sent = []")
  case True
  then show ?thesis
    using grows_refl [OF assms(2)] by (simp add: tasks_kept_same accepted_def List.map_filter_simps)
next
  case False
  then have "dispatch_now env h send now nks tks = (h', sent)"
    using assms(1) by (auto simp: task_sender_turn_def split: if_splits)
  from dispatch_now_effect [OF this assms(2,3)] show ?thesis by blast
qed

lemma medium_turn_effect:
  assumes "medium_turn env h send now uuid nks tks r = Serving out" and "hub_ok h"
    and "faithful (c_task (he_codecs env))" and "fresh_uuid h uuid"
  shows "(\<exists>new. grows new h (mo_hub out)) \<and> tasks_kept {} h (mo_hub out) \<and>
    owes_on h (mo_hub out) [] (List.map_filter (frame_commit (he_codecs env)) (accepted (mo_pushed out))) \<and>
    (\<forall>f\<in>set (accepted (mo_pushed out)). task_frame (he_codecs env) (mo_hub out) f)"
proof (cases "submission_of env r")
  case None
  with submission_of_None [OF this assms(1)] show ?thesis
    using grows_refl [OF assms(2)] by (auto simp: tasks_kept_same accepted_def List.map_filter_simps)
next
  case (Some req)
  let ?t = "submitted_task (''medium-'' @ take 8 uuid) req"
  let ?h1 = "h\<lparr>hub_scheduler := submit_task (hub_scheduler h) ?t\<rparr>"
  have "medium_submit env h send now uuid nks tks req = Serving out" "ts_access_key req \<noteq> []"
    using submission_of_Some [OF Some] assms(1) by auto
  then have d: "dispatch_now env ?h1 send now nks tks = (mo_hub out, mo_pushed out)"
    by (auto simp: medium_submit_def Let_def dest!: str_upto_Returns split: outcome.splits prod.splits)
  have fresh: "get_task (hub_scheduler h) (tk_id ?t) = None"
    using assms(4) by (simp add: fresh_uuid_def get_task_def)
  have g1: "grows {tk_id ?t} h ?h1" by (rule grows_submit [OF assms(2) fresh]) simp_all
  have k1: "tasks_kept {} h ?h1"
    using assms(2) fresh by (intro tasks_kept_submit) (simp_all add: hub_ok_def)
  note e = dispatch_now_effect [OF d grows_ok [OF g1] assms(3)]
  show ?thesis
    using grows_trans [OF g1 e(1)] tasks_kept_trans [OF k1 e(2)] owes_on_earlier [OF g1 e(3)] e(4)
    by blast
qed

subsection \<open>The invariant of the swarm\<close>

definition ex_commit :: "('sk, 'vk, 'sg) execution \<Rightarrow> string \<times> string" where
  "ex_commit e = (td_task_id (ex_task e), td_module_target (ex_task e))"

text \<open>An execution that sent a completed report.\<close>

definition succeeded :: "('sk, 'vk, 'sg) execution \<Rightarrow> bool" where
  "succeeded e \<longleftrightarrow>
     (\<exists>p\<in>set (fst (execute_task (ex_worker e) (ex_task e))). tp_status p = status_i32 COMPLETED)"

definition done_ids :: "('sk, 'vk, 'sg) execution list \<Rightarrow> string set" where
  "done_ids es = {td_task_id (ex_task e) | e. e \<in> set es \<and> succeeded e}"

definition known_execution ::
    "(string \<Rightarrow> ('sk, 'vk, 'sg) worker_env \<Rightarrow> bool) \<Rightarrow> hub \<Rightarrow> ('sk, 'vk, 'sg) execution \<Rightarrow> bool" where
  "known_execution acts h e \<longleftrightarrow> acts (ex_node e) (ex_worker e) \<and>
     (\<exists>t. get_task (hub_scheduler h) (td_task_id (ex_task e)) = Some t \<and>
        tk_required t = td_required_capabilities (ex_task e))"

definition honest_report :: "codecs \<Rightarrow> string set \<Rightarrow> bytes \<Rightarrow> bool" where
  "honest_report cs ids f \<longleftrightarrow> (\<exists>p. f = frame_msg 7 (c_progress cs) p \<and> carries (c_progress cs) p \<and>
     (tp_status p = status_i32 COMPLETED \<longrightarrow> tp_task_id p \<in> ids))"

definition completed_within :: "string set \<Rightarrow> hub \<Rightarrow> bool" where
  "completed_within ids h \<longleftrightarrow> (\<forall>k t r. get_task (hub_scheduler h) k = Some t \<longrightarrow>
     tk_state t = Completed r \<longrightarrow> k \<in> ids)"

definition swarm_inv ::
    "codecs \<Rightarrow> (string \<Rightarrow> ('sk, 'vk, 'sg) worker_env \<Rightarrow> bool) \<Rightarrow> ('sk, 'vk, 'sg) swarm \<Rightarrow> bool" where
  "swarm_inv cs acts s \<longleftrightarrow> hub_ok (sw_hub s) \<and>
     commit_ok (sw_hub s)
       (List.map_filter (frame_commit cs) (sw_tasks s) @ map ex_commit (sw_executed s)) \<and>
     (\<forall>f\<in>set (sw_tasks s). task_frame cs (sw_hub s) f) \<and>
     (\<forall>e\<in>set (sw_executed s). known_execution acts (sw_hub s) e) \<and>
     (\<forall>f\<in>set (sw_reports s). honest_report cs (done_ids (sw_executed s)) f) \<and>
     completed_within (done_ids (sw_executed s)) (sw_hub s)"

lemma task_frame_kept: "task_frame cs h f \<Longrightarrow> tasks_kept fin h h' \<Longrightarrow> task_frame cs h' f"
  unfolding task_frame_def tasks_kept_def by (metis (no_types, lifting))

lemma known_execution_kept:
  "known_execution acts h e \<Longrightarrow> tasks_kept fin h h' \<Longrightarrow> known_execution acts h' e"
  unfolding known_execution_def tasks_kept_def by (metis (no_types, lifting))

lemma completed_within_kept:
  "completed_within ids h \<Longrightarrow> tasks_kept fin h h' \<Longrightarrow> fin \<subseteq> ids \<Longrightarrow> completed_within ids h'"
  unfolding completed_within_def tasks_kept_def by blast

lemma swarm_new_inv:
  assumes "hub_ok h" and "hub_scheduler h = scheduler_new"
  shows "swarm_inv cs acts (swarm_new h)"
  using assms by (simp add: swarm_inv_def swarm_new_def completed_within_def List.map_filter_simps)

lemma map_filter_append [simp]:
  "List.map_filter f (xs @ ys) = List.map_filter f xs @ List.map_filter f ys"
  by (simp add: List.map_filter_def)

text \<open>A step of the hub that adds task frames.\<close>

lemma swarm_inv_hub:
  assumes "swarm_inv cs acts s" and "grows new (sw_hub s) h'" and "tasks_kept {} (sw_hub s) h'"
    and "owes_on (sw_hub s) h' [] (List.map_filter (frame_commit cs) fs)"
    and "\<forall>f\<in>set fs. task_frame cs h' f"
  shows "swarm_inv cs acts (s\<lparr>sw_hub := h', sw_tasks := sw_tasks s @ fs\<rparr>)"
proof -
  have "commit_ok (sw_hub s) (List.map_filter (frame_commit cs) (sw_tasks s) @ [] @
      map ex_commit (sw_executed s))"
    using assms(1) by (simp add: swarm_inv_def)
  from commit_ok_switch [OF this, of h' "List.map_filter (frame_commit cs) fs" "[]"] assms(2,4)
  have "commit_ok h' ((List.map_filter (frame_commit cs) (sw_tasks s) @
      List.map_filter (frame_commit cs) fs) @ map ex_commit (sw_executed s))" by simp
  moreover have "\<forall>f\<in>set (sw_tasks s). task_frame cs h' f"
    "\<forall>e\<in>set (sw_executed s). known_execution acts h' e"
    "completed_within (done_ids (sw_executed s)) h'"
    using assms(1) task_frame_kept [OF _ assms(3)] known_execution_kept [OF _ assms(3), of acts]
      completed_within_kept [OF _ assms(3)]
    by (auto simp: swarm_inv_def)
  ultimately show ?thesis
    using assms(1,5) grows_ok [OF assms(2)] by (auto simp: swarm_inv_def)
qed

subsection \<open>What a worker sends\<close>

lemma execute_ollama_ids:
  "p \<in> set (fst (execute_ollama_task w t)) \<Longrightarrow> tp_task_id p = td_task_id t"
  by (auto simp: execute_ollama_task_def Let_def split: if_splits sum.splits)

lemma execute_task_ids:
  "p \<in> set (fst (execute_task w t)) \<Longrightarrow> tp_task_id p = td_task_id t"
  using execute_ollama_ids [of p w t] by (auto simp: execute_task_def Let_def split: if_splits)

lemma succeeded_probes:
  assumes "succeeded e" and "cap \<in> set (td_required_capabilities (ex_task e))"
  shows "fst (probe (ex_worker e) cap)"
proof (rule ccontr)
  assume "\<not> fst (probe (ex_worker e) cap)"
  then have "\<not> list_all (\<lambda>cap. fst (probe (ex_worker e) cap)) (td_required_capabilities (ex_task e))"
    using assms(2) by (auto simp: list_all_iff)
  from execute_task_cases [OF this] assms(1) show False by (simp add: succeeded_def)
qed

lemma sw_fields_same: "s\<lparr>sw_hub := h, sw_tasks := sw_tasks s @ []\<rparr> = s\<lparr>sw_hub := h\<rparr>"
  by (cases s) simp

lemma swarm_inv_quiet:
  assumes "swarm_inv cs acts s" and "grows new (sw_hub s) h'" and "hub_scheduler h' = hub_scheduler (sw_hub s)"
  shows "swarm_inv cs acts (s\<lparr>sw_hub := h'\<rparr>)"
  using swarm_inv_hub [OF assms(1,2) tasks_kept_same [OF assms(3)], of "[]"] sw_fields_same [of s h']
  by (simp add: owes_on_def List.map_filter_simps)

lemma commit_ok_mono:
  "commit_ok h cs \<Longrightarrow> set ds \<subseteq> set cs \<Longrightarrow> distinct (map fst ds) \<Longrightarrow> commit_ok h ds"
  by (auto simp: commit_ok_def)

lemma commit_ok_drop: "commit_ok h (xs @ ys @ zs) \<Longrightarrow> commit_ok h (xs @ zs)"
  by (auto simp: commit_ok_append)

lemma distinct_move: "distinct ((xs @ c # ys) @ zs) \<Longrightarrow> distinct ((xs @ ys) @ zs @ [c])"
  by auto

lemma commit_ok_move: "commit_ok h ((xs @ c # ys) @ zs) \<Longrightarrow> commit_ok h ((xs @ ys) @ zs @ [c])"
  using distinct_move [of "map fst xs" "fst c" "map fst ys" "map fst zs"]
  by (simp add: commit_ok_def)

lemma honest_report_more: "honest_report cs ids f \<Longrightarrow> ids \<subseteq> ids' \<Longrightarrow> honest_report cs ids' f"
  unfolding honest_report_def by blast

lemma completed_within_more: "completed_within ids h \<Longrightarrow> ids \<subseteq> ids' \<Longrightarrow> completed_within ids' h"
  unfolding completed_within_def by blast

lemma swarm_inv_work:
  assumes inv: "swarm_inv (he_codecs env) acts s" and "sw_tasks s = fs @ f # gs" and "acts i w"
    and turn: "task_turn w (Inr (Some f)) = (frames, e)" and cs: "we_codecs w = he_codecs env"
    and "faithful (c_progress (he_codecs env))"
  shows "swarm_inv (he_codecs env) acts (s\<lparr>sw_tasks := fs @ gs,
    sw_reports := sw_reports s @ filter transmitted frames,
    sw_executed := sw_executed s @ executions i w f\<rparr>)"
proof -
  let ?cs = "he_codecs env"
  have "task_frame ?cs (sw_hub s) f" using inv assms(2) by (simp add: swarm_inv_def)
  then obtain td t where f: "f = frame_msg 6 (c_task ?cs) td" "carries (c_task ?cs) td"
      and t: "get_task (hub_scheduler (sw_hub s)) (td_task_id td) = Some t"
        "tk_required t = td_required_capabilities td"
    by (auto simp: task_frame_def)
  let ?e = "\<lparr>ex_node = i, ex_worker = w, ex_task = td\<rparr>"
  let ?ids = "done_ids (sw_executed s @ [?e])"
  have ex: "executions i w f = [?e]" using executions_msg [of w td i] f cs by simp
  have fr: "frames = map (send_progress w) (fst (execute_task w td))"
    using task_turn_msg [of w td] turn f cs by simp
  have commit: "frame_commit ?cs f = Some (ex_commit ?e)"
    using f by (simp add: frame_commit_def frame_task_msg ex_commit_def)
  have "commit_ok (sw_hub s) ((List.map_filter (frame_commit ?cs) (fs @ gs)) @
      map ex_commit (sw_executed s @ [?e]))"
    using inv assms(2) commit commit_ok_move [of "sw_hub s" "List.map_filter (frame_commit ?cs) fs"
        "ex_commit ?e" "List.map_filter (frame_commit ?cs) gs" "map ex_commit (sw_executed s)"]
    by (simp add: swarm_inv_def List.map_filter_simps)
  moreover have more: "done_ids (sw_executed s) \<subseteq> ?ids" by (auto simp: done_ids_def)
  have "honest_report ?cs ?ids g" if g: "g \<in> set (filter transmitted frames)" for g
  proof -
    from g fr obtain p where p: "p \<in> set (fst (execute_task w td))" "g = frame_msg 7 (c_progress ?cs) p"
        "transmitted g"
      by (auto simp: send_progress_def cs)
    have "tp_task_id p \<in> ?ids" if "tp_status p = status_i32 COMPLETED"
      using p(1) that execute_task_ids [OF p(1)]
      by (auto simp: done_ids_def succeeded_def intro!: exI [of _ ?e])
    with p faithful_carries [OF assms(6)] show ?thesis by (auto simp: honest_report_def)
  qed
  moreover have "known_execution acts (sw_hub s) ?e" using assms(3) t by (simp add: known_execution_def)
  ultimately show ?thesis
    using inv assms(2) honest_report_more [OF _ more, of ?cs] completed_within_more [OF _ more]
    by (auto simp: swarm_inv_def ex)
qed

lemma swarm_inv_report:
  assumes inv: "swarm_inv (he_codecs env) acts s" and "sw_reports s = fs @ f # gs"
    and turn: "progress_turn env (sw_hub s) (Received f) = Serving (h', published)"
  shows "swarm_inv (he_codecs env) acts (s\<lparr>sw_hub := h', sw_reports := fs @ gs,
    sw_published := sw_published s @ published\<rparr>)"
proof -
  let ?cs = "he_codecs env" and ?ids = "done_ids (sw_executed s)"
  have ok: "hub_ok (sw_hub s)" using inv by (simp add: swarm_inv_def)
  have "honest_report ?cs ?ids f" using inv assms(2) by (simp add: swarm_inv_def)
  then obtain p where p: "f = frame_msg 7 (c_progress ?cs) p" "carries (c_progress ?cs) p"
      "tp_status p = status_i32 COMPLETED \<longrightarrow> tp_task_id p \<in> ?ids"
    by (auto simp: honest_report_def)
  have h': "h' = (case progress_result p of None \<Rightarrow> sw_hub s
      | Some res \<Rightarrow> (sw_hub s)\<lparr>hub_scheduler :=
          update_task_progress (hub_scheduler (sw_hub s)) (tp_task_id p) res\<rparr>)"
    using turn progress_turn_frame [OF p(2)] p(1) by simp
  have kept: "grows {} (sw_hub s) h' \<and> tasks_kept ?ids (sw_hub s) h'"
  proof (cases "progress_result p")
    case None
    with h' grows_refl [OF ok] show ?thesis by (simp add: tasks_kept_same)
  next
    case (Some res)
    then have "res = Success \<and> tp_task_id p \<in> ?ids \<or> (\<exists>c. res = CheckpointSaved c)"
      using p(3) by (auto simp: progress_result_def split: if_splits)
    with Some h' grows_update [OF ok] tasks_kept_update show ?thesis by auto
  qed
  then have g: "grows {} (sw_hub s) h'" and k: "tasks_kept ?ids (sw_hub s) h'" by simp_all
  show ?thesis
    using inv assms(2) grows_ok [OF g] commit_ok_grows [OF _ g] task_frame_kept [OF _ k]
      known_execution_kept [OF _ k, of acts] completed_within_kept [OF _ k]
    by (simp add: swarm_inv_def)
qed

text \<open>Workers that speak the hub's codecs, and codecs that lose nothing.\<close>

definition swarm_codecs ::
    "('sk, 'vk, 'sg) hub_env \<Rightarrow> (string \<Rightarrow> ('sk, 'vk, 'sg) worker_env \<Rightarrow> bool) \<Rightarrow> bool" where
  "swarm_codecs env acts \<longleftrightarrow> faithful (c_task (he_codecs env)) \<and> faithful (c_progress (he_codecs env)) \<and>
     (\<forall>i w. acts i w \<longrightarrow> we_codecs w = he_codecs env)"

lemma swarm_step_inv:
  assumes "swarm_step env fresh_uuid acts s s'" and "swarm_inv (he_codecs env) acts s" and "swarm_codecs env acts"
  shows "swarm_inv (he_codecs env) acts s'"
proof -
  have ok: "hub_ok (sw_hub s)" using assms(2) by (simp add: swarm_inv_def)
  have ft: "faithful (c_task (he_codecs env))" and fp: "faithful (c_progress (he_codecs env))"
    using assms(3) by (simp_all add: swarm_codecs_def)
  show ?thesis
    using assms(1)
  proof cases
    case (send send now nks tks h' sent)
    with sender_turn_effect [OF send(2) ok ft] swarm_inv_hub [OF assms(2)] show ?thesis by blast
  next
    case (client uuid send now nks tks r out)
    with medium_turn_effect [OF client(3) ok ft client(2)] swarm_inv_hub [OF assms(2)] show ?thesis
      by blast
  next
    case (join phase token ts uuid' asend r h')
    from auth_after_cases [OF join(2)] grows_refl [OF ok] grows_thumbprint [OF ok]
    have "grows {} (sw_hub s) h'" "hub_scheduler h' = hub_scheduler (sw_hub s)"
      by auto
    from swarm_inv_quiet [OF assms(2) this] join(1) show ?thesis by simp
  next
    case (profile r h')
    from heartbeat_turn_cases [OF profile(2)] grows_refl [OF ok] grows_register [OF ok]
    have "grows {} (sw_hub s) h'" "hub_scheduler h' = hub_scheduler (sw_hub s)" by auto
    from swarm_inv_quiet [OF assms(2) this] profile(1) show ?thesis by simp
  next
    case (work fs f gs i w frames e)
    have "we_codecs w = he_codecs env" using assms(3) work(3) by (simp add: swarm_codecs_def)
    from swarm_inv_work [OF assms(2) work(2-4) this fp] work(1) show ?thesis by simp
  next
    case (report fs f gs h' published)
    from swarm_inv_report [OF assms(2) report(2,3)] report(1) show ?thesis by simp
  next
    case (lose_task fs f gs)
    have "commit_ok (sw_hub s) (List.map_filter (frame_commit (he_codecs env)) fs @
        List.map_filter (frame_commit (he_codecs env)) [f] @
        List.map_filter (frame_commit (he_codecs env)) gs @ map ex_commit (sw_executed s))"
      using assms(2) lose_task(2) map_filter_append [of "frame_commit (he_codecs env)" "[f]" gs]
      by (simp add: swarm_inv_def)
    from commit_ok_drop [OF this] assms(2) lose_task show ?thesis by (simp add: swarm_inv_def)
  next
    case (lose_report fs f gs)
    with assms(2) show ?thesis by (simp add: swarm_inv_def)
  qed
qed

definition swarm_ok ::
    "('sk, 'vk, 'sg) hub_env \<Rightarrow> (string \<Rightarrow> ('sk, 'vk, 'sg) worker_env \<Rightarrow> bool) \<Rightarrow>
     ('sk, 'vk, 'sg) swarm \<Rightarrow> bool" where
  "swarm_ok env acts s \<longleftrightarrow> swarm_codecs env acts \<and> swarm_inv (he_codecs env) acts s"

interpretation whole_swarm: invariant_system "swarm_step env fresh_uuid acts" "swarm_ok env acts" for env acts
  by unfold_locales (simp add: swarm_ok_def swarm_step_inv)

subsection \<open>A task nothing in flight belongs to\<close>

definition other_task :: "codecs \<Rightarrow> string \<Rightarrow> bytes \<Rightarrow> bool" where
  "other_task cs k f \<longleftrightarrow>
     (\<exists>td. f = frame_msg 6 (c_task cs) td \<and> carries (c_task cs) td \<and> td_task_id td \<noteq> k)"

definition other_report :: "codecs \<Rightarrow> string \<Rightarrow> bytes \<Rightarrow> bool" where
  "other_report cs k f \<longleftrightarrow>
     (\<exists>p. f = frame_msg 7 (c_progress cs) p \<and> carries (c_progress cs) p \<and> tp_task_id p \<noteq> k)"

text \<open>No frame of task \<open>k\<close> and no report about it is in flight, and the hub has it running.\<close>

definition stranded :: "codecs \<Rightarrow> string \<Rightarrow> task \<Rightarrow> ('sk, 'vk, 'sg) swarm \<Rightarrow> bool" where
  "stranded cs k t s \<longleftrightarrow> hub_ok (sw_hub s) \<and> get_task (hub_scheduler (sw_hub s)) k = Some t \<and>
     (\<exists>n since. tk_state t = Running n since) \<and>
     (\<forall>f\<in>set (sw_tasks s). other_task cs k f) \<and> (\<forall>f\<in>set (sw_reports s). other_report cs k f)"

lemma dispatch_now_leaves:
  assumes "dispatch_now env h send now nks tks = (h', sent)" and "get_task (hub_scheduler h) k = Some t"
    and "tk_state t = Running n since"
  shows "get_task (hub_scheduler h') k = Some t"
  using get_task_dispatch_entry [OF assms(2), of "hub_registry h" now nks tks] assms(3)
    dispatch_now_state [of env h send now nks tks] assms(1)
  by auto

lemma sender_turn_leaves:
  assumes "task_sender_turn env h send now nks tks = (h', sent)"
    and "get_task (hub_scheduler h) k = Some t" and "tk_state t = Running n since"
  shows "get_task (hub_scheduler h') k = Some t"
  using assms dispatch_now_leaves [OF _ assms(2,3)] by (auto simp: task_sender_turn_def split: if_splits)

lemma medium_turn_leaves:
  assumes "medium_turn env h send now uuid nks tks r = Serving out" and "fresh_uuid h uuid"
    and "scheduler_ok (hub_scheduler h)"
    and "get_task (hub_scheduler h) k = Some t" and "tk_state t = Running n since"
  shows "get_task (hub_scheduler (mo_hub out)) k = Some t"
proof -
  have "get_task (hub_scheduler (fst (dispatch_now env (h\<lparr>hub_scheduler := submit_task (hub_scheduler h)
      (submitted_task (''medium-'' @ take 8 uuid) req)\<rparr>) send now nks tks))) k = Some t" for req
  proof (rule dispatch_now_leaves [OF prod.collapse [symmetric] _ assms(5)])
    have "k \<noteq> ''medium-'' @ take 8 uuid"
      using assms(2,4) by (auto simp: fresh_uuid_def get_task_def split: if_splits)
    then show "get_task (hub_scheduler (h\<lparr>hub_scheduler := submit_task (hub_scheduler h)
        (submitted_task (''medium-'' @ take 8 uuid) req)\<rparr>)) k = Some t"
      using assms(3,4) by (simp add: store_simps)
  qed
  with medium_turn_cases [OF assms(1)] assms(4) show ?thesis by metis
qed

lemma new_frames_other:
  assumes "owes_on h h' [] (List.map_filter (frame_commit cs) fs)" and "\<forall>f\<in>set fs. task_frame cs h' f"
    and "assigned_to h k n"
  shows "\<forall>f\<in>set fs. other_task cs k f"
proof
  fix f
  assume f: "f \<in> set fs"
  with assms(2) obtain td where td: "f = frame_msg 6 (c_task cs) td" "carries (c_task cs) td"
    by (auto simp: task_frame_def)
  then have "frame_commit cs f = Some (td_task_id td, td_module_target td)"
    by (simp add: frame_commit_def frame_task_msg)
  with f have "(td_task_id td, td_module_target td) \<in> set (List.map_filter (frame_commit cs) fs)"
    by (force simp: List.map_filter_def)
  then have "\<not> assigned_to h (td_task_id td) n" using assms(1) by (auto simp: owes_on_def)
  with td assms(3) show "other_task cs k f" by (auto simp: other_task_def)
qed

lemma stranded_step:
  assumes "swarm_step env fresh_uuid acts s s'" and "stranded (he_codecs env) k t s" and "swarm_codecs env acts"
  shows "stranded (he_codecs env) k t s'"
proof -
  let ?cs = "he_codecs env" and ?h = "sw_hub s"
  have ok: "hub_ok ?h" and t: "get_task (hub_scheduler ?h) k = Some t"
    and in_flight: "\<forall>f\<in>set (sw_tasks s). other_task ?cs k f" "\<forall>f\<in>set (sw_reports s). other_report ?cs k f"
    using assms(2) by (simp_all add: stranded_def)
  obtain n since where run: "tk_state t = Running n since" using assms(2) by (auto simp: stranded_def)
  have ft: "faithful (c_task ?cs)" and fp: "faithful (c_progress ?cs)"
    using assms(3) by (simp_all add: swarm_codecs_def)
  have a: "assigned_to ?h k n" using t run by (auto simp: assigned_to_def kept_or_done_def)
  show ?thesis
    using assms(1)
  proof cases
    case (send send now nks tks h' sent)
    note e = sender_turn_effect [OF send(2) ok ft]
    with new_frames_other [of ?h h' ?cs "accepted sent" k n] a
    have "\<forall>f\<in>set (accepted sent). other_task ?cs k f" by blast
    with e send(1) sender_turn_leaves [OF send(2) t run] run in_flight show ?thesis
      by (auto simp: stranded_def grows_def)
  next
    case (client uuid send now nks tks r out)
    note e = medium_turn_effect [OF client(3) ok ft client(2)]
    with new_frames_other [of ?h "mo_hub out" ?cs "accepted (mo_pushed out)" k n] a
    have "\<forall>f\<in>set (accepted (mo_pushed out)). other_task ?cs k f" by blast
    moreover have "scheduler_ok (hub_scheduler ?h)" using ok by (simp add: hub_ok_def)
    from medium_turn_leaves [OF client(3,2) this t run]
    have "get_task (hub_scheduler (mo_hub out)) k = Some t" .
    moreover have "hub_ok (mo_hub out)" using e grows_ok by blast
    ultimately show ?thesis using client(1) run in_flight by (auto simp: stranded_def)
  next
    case (join phase token ts uuid' asend r h')
    from auth_after_cases [OF join(2)] grows_refl [OF ok] grows_thumbprint [OF ok]
    have "grows {} ?h h'" "hub_scheduler h' = hub_scheduler ?h" by auto
    with assms(2) join(1) show ?thesis by (simp add: stranded_def grows_def)
  next
    case (profile r h')
    from heartbeat_turn_cases [OF profile(2)] grows_refl [OF ok] grows_register [OF ok]
    have "grows {} ?h h'" "hub_scheduler h' = hub_scheduler ?h" by auto
    with assms(2) profile(1) show ?thesis by (simp add: stranded_def grows_def)
  next
    case (work fs f gs i w frames e)
    have cs: "we_codecs w = ?cs" using assms(3) work(3) by (simp add: swarm_codecs_def)
    from in_flight(1) work(2) obtain td where f: "f = frame_msg 6 (c_task ?cs) td"
        "carries (c_task ?cs) td" "td_task_id td \<noteq> k" by (auto simp: other_task_def)
    have "frames = map (send_progress w) (fst (execute_task w td))"
      using task_turn_msg [of w td] work(4) f cs by simp
    then have "other_report ?cs k g" if "g \<in> set (filter transmitted frames)" for g
      using that f(3) faithful_carries [OF fp] execute_task_ids [of _ w td]
      by (auto simp: other_report_def send_progress_def cs)
    with assms(2) work(1,2) show ?thesis by (auto simp: stranded_def)
  next
    case (report fs f gs h' published)
    from in_flight(2) report(2) obtain p where p: "f = frame_msg 7 (c_progress ?cs) p"
        "carries (c_progress ?cs) p" "tp_task_id p \<noteq> k" by (auto simp: other_report_def)
    then have "h' = (case progress_result p of None \<Rightarrow> ?h | Some res \<Rightarrow>
        ?h\<lparr>hub_scheduler := update_task_progress (hub_scheduler ?h) (tp_task_id p) res\<rparr>)"
      using report(3) progress_turn_frame [OF p(2)] by simp
    moreover have "res = Success \<or> (\<exists>c. res = CheckpointSaved c)" if "progress_result p = Some res" for res
      using that by (auto simp: progress_result_def split: if_splits)
    ultimately have "grows {} ?h h'" "get_task (hub_scheduler h') k = Some t"
      using grows_refl [OF ok] grows_update [OF ok] t p(3) by (auto simp: store_simps split: option.splits)
    with assms(2) report(1,2) show ?thesis by (simp add: stranded_def grows_def)
  next
    case (lose_task fs f gs)
    with assms(2) show ?thesis by (simp add: stranded_def)
  next
    case (lose_report fs f gs)
    with assms(2) show ?thesis by (simp add: stranded_def)
  qed
qed

definition stuck ::
    "('sk, 'vk, 'sg) hub_env \<Rightarrow> (string \<Rightarrow> ('sk, 'vk, 'sg) worker_env \<Rightarrow> bool) \<Rightarrow> string \<Rightarrow> task \<Rightarrow>
     ('sk, 'vk, 'sg) swarm \<Rightarrow> bool" where
  "stuck env acts k t s \<longleftrightarrow> swarm_codecs env acts \<and> stranded (he_codecs env) k t s"

interpretation stuck_task: invariant_system "swarm_step env fresh_uuid acts" "stuck env acts k t" for env acts k t
  by unfold_locales (simp add: stuck_def stranded_step)

subsection \<open>A run from submission to completion\<close>

text \<open>A codec that carries the given messages, one byte each, and no other.\<close>

definition too_long :: bytes where
  "too_long = replicate (2 ^ 32) 0"

definition only_messages :: "('m \<times> u8) list \<Rightarrow> 'm codec" where
  "only_messages ms =
     \<lparr>cd_encode = (\<lambda>m. case map_of ms m of Some b \<Rightarrow> [b] | None \<Rightarrow> too_long),
      cd_decode = (\<lambda>bs. case bs of
          [b] \<Rightarrow> (case map_of (map prod.swap ms) b of Some m \<Rightarrow> Inr m | None \<Rightarrow> Inl ''decode error'')
        | _ \<Rightarrow> Inl ''decode error'')\<rparr>"

lemma only_messages_decode:
  assumes "distinct (map snd ms)" and "map_of ms m = Some b"
  shows "map_of (map prod.swap ms) b = Some m"
proof -
  have "distinct (map fst (map prod.swap ms))" using assms(1) by (simp add: comp_def)
  moreover have "(b, m) \<in> set (map prod.swap ms)" using map_of_SomeD [OF assms(2)] by force
  ultimately show ?thesis by (rule map_of_is_SomeI)
qed

lemma faithful_only_messages: "distinct (map snd ms) \<Longrightarrow> faithful (only_messages ms)"
  using only_messages_decode [of ms]
  by (auto simp: faithful_def only_messages_def too_long_def split: option.split)

lemma carries_only_messages:
  "distinct (map snd ms) \<Longrightarrow> map_of ms m \<noteq> None \<Longrightarrow> carries (only_messages ms) m"
  using only_messages_decode [of ms m] by (auto simp: carries_def only_messages_def)

definition trip_task :: task_definition where
  "trip_task = task_definition_of (assigned 9 demo_profile race_task) ''medium-abcdefgh'' ''n1''"

definition trip_env :: "(u8, u8, bytes) hub_env" where
  "trip_env = demo_env\<lparr>he_codecs := demo_codecs\<lparr>c_task := only_messages [(trip_task, 5), (trip_task\<lparr>td_module_target := ''n2''\<rparr>, 6)],
     c_progress := only_messages [(simulated_reports trip_task ! 0, 1), (simulated_reports trip_task ! 1, 2),
       (simulated_reports trip_task ! 2, 3)]\<rparr>\<rparr>"

definition trip_worker :: "(u8, u8, bytes) worker_env" where
  "trip_worker = (demo_worker (he_codecs trip_env))\<lparr>we_exists := (\<lambda>_. True)\<rparr>"

definition trip_acts :: "string \<Rightarrow> (u8, u8, bytes) worker_env \<Rightarrow> bool" where
  "trip_acts i w \<longleftrightarrow> i = ''n2'' \<and> w = trip_worker"

lemma trip_codecs: "swarm_codecs trip_env trip_acts"
  by (simp add: swarm_codecs_def trip_env_def trip_acts_def trip_worker_def demo_worker_def
      faithful_only_messages)

lemma trip_carries:
  "carries (c_task (he_codecs trip_env)) trip_task"
  "carries (c_task (he_codecs trip_env)) (trip_task\<lparr>td_module_target := ''n2''\<rparr>)"
  "i < 3 \<Longrightarrow> carries (c_progress (he_codecs trip_env)) (simulated_reports trip_task ! i)"
proof -
  show "carries (c_task (he_codecs trip_env)) trip_task"
    and "carries (c_task (he_codecs trip_env)) (trip_task\<lparr>td_module_target := ''n2''\<rparr>)"
    unfolding trip_env_def by (simp_all add: carries_only_messages)
  assume "i < 3"
  then have "i = 0 \<or> i = 1 \<or> i = 2" by auto
  then show "carries (c_progress (he_codecs trip_env)) (simulated_reports trip_task ! i)"
    unfolding trip_env_def by (auto simp: carries_only_messages)
qed

abbreviation trip_frame :: bytes where
  "trip_frame \<equiv> frame_msg 6 (c_task (he_codecs trip_env)) trip_task"

abbreviation trip_reports :: "bytes list" where
  "trip_reports \<equiv> map (send_progress trip_worker) (simulated_reports trip_task)"

lemma trip_worker_simps [simp]: "we_codecs trip_worker = he_codecs trip_env"
  by (simp add: trip_worker_def demo_worker_def)

lemma trip_dispatch:
  "dispatch_now trip_env race_filed (\<lambda>_. True) 9 [''n1''] [''medium-abcdefgh''] =
     (race_assigned, [(trip_frame, True)])"
proof -
  have "dispatch_pending_tasks (hub_registry race_filed) (hub_scheduler race_filed) 9 [''n1''] [''medium-abcdefgh''] =
      (hub_scheduler race_assigned, [(''medium-abcdefgh'', ''n1'')])"
    using arg_cong [OF race_put, of hub_scheduler]
    by (simp add: dispatch_pending_tasks_cases race_loop)
  moreover have "race_filed\<lparr>hub_scheduler := hub_scheduler race_assigned\<rparr> = race_assigned"
    by (simp add: race_assigned_def)
  moreover have "hub_task_push race_filed = Some ''tcp://127.0.0.1:5556''"
    by (simp add: race_filed_def race_hub_def)
  ultimately show ?thesis
    by (simp add: dispatch_now_def push_task_frame_def trip_task_def List.map_filter_simps)
qed

lemma trip_submit:
  "\<exists>out. medium_turn trip_env (race_hub\<lparr>hub_registry := register_node registry_new demo_profile\<rparr>)
     (\<lambda>_. True) 9 ''abcdefgh-x'' [''n1''] [''medium-abcdefgh'']
     (Received (frame_msg 12 (one_message [9] demo_submit) demo_submit)) = Serving out \<and>
   mo_hub out = race_assigned \<and> mo_pushed out = [(trip_frame, True)]"
proof -
  let ?h = "race_hub\<lparr>hub_registry := register_node registry_new demo_profile\<rparr>"
  have "c_submit_req (he_codecs trip_env) = one_message [9] demo_submit" by (simp add: trip_env_def)
  from submission_of_Some [OF race_submission [OF this], of ?h "\<lambda>_. True" 9 "''abcdefgh-x''"
      "[''n1'']" "[''medium-abcdefgh'']"]
  have "ts_access_key demo_submit \<noteq> []" and
    t: "medium_turn trip_env ?h (\<lambda>_. True) 9 ''abcdefgh-x'' [''n1''] [''medium-abcdefgh'']
      (Received (frame_msg 12 (one_message [9] demo_submit) demo_submit)) =
      medium_submit trip_env ?h (\<lambda>_. True) 9 ''abcdefgh-x'' [''n1''] [''medium-abcdefgh''] demo_submit"
    by simp_all
  moreover have "str_upto ''abcdefgh-x'' 8 = Returns ''abcdefgh''" by (simp add: str_upto_def cont_byte_def)
  moreover have "?h\<lparr>hub_scheduler := submit_task (hub_scheduler ?h) (submitted_task ''medium-abcdefgh'' demo_submit)\<rparr> =
      race_filed"
    by (simp add: race_filed_def race_hub_def race_task_def)
  ultimately show ?thesis unfolding t by (simp add: medium_submit_def trip_dispatch)
qed

lemma trip_execution:
  "task_turn trip_worker (Inr (Some trip_frame)) = (trip_reports, GoOn)"
  "fst (execute_task trip_worker trip_task) = simulated_reports trip_task"
  "executions ''n2'' trip_worker trip_frame = [\<lparr>ex_node = ''n2'', ex_worker = trip_worker, ex_task = trip_task\<rparr>]"
proof -
  have "fst (probe trip_worker ''llm-inference'')"
    by (subst probe_bundle) (simp_all add: trip_worker_def)
  then have e: "execute_task trip_worker trip_task = (simulated_reports trip_task, Returns ())"
    by (simp add: execute_task_capable trip_task_def first_required_def)
  from task_turn_frame [OF _ this] trip_carries(1)
  show "task_turn trip_worker (Inr (Some trip_frame)) = (trip_reports, GoOn)" by simp
  show "fst (execute_task trip_worker trip_task) = simulated_reports trip_task" by (simp add: e)
  show "executions ''n2'' trip_worker trip_frame = [\<lparr>ex_node = ''n2'', ex_worker = trip_worker, ex_task = trip_task\<rparr>]"
    using executions_msg [of trip_worker trip_task] trip_carries(1) by simp
qed

definition trip_sent :: "(u8, u8, bytes) swarm" where
  "trip_sent = (swarm_new race_assigned)\<lparr>sw_tasks := [trip_frame]\<rparr>"

definition trip_worked :: "(u8, u8, bytes) swarm" where
  "trip_worked = (swarm_new race_assigned)\<lparr>sw_reports := trip_reports,
     sw_executed := [\<lparr>ex_node = ''n2'', ex_worker = trip_worker, ex_task = trip_task\<rparr>]\<rparr>"

definition trip_end :: "(u8, u8, bytes) swarm" where
  "trip_end = trip_worked
     \<lparr>sw_hub := race_assigned\<lparr>hub_scheduler :=
        update_task_progress (hub_scheduler race_assigned) ''medium-abcdefgh'' Success\<rparr>,
      sw_reports := take 2 trip_reports, sw_published := [trip_reports ! 2]\<rparr>"

lemma trip_sent_run: "(swarm_step trip_env fresh_uuid trip_acts)\<^sup>*\<^sup>* (swarm_new race_hub) trip_sent"
proof -
  let ?h = "race_hub\<lparr>hub_registry := register_node registry_new demo_profile\<rparr>"
  have "heartbeat_turn trip_env race_hub (Received (frame_msg 5 (one_message [4] demo_heartbeat) demo_heartbeat)) =
      Serving ?h"
    by (simp add: heartbeat_turn_def trip_env_def read_one_message demo_profile_def race_hub_def)
  then have 1: "swarm_step trip_env fresh_uuid trip_acts (swarm_new race_hub) (swarm_new ?h)"
    using swarm_step.profile [of trip_env "swarm_new race_hub :: (u8, u8, bytes) swarm"]
    by (simp add: swarm_new_def)
  obtain out where out: "medium_turn trip_env ?h (\<lambda>_. True) 9 ''abcdefgh-x'' [''n1''] [''medium-abcdefgh'']
      (Received (frame_msg 12 (one_message [9] demo_submit) demo_submit)) = Serving out"
      "mo_hub out = race_assigned" "mo_pushed out = [(trip_frame, True)]"
    using trip_submit by blast
  have "fresh_uuid ?h ''abcdefgh-x''" by (simp add: fresh_uuid_def race_hub_def scheduler_new_def)
  moreover have "transmitted trip_frame"
    using trip_carries(1) by (simp add: transmitted_frame_msg carries_def)
  ultimately have 2: "swarm_step trip_env fresh_uuid trip_acts (swarm_new ?h) trip_sent"
    using swarm_step.client [of fresh_uuid "swarm_new ?h :: (u8, u8, bytes) swarm" "''abcdefgh-x''" trip_env
        "\<lambda>_. True" 9 "[''n1'']" "[''medium-abcdefgh'']" _ out trip_acts] out
    by (simp add: swarm_new_def trip_sent_def accepted_def)
  from 1 2 show ?thesis by (meson converse_rtranclp_into_rtranclp r_into_rtranclp)
qed

lemma trip_reports_frame:
  "i < 3 \<Longrightarrow> trip_reports ! i = frame_msg 7 (c_progress (he_codecs trip_env)) (simulated_reports trip_task ! i)"
  by (subst nth_map) (simp_all add: send_progress_def, simp add: simulated_reports_def)

lemma trip_worked_run: "(swarm_step trip_env fresh_uuid trip_acts)\<^sup>*\<^sup>* (swarm_new race_hub) trip_worked"
proof -
  have "transmitted g" if "g \<in> set trip_reports" for g
  proof -
    have "length trip_reports = 3" by (simp add: simulated_reports_def)
    with that obtain i where "i < 3" "g = trip_reports ! i" by (metis in_set_conv_nth)
    with trip_reports_frame [of i] trip_carries(3) [of i] show ?thesis
      by (simp add: transmitted_frame_msg carries_def)
  qed
  then have "filter transmitted trip_reports = trip_reports" by (simp add: filter_id_conv)
  then have "swarm_step trip_env fresh_uuid trip_acts trip_sent trip_worked"
    using swarm_step.work [of trip_sent "[]" trip_frame "[]" trip_acts "''n2''" trip_worker
        trip_reports GoOn trip_env]
    by (simp add: trip_sent_def trip_worked_def swarm_new_def trip_acts_def trip_execution)
  with trip_sent_run show ?thesis by (rule rtranclp.rtrancl_into_rtrancl)
qed

lemma trip_run: "(swarm_step trip_env fresh_uuid trip_acts)\<^sup>*\<^sup>* (swarm_new race_hub) trip_end"
proof -
  let ?p = "simulated_reports trip_task ! 2"
  have pub: "published_to race_assigned f = [f]" for f
    by (simp add: published_to_def race_assigned_def race_filed_def race_hub_def)
  have p: "?p = progress_msg ''medium-abcdefgh'' COMPLETED (Fin 100) [] [] []"
    by (simp add: simulated_reports_def trip_task_def)
  have turn: "progress_turn trip_env race_assigned (Received (trip_reports ! 2)) = Serving
      (race_assigned\<lparr>hub_scheduler :=
        update_task_progress (hub_scheduler race_assigned) ''medium-abcdefgh'' Success\<rparr>, [trip_reports ! 2])"
    using progress_turn_frame [OF trip_carries(3) [of 2], of race_assigned] trip_reports_frame [of 2]
    by (simp add: pub p progress_result_simps)
  have split: "trip_reports = take 2 trip_reports @ trip_reports ! 2 # []"
    by (simp add: simulated_reports_def)
  then have "swarm_step trip_env fresh_uuid trip_acts trip_worked trip_end"
    using swarm_step.report [of trip_worked "take 2 trip_reports" "trip_reports ! 2" "[]" trip_env] turn
    by (simp add: trip_worked_def trip_end_def swarm_new_def)
  with trip_worked_run show ?thesis by (rule rtranclp.rtrancl_into_rtrancl)
qed

subsection \<open>Properties\<close>

lemma swarm_start_inv:
  assumes "registry_inv reg" and "registry_ok reg"
    and "start_servers new_socket listen (hub_new reg scheduler_new ip) = Returns (h, addrs)"
    and "(swarm_step env fresh_uuid acts)\<^sup>*\<^sup>* (swarm_new h) s" and "swarm_codecs env acts"
  shows "swarm_inv (he_codecs env) acts s"
proof -
  have "hub_scheduler h = scheduler_new"
    using assms(3) by (auto simp: start_servers_def hub_new_def Let_def split: if_splits)
  with swarm_new_inv [OF hub_ok_new [OF assms(1-3)]] assms(5)
  have "swarm_ok env acts (swarm_new h)" by (simp add: swarm_ok_def)
  from whole_swarm.run_inv [OF assms(4) this] show ?thesis by (simp add: swarm_ok_def)
qed

text \<open>C3: Completion is earned: from the start of the hub, as long as the medium server draws UUIDs
  whose first eight digits name no task yet, whatever is dispatched, lost, delivered
  to any worker or reordered, the hub holds a task as completed only if some worker has executed
  it, with the requirements the hub has for it, accepted every capability it requires and sent a
  completed report.\<close>

theorem completed_only_if_executed:
  assumes "registry_inv reg" and "registry_ok reg"
    and "start_servers new_socket listen (hub_new reg scheduler_new ip) = Returns (h, addrs)"
    and "(swarm_step env fresh_uuid acts)\<^sup>*\<^sup>* (swarm_new h) s" and "swarm_codecs env acts"
    and "get_task (hub_scheduler (sw_hub s)) k = Some t" and "tk_state t = Completed r"
  shows "\<exists>e\<in>set (sw_executed s). td_task_id (ex_task e) = k \<and>
    td_required_capabilities (ex_task e) = tk_required t \<and> acts (ex_node e) (ex_worker e) \<and>
    (\<forall>cap\<in>set (tk_required t). fst (probe (ex_worker e) cap)) \<and>
    (\<exists>p\<in>set (fst (execute_task (ex_worker e) (ex_task e))).
       tp_task_id p = k \<and> tp_status p = status_i32 COMPLETED)"
proof -
  note inv = swarm_start_inv [OF assms(1-5)]
  then have "k \<in> done_ids (sw_executed s)"
    using assms(6,7) by (simp add: swarm_inv_def completed_within_def)
  then obtain e where e: "e \<in> set (sw_executed s)" "succeeded e" "k = td_task_id (ex_task e)"
    by (auto simp: done_ids_def)
  with inv have "known_execution acts (sw_hub s) e" by (simp add: swarm_inv_def)
  with e(3) assms(6) have k: "acts (ex_node e) (ex_worker e)" "td_required_capabilities (ex_task e) = tk_required t"
    by (auto simp: known_execution_def)
  obtain p where p: "p \<in> set (fst (execute_task (ex_worker e) (ex_task e)))" "tp_status p = status_i32 COMPLETED"
    using e(2) by (auto simp: succeeded_def)
  with execute_task_ids [OF p(1)] e k succeeded_probes [OF e(2)] show ?thesis by (intro bexI [of _ e]) auto
qed

theorem completed_only_if_executed_witness:
  "\<exists>e\<in>set (sw_executed trip_end). ex_node e = ''n2'' \<and> td_task_id (ex_task e) = ''medium-abcdefgh''"
proof -
  have t: "get_task (hub_scheduler (sw_hub trip_end)) ''medium-abcdefgh'' =
      Some ((assigned 9 demo_profile race_task)\<lparr>tk_state := Completed []\<rparr>)"
    by (simp add: trip_end_def store_simps)
  have "tk_state ((assigned 9 demo_profile race_task)\<lparr>tk_state := Completed []\<rparr>) = Completed []" by simp
  from completed_only_if_executed [OF registry_inv_new registry_new_ok race_start trip_run trip_codecs t this]
  show ?thesis by (auto simp: trip_acts_def)
qed

text \<open>C7: No task is executed twice: from the start of the hub, as long as the medium server draws
  UUIDs whose first eight digits name no task yet, among the frames in flight and the executions
  of all workers no task id occurs twice, and every task executed is running or completed at the
  hub. (The code truncates the UUID and does not check: when the digits collide the id is filed,
  pushed and executed again.)\<close>

theorem executed_at_most_once:
  assumes "registry_inv reg" and "registry_ok reg"
    and "start_servers new_socket listen (hub_new reg scheduler_new ip) = Returns (h, addrs)"
    and "(swarm_step env fresh_uuid acts)\<^sup>*\<^sup>* (swarm_new h) s" and "swarm_codecs env acts"
  shows "distinct (map td_task_id (List.map_filter (frame_task (he_codecs env)) (sw_tasks s)) @
      map (\<lambda>e. td_task_id (ex_task e)) (sw_executed s)) \<and>
    (\<forall>e\<in>set (sw_executed s). \<exists>t. get_task (hub_scheduler (sw_hub s)) (td_task_id (ex_task e)) = Some t \<and>
       ((\<exists>since. tk_state t = Running (td_module_target (ex_task e)) since) \<or> (\<exists>r. tk_state t = Completed r)))"
proof -
  note inv = swarm_start_inv [OF assms]
  have ids: "map fst (List.map_filter (frame_commit cs) fs) =
      map td_task_id (List.map_filter (frame_task cs) fs)" for cs fs
    by (induction fs) (auto simp: frame_commit_def List.map_filter_simps split: option.splits)
  have ok: "commit_ok (sw_hub s) (List.map_filter (frame_commit (he_codecs env)) (sw_tasks s) @
      map ex_commit (sw_executed s))"
    using inv by (simp add: swarm_inv_def)
  then have "distinct (map fst (List.map_filter (frame_commit (he_codecs env)) (sw_tasks s)) @
      map (fst \<circ> ex_commit) (sw_executed s))"
    by (simp add: commit_ok_def)
  then have d: "distinct (map td_task_id (List.map_filter (frame_task (he_codecs env)) (sw_tasks s)) @
      map (\<lambda>e. td_task_id (ex_task e)) (sw_executed s))"
    unfolding ids by (simp add: comp_def ex_commit_def)
  have "assigned_to (sw_hub s) (td_task_id (ex_task e)) (td_module_target (ex_task e))"
    if "e \<in> set (sw_executed s)" for e
    using ok that by (auto simp: commit_ok_def ex_commit_def)
  then have "\<forall>e\<in>set (sw_executed s). \<exists>t. get_task (hub_scheduler (sw_hub s)) (td_task_id (ex_task e)) = Some t \<and>
       ((\<exists>since. tk_state t = Running (td_module_target (ex_task e)) since) \<or> (\<exists>r. tk_state t = Completed r))"
    by (auto simp: assigned_to_def kept_or_done_def)
  with d show ?thesis by blast
qed

theorem executed_at_most_once_witness:
  "distinct (map (\<lambda>e. td_task_id (ex_task e)) (sw_executed trip_worked)) \<and>
   length (sw_executed trip_worked) = 1"
  using executed_at_most_once [OF registry_inv_new registry_new_ok race_start trip_worked_run trip_codecs]
  by (simp add: trip_worked_def)

text \<open>C30: The push socket decides who executes: any worker that gets a task frame, whatever its
  node id, does with it exactly what it would do with the frame of the same task addressed to
  itself, so the hub's choice of the node, by its capabilities, has no effect on who executes.\<close>

theorem any_worker_executes:
  assumes "carries (c_task (he_codecs env)) td"
    and "carries (c_task (he_codecs env)) (td\<lparr>td_module_target := i\<rparr>)"
    and "sw_tasks s = fs @ frame_msg 6 (c_task (he_codecs env)) td # gs"
    and "acts i w" and "we_codecs w = he_codecs env"
  shows "\<exists>s'. swarm_step env uuid_ok acts s s' \<and>
    sw_reports s' = sw_reports s @ filter transmitted (fst (task_turn w
      (Inr (Some (frame_msg 6 (c_task (he_codecs env)) (td\<lparr>td_module_target := i\<rparr>)))))) \<and>
    sw_executed s' = sw_executed s @ [\<lparr>ex_node = i, ex_worker = w, ex_task = td\<rparr>]"
proof -
  let ?f = "\<lambda>td. frame_msg 6 (c_task (he_codecs env)) td"
  obtain frames e where t: "task_turn w (Inr (Some (?f td))) = (frames, e)" by fastforce
  obtain frames' e' where t': "task_turn w (Inr (Some (?f (td\<lparr>td_module_target := i\<rparr>)))) = (frames', e')"
    by fastforce
  have "frames = frames'"
    using task_turn_msg [of w td frames e] task_turn_msg [of w "td\<lparr>td_module_target := i\<rparr>" frames' e'] t t' assms(1,2,5)
    by (simp add: execute_ignores_target)
  with swarm_step.work [where acts = acts and env = env and uuid_ok = uuid_ok, OF assms(3,4) t] executions_msg [of w td i] assms(1,5) t'
  show ?thesis by (intro exI [where x = "s\<lparr>sw_tasks := fs @ gs, sw_reports := sw_reports s @ filter transmitted frames,
      sw_executed := sw_executed s @ [\<lparr>ex_node = i, ex_worker = w, ex_task = td\<rparr>]\<rparr>"]) simp
qed

theorem any_worker_executes_witness:
  "td_module_target trip_task = ''n1'' \<and>
   (\<exists>s'. swarm_step trip_env fresh_uuid trip_acts trip_sent s' \<and>
      sw_executed s' = [\<lparr>ex_node = ''n2'', ex_worker = trip_worker, ex_task = trip_task\<rparr>])"
proof -
  have tasks: "sw_tasks trip_sent = [] @ trip_frame # []" by (simp add: trip_sent_def)
  have exec: "sw_executed trip_sent = []" by (simp add: trip_sent_def swarm_new_def)
  have "trip_acts ''n2'' trip_worker" by (simp add: trip_acts_def)
  from any_worker_executes [where env = trip_env and acts = trip_acts and uuid_ok = fresh_uuid, OF trip_carries(1,2) tasks this]
  have "\<exists>s'. swarm_step trip_env fresh_uuid trip_acts trip_sent s' \<and>
      sw_executed s' = [\<lparr>ex_node = ''n2'', ex_worker = trip_worker, ex_task = trip_task\<rparr>]"
    by (auto simp: exec)
  then show ?thesis by (simp add: trip_task_def task_definition_of_def)
qed

text \<open>C31: What is lost stays lost: when a task is running at the hub and neither its frame nor a
  report about it is in flight (the frame was lost, or its last report, or its worker refused
  it), then, as long as the medium server draws UUIDs whose first eight digits name no task yet,
  the task stays exactly as it is in every later state, whatever workers do and however many
  heartbeats and dispatches follow; the hub never notices and never retries.\<close>

theorem lost_task_stays_running:
  assumes "registry_inv reg" and "registry_ok reg"
    and "start_servers new_socket listen (hub_new reg scheduler_new ip) = Returns (h, addrs)"
    and "(swarm_step env fresh_uuid acts)\<^sup>*\<^sup>* (swarm_new h) s" and "swarm_codecs env acts"
    and "get_task (hub_scheduler (sw_hub s)) k = Some t" and "tk_state t = Running n since"
    and "\<And>td. td_task_id td = k \<Longrightarrow> frame_msg 6 (c_task (he_codecs env)) td \<notin> set (sw_tasks s)"
    and "\<And>p. tp_task_id p = k \<Longrightarrow> frame_msg 7 (c_progress (he_codecs env)) p \<notin> set (sw_reports s)"
    and "(swarm_step env fresh_uuid acts)\<^sup>*\<^sup>* s s'"
  shows "get_task (hub_scheduler (sw_hub s')) k = Some t"
proof -
  note inv = swarm_start_inv [OF assms(1-5)]
  have "other_task (he_codecs env) k f" if "f \<in> set (sw_tasks s)" for f
  proof -
    from inv that obtain td where "f = frame_msg 6 (c_task (he_codecs env)) td" "carries (c_task (he_codecs env)) td"
      by (auto simp: swarm_inv_def task_frame_def)
    with assms(8) that show ?thesis by (auto simp: other_task_def)
  qed
  moreover have "other_report (he_codecs env) k f" if "f \<in> set (sw_reports s)" for f
  proof -
    from inv that obtain p where "f = frame_msg 7 (c_progress (he_codecs env)) p" "carries (c_progress (he_codecs env)) p"
      by (auto simp: swarm_inv_def honest_report_def)
    with assms(9) that show ?thesis by (auto simp: other_report_def)
  qed
  ultimately have "stuck env acts k t s"
    using inv assms(5-7) by (simp add: stuck_def stranded_def swarm_inv_def)
  from stuck_task.run_inv [OF assms(10) this] show ?thesis by (simp add: stuck_def stranded_def)
qed

theorem lost_task_stays_running_witness:
  "get_task (hub_scheduler (sw_hub (swarm_new race_assigned :: (u8, u8, bytes) swarm))) ''medium-abcdefgh'' =
     Some (assigned 9 demo_profile race_task)"
proof (rule lost_task_stays_running [OF registry_inv_new registry_new_ok race_start _ trip_codecs])
  have "swarm_step trip_env fresh_uuid trip_acts trip_sent (swarm_new race_assigned)"
    using swarm_step.lose_task [of trip_sent "[]" trip_frame "[]" trip_env fresh_uuid trip_acts]
    by (simp add: trip_sent_def swarm_new_def)
  with trip_sent_run show "(swarm_step trip_env fresh_uuid trip_acts)\<^sup>*\<^sup>* (swarm_new race_hub) (swarm_new race_assigned)"
    by (rule rtranclp.rtrancl_into_rtrancl)
qed (simp_all add: swarm_new_def)

end
