(* ===== verification/HubRuns.thy ===== *)
theory HubRuns
  imports Swarm
begin

text \<open>
  The hub's server functions from start to end (\<open>run_auth_server\<close>, \<open>run_heartbeat_server\<close>,
  \<open>run_task_sender_loop\<close>, \<open>run_medium_server\<close> and \<open>run_progress_receiver_server\<close> of
  \<open>compute-module-core/src/server.rs\<close>): the socket is opened, then the turns of \<open>HubServer\<close>
  follow each other until one ends the server. Nothing starts a server again: its spawner only
  prints the error.
\<close>

subsection \<open>Opening and serving\<close>

text \<open>The socket is made, its receive timeout set, and bound; the first error is returned.\<close>

definition open_server :: "string + unit \<Rightarrow> string + unit \<Rightarrow> string + unit \<Rightarrow> string + unit" where
  "open_server new set_timeout listen = try_all [new, set_timeout, listen]"

datatype server_end = StillServing | ReturnedError string | PanickedServer

text \<open>What happens while a server runs: a turn of its own, or a change the other servers make to
  the hub they share. The result is the hub with the server's own state, what the server sent,
  and how it stands; \<open>left\<close> is the hub after a turn that ends the server with an error.\<close>

datatype 'e happening = Turn 'e | Others "hub \<Rightarrow> hub"

fun serve ::
    "(hub \<times> 'l \<Rightarrow> 'e \<Rightarrow> ((hub \<times> 'l) \<times> 'o list) served) \<Rightarrow> (hub \<times> 'l \<Rightarrow> 'e \<Rightarrow> hub) \<Rightarrow> hub \<times> 'l \<Rightarrow>
     'e happening list \<Rightarrow> (hub \<times> 'l) \<times> 'o list \<times> server_end" where
  "serve turn left s [] = (s, [], StillServing)"
| "serve turn left s (Others f # es) = serve turn left (f (fst s), snd s) es"
| "serve turn left s (Turn e # es) =
     (case turn s e of
        Serving (s', out) \<Rightarrow> (case serve turn left s' es of (t, rest, end_) \<Rightarrow> (t, out @ rest, end_))
      | Stopped err \<Rightarrow> ((left s e, snd s), [], ReturnedError err)
      | Crashed \<Rightarrow> (s, [], PanickedServer))"

definition run_server ::
    "string + unit \<Rightarrow> (hub \<times> 'l \<Rightarrow> 'e \<Rightarrow> ((hub \<times> 'l) \<times> 'o list) served) \<Rightarrow> (hub \<times> 'l \<Rightarrow> 'e \<Rightarrow> hub) \<Rightarrow>
     hub \<times> 'l \<Rightarrow> 'e happening list \<Rightarrow> (hub \<times> 'l) \<times> 'o list \<times> server_end" where
  "run_server opened turn left s es =
     (case opened of Inl e \<Rightarrow> (s, [], ReturnedError e) | Inr _ \<Rightarrow> serve turn left s es)"

subsection \<open>The five servers\<close>

text \<open>What one turn of the authentication server takes from the machine: the token and the time it
  would put in a challenge, the session id, the socket's send, and the receive.\<close>

type_synonym auth_event = "bytes \<times> u64 \<times> string \<times> (bytes \<Rightarrow> string + unit) \<times> recv_result"

definition auth_serving ::
    "('sk, 'vk, 'sg) hub_env \<Rightarrow> hub \<times> auth_phase \<Rightarrow> auth_event \<Rightarrow> ((hub \<times> auth_phase) \<times> bytes list) served" where
  "auth_serving env s e =
     (case (s, e) of ((h, phase), (token, ts, uuid, send, r)) \<Rightarrow>
       (case auth_turn env h phase token ts uuid send r of
          Serving out \<Rightarrow> Serving ((ao_hub out, ao_phase out), case ao_reply out of Some f \<Rightarrow> [f] | None \<Rightarrow> [])
        | Stopped err \<Rightarrow> Stopped err
        | Crashed \<Rightarrow> Crashed))"

definition run_auth_server ::
    "('sk, 'vk, 'sg) hub_env \<Rightarrow> string + unit \<Rightarrow> string + unit \<Rightarrow> string + unit \<Rightarrow> hub \<Rightarrow>
     auth_event happening list \<Rightarrow> (hub \<times> auth_phase) \<times> bytes list \<times> server_end" where
  "run_auth_server env new set_timeout listen h es =
     run_server (open_server new set_timeout listen) (auth_serving env)
       (\<lambda>(h, phase) (_, _, _, _, r). auth_left env h phase r) (h, AwaitJoin) es"

definition heartbeat_serving ::
    "('sk, 'vk, 'sg) hub_env \<Rightarrow> hub \<times> unit \<Rightarrow> recv_result \<Rightarrow> ((hub \<times> unit) \<times> bytes list) served" where
  "heartbeat_serving env s r =
     (case heartbeat_turn env (fst s) r of
        Serving h' \<Rightarrow> Serving ((h', ()), []) | Stopped e \<Rightarrow> Stopped e | Crashed \<Rightarrow> Crashed)"

definition run_heartbeat_server ::
    "('sk, 'vk, 'sg) hub_env \<Rightarrow> string + unit \<Rightarrow> string + unit \<Rightarrow> string + unit \<Rightarrow> hub \<Rightarrow>
     recv_result happening list \<Rightarrow> (hub \<times> unit) \<times> bytes list \<times> server_end" where
  "run_heartbeat_server env new set_timeout listen h es =
     run_server (open_server new set_timeout listen) (heartbeat_serving env) (\<lambda>s _. fst s) (h, ()) es"

text \<open>The task sender has no socket of its own and no way to end.\<close>

type_synonym sender_event = "(bytes \<Rightarrow> bool) \<times> u64 \<times> string list \<times> string list"

definition sender_serving ::
    "('sk, 'vk, 'sg) hub_env \<Rightarrow> hub \<times> unit \<Rightarrow> sender_event \<Rightarrow> ((hub \<times> unit) \<times> (bytes \<times> bool) list) served" where
  "sender_serving env s e =
     (case e of (send, now, nks, tks) \<Rightarrow>
       (case task_sender_turn env (fst s) send now nks tks of (h', sent) \<Rightarrow> Serving ((h', ()), sent)))"

definition run_task_sender_loop ::
    "('sk, 'vk, 'sg) hub_env \<Rightarrow> hub \<Rightarrow> sender_event happening list \<Rightarrow>
     (hub \<times> unit) \<times> (bytes \<times> bool) list \<times> server_end" where
  "run_task_sender_loop env h es = serve (sender_serving env) (\<lambda>s _. fst s) (h, ()) es"

type_synonym medium_event = "(bytes \<Rightarrow> bool) \<times> u64 \<times> string \<times> string list \<times> string list \<times> recv_result"

definition medium_serving ::
    "('sk, 'vk, 'sg) hub_env \<Rightarrow> hub \<times> unit \<Rightarrow> medium_event \<Rightarrow>
     ((hub \<times> unit) \<times> (bytes option \<times> (bytes \<times> bool) list) list) served" where
  "medium_serving env s e =
     (case e of (send, now, uuid, nks, tks, r) \<Rightarrow>
       (case medium_turn env (fst s) send now uuid nks tks r of
          Serving out \<Rightarrow> Serving ((mo_hub out, ()), [(mo_reply out, mo_pushed out)])
        | Stopped err \<Rightarrow> Stopped err
        | Crashed \<Rightarrow> Crashed))"

definition run_medium_server ::
    "('sk, 'vk, 'sg) hub_env \<Rightarrow> string + unit \<Rightarrow> string + unit \<Rightarrow> string + unit \<Rightarrow> hub \<Rightarrow>
     medium_event happening list \<Rightarrow>
     (hub \<times> unit) \<times> (bytes option \<times> (bytes \<times> bool) list) list \<times> server_end" where
  "run_medium_server env new set_timeout listen h es =
     run_server (open_server new set_timeout listen) (medium_serving env) (\<lambda>s _. fst s) (h, ()) es"

definition progress_serving ::
    "('sk, 'vk, 'sg) hub_env \<Rightarrow> hub \<times> unit \<Rightarrow> recv_result \<Rightarrow> ((hub \<times> unit) \<times> bytes list) served" where
  "progress_serving env s r =
     (case progress_turn env (fst s) r of
        Serving (h', published) \<Rightarrow> Serving ((h', ()), published) | Stopped e \<Rightarrow> Stopped e | Crashed \<Rightarrow> Crashed)"

definition run_progress_receiver_server ::
    "('sk, 'vk, 'sg) hub_env \<Rightarrow> string + unit \<Rightarrow> string + unit \<Rightarrow> string + unit \<Rightarrow> hub \<Rightarrow>
     recv_result happening list \<Rightarrow> (hub \<times> unit) \<times> bytes list \<times> server_end" where
  "run_progress_receiver_server env new set_timeout listen h es =
     run_server (open_server new set_timeout listen) (progress_serving env) (\<lambda>s _. fst s) (h, ()) es"

subsection \<open>Runs\<close>

lemma serve_append:
  "serve turn left s (es @ fs) =
     (case serve turn left s es of (t, out, e) \<Rightarrow>
        if e = StillServing then (case serve turn left t fs of (u, rest, e') \<Rightarrow> (u, out @ rest, e'))
        else (t, out, e))"
  by (induction turn left s es rule: serve.induct) (auto split: served.split prod.split)

lemma task_sender_never_ends: "snd (snd (run_task_sender_loop env h es)) = StillServing"
proof -
  have "snd (snd (serve (sender_serving env) left s es)) = StillServing" for left s
  proof (induction es arbitrary: s)
    case (Cons x es)
    have "snd (snd (case p of (t, rest, end_) \<Rightarrow> (t, out @ rest, end_))) = snd (snd p)"
      for p :: "(hub \<times> unit) \<times> (bytes \<times> bool) list \<times> server_end" and out
      by (simp split: prod.split)
    with Cons.IH show ?case
      by (cases x) (simp_all add: sender_serving_def split: prod.split)
  qed simp
  then show ?thesis by (simp add: run_task_sender_loop_def)
qed

text \<open>One join, by a node whose challenge can be sent.\<close>

lemma auth_serving_join:
  assumes "\<And>f. send f = Inr ()"
  shows "auth_serving env (h, AwaitJoin) (token, ts, uuid, send, Received (join_frame c)) =
    Serving ((h, AwaitResponse token),
      [frame_msg 2 (c_challenge (he_codecs env)) \<lparr>hc_high_entropy_token = token, hc_timestamp = ts\<rparr>])"
  using assms by (simp add: auth_serving_def auth_join_def join_frame_def auth_send_def)

text \<open>What arrives out of turn is dropped without a reply: a join while a response is awaited, a
  response while a join is awaited. In both cases a join is awaited next.\<close>

lemma auth_serving_out_of_turn:
  "auth_serving env (h, AwaitResponse ch) (token, ts, uuid, send, Received (join_frame c)) =
     Serving ((h, AwaitJoin), [])"
  "auth_serving env (h, AwaitJoin) (token, ts, uuid, send, Received (frame_msg 3 cd m)) =
     Serving ((h, AwaitJoin), [])"
  by (simp_all add: auth_serving_def auth_join_def auth_response_def auth_idle_def join_frame_def)

lemma auth_serving_silence:
  "auth_serving env (h, AwaitResponse ch) (token, ts, uuid, send, RecvTimedOut) = Stopped (he_timed_out env)"
  by (simp add: auth_serving_def auth_response_def)

subsection \<open>Properties\<close>

text \<open>C37: One silent node ends authentication for all: if a node joins and then says nothing until
  the receive times out, the authentication server returns, however long it has served, and
  whatever is sent to it afterwards gets no answer; no node can authenticate any more.\<close>

theorem silent_node_ends_authentication:
  assumes "run_auth_server env new set_timeout listen h es = ((h1, AwaitJoin), out, StillServing)"
    and "\<And>f. send f = Inr ()"
  shows "run_auth_server env new set_timeout listen h
      (es @ Turn (token, ts, uuid, send, Received (join_frame c)) # map Others fs @
       Turn (token', ts', uuid', send', RecvTimedOut) # rest) =
    ((fold (\<lambda>f h. f h) fs h1, AwaitResponse token),
     out @ [frame_msg 2 (c_challenge (he_codecs env)) \<lparr>hc_high_entropy_token = token, hc_timestamp = ts\<rparr>],
     ReturnedError (he_timed_out env))"
proof -
  let ?left = "\<lambda>(h, phase) (_ :: bytes, _ :: u64, _ :: string, _ :: bytes \<Rightarrow> string + unit, r). auth_left env h phase r"
  obtain u where opened: "open_server new set_timeout listen = Inr u"
    using assms(1) by (auto simp: run_auth_server_def run_server_def split: sum.splits)
  have run: "serve (auth_serving env) ?left (h, AwaitJoin) es = ((h1, AwaitJoin), out, StillServing)"
    using assms(1) by (simp add: run_auth_server_def run_server_def opened)
  have others: "serve (auth_serving env) ?left (g, AwaitResponse token) (map Others fs @
        Turn (token', ts', uuid', send', RecvTimedOut) # rest) =
      ((fold (\<lambda>f h. f h) fs g, AwaitResponse token), [], ReturnedError (he_timed_out env))" for g
    by (induction fs arbitrary: g) (simp_all add: auth_serving_silence auth_left_def)
  show ?thesis
    by (simp add: run_auth_server_def run_server_def opened run others auth_serving_join [OF assms(2)]
        serve_append [of "auth_serving env" ?left "(h, AwaitJoin)" es])
qed

theorem silent_node_ends_authentication_witness:
  "snd (snd (run_auth_server demo_env (Inr ()) (Inr ()) (Inr ()) demo_hub
     [Turn ([1, 2], 5, ''u'', \<lambda>_. Inr (), Received (join_frame demo_client)),
      Others (\<lambda>h. h), Turn ([3], 6, ''v'', \<lambda>_. Inr (), RecvTimedOut)])) = ReturnedError ''TimedOut''"
proof -
  have "run_auth_server demo_env (Inr ()) (Inr ()) (Inr ()) demo_hub [] = ((demo_hub, AwaitJoin), [], StillServing)"
    by (simp add: run_auth_server_def run_server_def open_server_def)
  from silent_node_ends_authentication [OF this, of "\<lambda>_. Inr ()" "[1, 2]" 5 "''u''" demo_client "[\<lambda>h. h]" "[3]" 6 "''v''"
      "\<lambda>_. Inr ()" "[]"]
  show ?thesis by simp
qed

text \<open>C38: Two handshakes at once defeat each other: if a second node joins before the first has
  answered its challenge, the second join is dropped without a reply, the first node's response
  comes too late and is dropped as well, and so is whatever response the second would send; the
  server has sent one challenge, authenticated nobody and recorded nothing, although both nodes
  followed the protocol.\<close>

theorem handshakes_collide:
  assumes "open_server new set_timeout listen = Inr ()" and "\<And>f. send f = Inr ()"
  shows "run_auth_server env new set_timeout listen h
      [Turn (token, ts, uuid, send, Received (join_frame a)),
       Turn (token2, ts2, uuid2, send2, Received (join_frame b)),
       Turn (token3, ts3, uuid3, send3, Received (frame_msg 3 (c_response (he_codecs env)) response_a)),
       Turn (token4, ts4, uuid4, send4, Received (frame_msg 3 (c_response (he_codecs env)) response_b))] =
    ((h, AwaitJoin),
     [frame_msg 2 (c_challenge (he_codecs env)) \<lparr>hc_high_entropy_token = token, hc_timestamp = ts\<rparr>],
     StillServing)"
  by (simp add: run_auth_server_def run_server_def assms(1) auth_serving_join [OF assms(2)]
      auth_serving_out_of_turn)

theorem handshakes_collide_witness:
  "fst (run_auth_server demo_env (Inr ()) (Inr ()) (Inr ()) demo_hub
     [Turn ([1, 2], 5, ''u'', \<lambda>_. Inr (), Received (join_frame demo_client)),
      Turn ([3, 4], 5, ''v'', \<lambda>_. Inr (), Received (join_frame demo_client)),
      Turn ([], 5, ''w'', \<lambda>_. Inr (), Received (frame_msg 3 (c_response (he_codecs demo_env)) demo_response)),
      Turn ([], 5, ''x'', \<lambda>_. Inr (), Received (frame_msg 3 (c_response (he_codecs demo_env)) demo_response))]) =
   (demo_hub, AwaitJoin)"
  using handshakes_collide [of "Inr ()" "Inr ()" "Inr ()" "\<lambda>_. Inr ()" demo_env demo_hub "[1, 2]" 5 "''u''" demo_client
      "[3, 4]" 5 "''v''" "\<lambda>_. Inr ()" demo_client "[]" 5 "''w''" "\<lambda>_. Inr ()" demo_response "[]" 5 "''x''" "\<lambda>_. Inr ()" demo_response]
  by (simp add: open_server_def)

end
