(* ===== verification/Cluster.thy ===== *)
theory Cluster
  imports NodeRole
begin

text \<open>
  A cluster of nodes on one network: every node runs the role loop of \<open>NodeRole\<close> (\<open>main.rs\<close>)
  against one clock and hears the others' announcements through \<open>Mdns\<close>. Nodes boot and crash at
  any time; a datagram reaches any node or none. What the failover and the step-down of the
  architecture decision on leader election come to is stated over the runs of this system.
\<close>

subsection \<open>The role loop against the clock\<close>

text \<open>
  One turn of the role loop at time \<open>now\<close>. \<open>sessions\<close> gives the result of \<open>run_demo_lifecycle\<close>
  against the hub at an address. Every turn is a step of \<open>node_step\<close>.
\<close>

inductive role_turn :: "(string \<Rightarrow> string + unit) \<Rightarrow> nat \<Rightarrow> node \<Rightarrow> node \<Rightarrow> bool"
  for sessions now where
  boot: "nd_role n = Starting \<Longrightarrow> role_turn sessions now n (n\<lparr>nd_role := Deciding\<rparr>)"
| join_leader: "nd_role n = Deciding \<Longrightarrow> iterates (el_peers (nd_election n)) ks \<Longrightarrow>
    decide (nd_election n) now ks now ks = Follow base \<Longrightarrow>
    role_turn sessions now n (n\<lparr>nd_role := Following base\<rparr>)"
| take_lead: "nd_role n = Deciding \<Longrightarrow> iterates (el_peers (nd_election n)) ks \<Longrightarrow>
    decide (nd_election n) now ks now ks = Lead \<Longrightarrow>
    start_leading new_socket (bind_free n os_allows) profile (nd_election n) = Returns (h, e) \<Longrightarrow>
    role_turn sessions now n \<lparr>nd_election = e, nd_role = Leading,
      nd_listening = nd_listening n \<union> hub_listening h\<rparr>"
| fail_lead: "nd_role n = Deciding \<Longrightarrow> iterates (el_peers (nd_election n)) ks \<Longrightarrow>
    decide (nd_election n) now ks now ks = Lead \<Longrightarrow>
    start_leading new_socket (bind_free n os_allows) profile (nd_election n) = Panics \<Longrightarrow>
    role_turn sessions now n (n\<lparr>nd_role := Dead\<rparr>)"
| stand_by: "nd_role n = Deciding \<Longrightarrow> iterates (el_peers (nd_election n)) ks \<Longrightarrow>
    decide (nd_election n) now ks now ks = Wait \<Longrightarrow> role_turn sessions now n n"
| stay_leader: "nd_role n = Leading \<Longrightarrow> iterates (el_peers (nd_election n)) ks \<Longrightarrow>
    leader_check (nd_election n) now ks = (e, False) \<Longrightarrow>
    role_turn sessions now n (n\<lparr>nd_election := e\<rparr>)"
| resign: "nd_role n = Leading \<Longrightarrow> iterates (el_peers (nd_election n)) ks \<Longrightarrow>
    leader_check (nd_election n) now ks = (e, True) \<Longrightarrow>
    role_turn sessions now n (n\<lparr>nd_election := e, nd_role := Deciding\<rparr>)"
| stay_follower: "nd_role n = Following base \<Longrightarrow> iterates (el_peers (nd_election n)) ks \<Longrightarrow>
    \<not> follower_poll (sessions base) (nd_election n) now ks \<Longrightarrow> role_turn sessions now n n"
| lose_leader: "nd_role n = Following base \<Longrightarrow> iterates (el_peers (nd_election n)) ks \<Longrightarrow>
    follower_poll (sessions base) (nd_election n) now ks \<Longrightarrow>
    role_turn sessions now n (n\<lparr>nd_election := clear_leader_flags (nd_election n), nd_role := Deciding\<rparr>)"

lemma role_turn_node_step: "role_turn sessions now n n' \<Longrightarrow> node_step n n'"
  by (cases rule: role_turn.cases) (auto intro: node_step.intros)

subsection \<open>The cluster\<close>

record cluster =
  cl_nodes :: "string \<rightharpoonup> node"
  cl_now :: nat

definition cluster_new :: cluster where
  "cluster_new = \<lparr>cl_nodes = Map.empty, cl_now = 0\<rparr>"

text \<open>Ids and addresses are words without colons, as the nodes generate them. \<open>announce\<close>: one of
  the datagrams of a node's broadcaster turn reaches one node.\<close>

definition plain_word :: "string \<Rightarrow> bool" where
  "plain_word s \<longleftrightarrow> plain s \<and> length s \<le> 200"

inductive cluster_step ::
    "(string \<Rightarrow> string option) \<Rightarrow> (string \<Rightarrow> string + unit) \<Rightarrow> cluster \<Rightarrow> cluster \<Rightarrow> bool"
  for ip sessions where
  join: "cl_nodes c i = None \<Longrightarrow> plain_word i \<Longrightarrow>
    cluster_step ip sessions c (c\<lparr>cl_nodes := (cl_nodes c)(i \<mapsto> node_new i)\<rparr>)"
| crash: "cluster_step ip sessions c (c\<lparr>cl_nodes := (cl_nodes c)(i := None)\<rparr>)"
| tick: "cl_now c \<le> t \<Longrightarrow> cluster_step ip sessions c (c\<lparr>cl_now := t\<rparr>)"
| announce: "cl_nodes c i = Some n \<Longrightarrow> nd_role n \<noteq> Dead \<Longrightarrow>
    d \<in> set (broadcaster_turn i (nd_election n) (ip i)) \<Longrightarrow> cl_nodes c j = Some m \<Longrightarrow> nd_role m \<noteq> Dead \<Longrightarrow>
    cluster_step ip sessions c (c\<lparr>cl_nodes := (cl_nodes c)(j \<mapsto>
      m\<lparr>nd_election := listener_turn (nd_election m) (cl_now c) (Inr d)\<rparr>)\<rparr>)"
| act: "cl_nodes c i = Some n \<Longrightarrow> role_turn sessions (cl_now c) n n' \<Longrightarrow>
    cluster_step ip sessions c (c\<lparr>cl_nodes := (cl_nodes c)(i \<mapsto> n')\<rparr>)"

subsection \<open>Well-formed nodes\<close>

definition cluster_node :: "string \<Rightarrow> node \<Rightarrow> bool" where
  "cluster_node i n \<longleftrightarrow> plain_word i \<and> el_my_id (nd_election n) = i \<and>
     (am_i_leader (nd_election n) \<longleftrightarrow> nd_role n = Leading) \<and>
     finite (dom (el_peers (nd_election n))) \<and>
     (\<forall>k p. el_peers (nd_election n) k = Some p \<longrightarrow> pi_is_leader p \<longrightarrow> pi_leader_tcp_base p \<noteq> None)"

definition cluster_ok :: "cluster \<Rightarrow> bool" where
  "cluster_ok c \<longleftrightarrow> (\<forall>i n. cl_nodes c i = Some n \<longrightarrow> cluster_node i n)"

definition plain_addresses :: "(string \<Rightarrow> string option) \<Rightarrow> bool" where
  "plain_addresses ip \<longleftrightarrow> (\<forall>i a. ip i = Some a \<longrightarrow> plain_word a)"

lemma plain_loopback: "plain_word ''127.0.0.1''"
  by (simp add: plain_word_def plain_def graphic_def)

text \<open>What a datagram of the broadcaster does to the node that hears it.\<close>

lemma hear_datagram:
  assumes "plain_addresses ip" and "plain_word i" and "d \<in> set (broadcaster_turn i e (ip i))"
  shows "listener_turn e' now (Inr d) = observe_peer e' now i \<or>
    am_i_leader e \<and> (\<exists>a. listener_turn e' now (Inr d) = observe_leader e' now i a)"
proof -
  let ?a = "case ip i of Some a \<Rightarrow> a | None \<Rightarrow> ''127.0.0.1''"
  have "plain_word ?a" using assms(1) plain_loopback by (auto simp: plain_addresses_def split: option.split)
  then have "listener_turn e' now (Inr (as_bytes (leader_msg i ?a))) = observe_leader e' now i ?a"
    using assms(2) by (intro hear_leader_msg) (simp_all add: plain_word_def)
  moreover have "listener_turn e' now (Inr (as_bytes (peer_msg i))) = observe_peer e' now i"
    using assms(2) by (intro hear_peer_msg) (simp_all add: plain_word_def)
  ultimately show ?thesis using assms(3) by (auto simp: broadcaster_turn_def split: if_splits)
qed

lemma cluster_node_observe:
  assumes "cluster_node j m"
  shows "cluster_node j (m\<lparr>nd_election := observe_peer (nd_election m) now i\<rparr>)"
    and "cluster_node j (m\<lparr>nd_election := observe_leader (nd_election m) now i a\<rparr>)"
proof -
  have [simp]: "am_i_leader (observe_peer (nd_election m) now i) = am_i_leader (nd_election m)"
    "am_i_leader (observe_leader (nd_election m) now i a) = am_i_leader (nd_election m)"
    by (simp_all add: am_i_leader_def)
  have "finite (dom (el_peers (observe_peer (nd_election m) now i)))"
    "finite (dom (el_peers (observe_leader (nd_election m) now i a)))"
    using assms by (simp_all add: cluster_node_def observe_peer_def observe_leader_def)
  with assms show "cluster_node j (m\<lparr>nd_election := observe_peer (nd_election m) now i\<rparr>)"
    and "cluster_node j (m\<lparr>nd_election := observe_leader (nd_election m) now i a\<rparr>)"
    by (auto simp: cluster_node_def store_simps peer_entry_def split: if_splits option.splits)
qed

lemma dom_clear [simp]: "dom (el_peers (clear_leader_flags e)) = dom (el_peers e)"
  by (auto simp: clear_leader_flags_def dom_def)

lemma role_turn_cluster_node:
  assumes "role_turn sessions now n n'" and "cluster_node i n"
  shows "cluster_node i n'"
  using assms
proof (cases rule: role_turn.cases)
  case (take_lead ks new_socket os_allows profile h e)
  with assms(2) show ?thesis
    by (simp add: cluster_node_def start_leading_flag [OF take_lead(5)])
next
  case (stay_leader ks e)
  with assms(2) show ?thesis by (simp add: keep_leading_same [OF stay_leader(4)])
next
  case (resign ks e)
  with assms(2) show ?thesis by (simp add: cluster_node_def step_down_flag [OF resign(4)])
next
  case (lose_leader base ks)
  with assms(2) show ?thesis by (auto simp: cluster_node_def store_simps)
qed (use assms(2) in \<open>simp_all add: cluster_node_def\<close>)

lemma cluster_step_ok:
  assumes "cluster_step ip sessions c c'" and "plain_addresses ip" and "cluster_ok c"
  shows "cluster_ok c'"
  using assms(1)
proof cases
  case (join i)
  moreover have "cluster_node i (node_new i)"
    using join(3) by (simp add: cluster_node_def node_new_def)
  ultimately show ?thesis using assms(3) by (simp add: cluster_ok_def)
next
  case (announce i n d j m)
  have "plain_word i" and m: "cluster_node j m"
    using assms(3) announce(2,5) by (auto simp: cluster_ok_def cluster_node_def)
  with hear_datagram [OF assms(2) this(1) announce(4), of "nd_election m" "cl_now c"]
  have "cluster_node j (m\<lparr>nd_election := listener_turn (nd_election m) (cl_now c) (Inr d)\<rparr>)"
    using cluster_node_observe [OF m] by auto
  with assms(3) announce(1) show ?thesis by (simp add: cluster_ok_def)
next
  case (act i n n')
  with assms(3) have "cluster_node i n'" by (auto simp: cluster_ok_def intro: role_turn_cluster_node)
  with assms(3) act(1) show ?thesis by (simp add: cluster_ok_def)
qed (use assms(3) in \<open>simp_all add: cluster_ok_def\<close>)

text \<open>The step relation with the addresses' form as part of the state's invariant.\<close>

definition cluster_inv :: "(string \<Rightarrow> string option) \<Rightarrow> cluster \<Rightarrow> bool" where
  "cluster_inv ip c \<longleftrightarrow> plain_addresses ip \<and> cluster_ok c"

interpretation cluster_system: invariant_system "cluster_step ip sessions" "cluster_inv ip" for ip sessions
  by unfold_locales (simp add: cluster_inv_def cluster_step_ok)

lemma cluster_reachable_ok:
  "plain_addresses ip \<Longrightarrow> (cluster_step ip sessions)\<^sup>*\<^sup>* cluster_new c \<Longrightarrow> cluster_ok c"
  using cluster_system.run_inv [of ip sessions cluster_new c]
  by (simp add: cluster_inv_def cluster_ok_def cluster_new_def)

subsection \<open>A swarm without a leader\<close>

definition flags :: "election \<Rightarrow> string \<Rightarrow> bool" where
  "flags e k \<longleftrightarrow> (\<exists>p. el_peers e k = Some p \<and> pi_is_leader p)"

definition hears :: "nat \<Rightarrow> node \<Rightarrow> string \<Rightarrow> bool" where
  "hears now n j \<longleftrightarrow> (\<exists>p. el_peers (nd_election n) j = Some p \<and> live_at now p)"

lemma flags_observe_peer [simp]: "flags (observe_peer e now i) k = flags e k"
  by (auto simp: flags_def store_simps peer_entry_def split: option.splits)

lemma flags_fresh [simp]: "\<not> flags (clear_leader_flags e) k" "\<not> flags (election_new i) k"
  by (auto simp: flags_def store_simps)

lemma follows_flagged:
  assumes "decide e now ks now ks = Follow base"
  shows "\<exists>k. flags e k"
proof -
  obtain i where "current_leader e now ks = Some (i, base)"
    using assms by (auto simp: decide_def split: option.splits if_splits)
  from current_leader_Some [OF this] show ?thesis by (auto simp: flags_def)
qed

lemma never_leads_below:
  assumes "cluster_node i n" and "hears now n m" and "m < i" and "iterates (el_peers (nd_election n)) ks"
  shows "decide (nd_election n) now ks now ks \<noteq> Lead" "\<not> i_should_be_leader (nd_election n) now ks"
proof -
  have "m \<in> live_ids now (nd_election n)" using assms(2) by (auto simp: hears_def live_ids_def)
  then show "\<not> i_should_be_leader (nd_election n) now ks"
    using assms(1,3) by (force simp: i_should_be_leader_iff [OF assms(4)] cluster_node_def)
  then show "decide (nd_election n) now ks now ks \<noteq> Lead" by (simp add: decide_def split: option.split)
qed

lemma keeps_following:
  assumes "cluster_node i n" and "hears now n k" and "flags (nd_election n) k"
    and "iterates (el_peers (nd_election n)) ks"
  shows "\<not> follower_poll (Inr ()) (nd_election n) now ks"
proof -
  obtain p where p: "el_peers (nd_election n) k = Some p" "live_at now p" "pi_is_leader p"
    using assms(2,3) by (auto simp: hears_def flags_def)
  with assms(1) obtain a where "pi_leader_tcp_base p = Some a" by (force simp: cluster_node_def)
  with p current_leader_None_iff [OF assms(4), of now] show ?thesis by (auto simp: follower_poll_def)
qed

text \<open>\<open>timely m k c\<close>: node \<open>m\<close> has the least id, it has heard of \<open>k\<close> in the last ten seconds, and
  every other node that has finished booting has heard of \<open>m\<close> in the last ten seconds.\<close>

definition timely :: "string \<Rightarrow> string \<Rightarrow> cluster \<Rightarrow> bool" where
  "timely m k c \<longleftrightarrow> (\<exists>n. cl_nodes c m = Some n \<and> hears (cl_now c) n k) \<and>
     (\<forall>i n. cl_nodes c i = Some n \<longrightarrow> m \<le> i \<and> (i \<noteq> m \<longrightarrow> nd_role n \<noteq> Starting \<longrightarrow> hears (cl_now c) n m))"

text \<open>The least node follows a node it holds for the leader, nobody leads, and nodes outside
  \<open>old\<close> have heard of no leader.\<close>

definition orphaned :: "(string \<Rightarrow> string option) \<Rightarrow> (string \<Rightarrow> string + unit) \<Rightarrow> string \<Rightarrow> string \<Rightarrow>
    string set \<Rightarrow> cluster \<Rightarrow> bool" where
  "orphaned ip sessions m k old c \<longleftrightarrow> cluster_inv ip c \<and> timely m k c \<and>
     (\<exists>n base. cl_nodes c m = Some n \<and> nd_role n = Following base \<and> sessions base = Inr () \<and>
        flags (nd_election n) k) \<and>
     (\<forall>i n. cl_nodes c i = Some n \<longrightarrow> nd_role n \<noteq> Leading \<and>
        (i \<notin> old \<longrightarrow> nd_role n \<in> {Starting, Deciding} \<and> (\<forall>j. \<not> flags (nd_election n) j)))"

lemma orphaned_step:
  assumes step: "cluster_step ip sessions c c'" and "timely m k c'" and o: "orphaned ip sessions m k old c"
  shows "orphaned ip sessions m k old c'"
proof -
  have inv: "cluster_inv ip c'" using step o cluster_system.step_inv by (auto simp: orphaned_def)
  obtain nm base where m: "cl_nodes c m = Some nm" "nd_role nm = Following base" "sessions base = Inr ()"
    "flags (nd_election nm) k" using o by (auto simp: orphaned_def)
  have nodes: "nd_role n \<noteq> Leading" "i \<notin> old \<Longrightarrow> nd_role n \<in> {Starting, Deciding}"
    "i \<notin> old \<Longrightarrow> \<not> flags (nd_election n) j" "cluster_node i n" "m \<le> i"
    "i \<noteq> m \<Longrightarrow> nd_role n \<noteq> Starting \<Longrightarrow> hears (cl_now c) n m"
    if "cl_nodes c i = Some n" for i n j
    using o that by (auto simp: orphaned_def cluster_inv_def cluster_ok_def timely_def)
  show ?thesis
    using step
  proof cases
    case (join i)
    then show ?thesis using assms(2) inv m nodes
      by (auto simp: orphaned_def node_new_def)
  next
    case (crash i)
    moreover have "i \<noteq> m" using assms(2) crash by (auto simp: timely_def)
    ultimately show ?thesis using assms(2) inv m nodes by (auto simp: orphaned_def)
  next
    case (tick t)
    then show ?thesis using assms(2) inv m nodes by (auto simp: orphaned_def)
  next
    case (announce i n d j n2)
    have "plain_addresses ip" "plain_word i" "\<not> am_i_leader (nd_election n)"
      using o nodes(1,4) [OF announce(2)] by (auto simp: orphaned_def cluster_inv_def cluster_node_def)
    then have "listener_turn (nd_election n2) (cl_now c) (Inr d) = observe_peer (nd_election n2) (cl_now c) i"
      using hear_datagram announce(4) by blast
    with announce assms(2) inv m nodes show ?thesis by (auto simp: orphaned_def)
  next
    case (act i n n')
    note n = nodes [OF act(2)]
    have "nd_role n' \<noteq> Leading \<and> (i \<notin> old \<longrightarrow> nd_role n' \<in> {Starting, Deciding} \<and>
        (\<forall>j. \<not> flags (nd_election n') j)) \<and> (i = m \<longrightarrow> n' = n)"
      using act(3)
    proof (cases rule: role_turn.cases)
      case boot
      with n m act(2) show ?thesis by auto
    next
      case (join_leader ks b)
      with n m act(2) follows_flagged [OF join_leader(4)] show ?thesis by auto
    next
      case (take_lead ks new_socket os_allows profile h e)
      then have "i \<noteq> m" using m act(2) by auto
      with n take_lead never_leads_below(1) [OF n(4) n(6) _ take_lead(3)] show ?thesis by auto
    next
      case (fail_lead ks new_socket os_allows profile)
      then have "i \<noteq> m" using m act(2) by auto
      with n fail_lead never_leads_below(1) [OF n(4) n(6) _ fail_lead(3)] show ?thesis by auto
    next
      case (stay_leader ks e)
      with n show ?thesis by auto
    next
      case (resign ks e)
      with n show ?thesis by auto
    next
      case (lose_leader b ks)
      have "i \<noteq> m"
      proof
        assume i: "i = m"
        moreover from o have "hears (cl_now c) nm k" using m(1) by (auto simp: orphaned_def timely_def)
        ultimately show False
          using lose_leader m act(2) keeps_following [OF n(4), of "cl_now c" k ks] by auto
      qed
      with n lose_leader show ?thesis by auto
    qed (use n m act(2) in auto)
    with act(1,2) assms(2) inv m nodes show ?thesis by (auto simp: orphaned_def)
  qed
qed

interpretation orphaned_swarm_system: invariant_system
    "\<lambda>c c'. cluster_step ip sessions c c' \<and> timely m k c'" "orphaned ip sessions m k old"
  for ip sessions m k old
  by unfold_locales (auto intro: orphaned_step)

subsection \<open>A newcomer with a smaller id\<close>

text \<open>Node b leads alone; node a boots, hears b and follows it; b hears a, whose id is smaller, and
  resigns. Nobody leads after that.\<close>

definition demo_ip :: "string \<Rightarrow> string option" where
  "demo_ip i = Some ''10.0.0.2''"

definition demo_sessions :: "string \<Rightarrow> string + unit" where
  "demo_sessions base = Inr ()"

definition led_by_b :: node where
  "led_by_b = \<lparr>nd_election = set_i_am_leader (election_new ''node-b'') True, nd_role = Leading,
     nd_listening = {task_addr, pub_addr}\<rparr>"

definition follows_b :: node where
  "follows_b = \<lparr>nd_election = observe_leader (election_new ''node-a'') 0 ''node-b'' ''10.0.0.2'',
     nd_role = Following ''10.0.0.2'', nd_listening = {}\<rparr>"

definition resigned_b :: node where
  "resigned_b = led_by_b\<lparr>nd_election :=
     set_i_am_leader (observe_peer (nd_election led_by_b) 0 ''node-a'') False, nd_role := Deciding\<rparr>"

definition two_nodes :: "node \<Rightarrow> node \<Rightarrow> cluster" where
  "two_nodes a b = \<lparr>cl_nodes = [''node-a'' \<mapsto> a, ''node-b'' \<mapsto> b], cl_now = 0\<rparr>"

lemma two_nodes_simps [simp]:
  "cl_nodes (two_nodes a b) ''node-a'' = Some a" "cl_nodes (two_nodes a b) ''node-b'' = Some b"
  "cl_now (two_nodes a b) = 0"
  "(two_nodes a b)\<lparr>cl_nodes := (cl_nodes (two_nodes a b))(''node-a'' \<mapsto> x)\<rparr> = two_nodes x b"
  "(two_nodes a b)\<lparr>cl_nodes := (cl_nodes (two_nodes a b))(''node-b'' \<mapsto> x)\<rparr> = two_nodes a x"
  by (auto simp: two_nodes_def fun_eq_iff)

abbreviation demo_step :: "cluster \<Rightarrow> cluster \<Rightarrow> bool" where
  "demo_step \<equiv> cluster_step demo_ip demo_sessions"

lemma demo_plain: "plain_word ''node-a''" "plain_word ''node-b''" "plain_word ''node-c''" "plain_addresses demo_ip"
  by (simp_all add: plain_word_def plain_def graphic_def plain_addresses_def demo_ip_def)

lemma demo_leader_boots: "demo_step\<^sup>*\<^sup>* cluster_new \<lparr>cl_nodes = [''node-b'' \<mapsto> led_by_b], cl_now = 0\<rparr>"
proof -
  let ?c = "\<lambda>n. \<lparr>cl_nodes = [''node-b'' \<mapsto> n], cl_now = 0\<rparr>"
  let ?d = "(node_new ''node-b'')\<lparr>nd_role := Deciding\<rparr>"
  have 1: "demo_step cluster_new (?c (node_new ''node-b''))"
    using cluster_step.join [OF _ demo_plain(2), of cluster_new] by (simp add: cluster_new_def)
  have "role_turn demo_sessions 0 (node_new ''node-b'') ?d"
    by (rule role_turn.boot) (simp add: node_new_def)
  then have 2: "demo_step (?c (node_new ''node-b'')) (?c ?d)"
    using cluster_step.act [of "?c (node_new ''node-b'')" "''node-b''"] by simp
  have d: "decide (nd_election ?d) 0 [] 0 [] = Lead"
    by (simp add: decide_def node_new_def current_leader_def i_should_be_leader_def List.map_filter_simps)
  have i: "iterates (el_peers (nd_election ?d)) []" by (simp add: node_new_def iterates_def)
  have l: "nd_listening ?d = {}" by (simp add: node_new_def)
  have "role_turn demo_sessions 0 ?d led_by_b"
    using role_turn.take_lead [OF _ i d lead_demo [OF l, of "demo_node ''node-b'' 5"]]
    by (simp add: led_by_b_def node_new_def hub_listening_def insert_commute)
  then have "demo_step (?c ?d) (?c led_by_b)"
    using cluster_step.act [of "?c ?d" "''node-b''"] by simp
  with 1 2 show ?thesis by (meson converse_rtranclp_into_rtranclp rtranclp.rtrancl_refl)
qed

lemma demo_newcomer_follows:
  "demo_step\<^sup>*\<^sup>* \<lparr>cl_nodes = [''node-b'' \<mapsto> led_by_b], cl_now = 0\<rparr> (two_nodes follows_b led_by_b)"
proof -
  let ?h = "(node_new ''node-a'')\<lparr>nd_election := observe_leader (election_new ''node-a'') 0 ''node-b'' ''10.0.0.2''\<rparr>"
  have 1: "demo_step \<lparr>cl_nodes = [''node-b'' \<mapsto> led_by_b], cl_now = 0\<rparr> (two_nodes (node_new ''node-a'') led_by_b)"
    using cluster_step.join [OF _ demo_plain(1), of "\<lparr>cl_nodes = [''node-b'' \<mapsto> led_by_b], cl_now = 0\<rparr>"]
    by (simp add: two_nodes_def fun_upd_twist)
  have "listener_turn (election_new ''node-a'') 0 (Inr (as_bytes (leader_msg ''node-b'' ''10.0.0.2''))) =
      observe_leader (election_new ''node-a'') 0 ''node-b'' ''10.0.0.2''"
    by (rule hear_leader_msg) (simp_all add: plain_def graphic_def)
  then have 2: "demo_step (two_nodes (node_new ''node-a'') led_by_b) (two_nodes ?h led_by_b)"
    using cluster_step.announce [of "two_nodes (node_new ''node-a'') led_by_b" "''node-b''" led_by_b
        "as_bytes (leader_msg ''node-b'' ''10.0.0.2'')" demo_ip "''node-a''" "node_new ''node-a''" demo_sessions]
    by (simp add: led_by_b_def node_new_def broadcaster_turn_def am_i_leader_def demo_ip_def)
  have "role_turn demo_sessions 0 ?h (?h\<lparr>nd_role := Deciding\<rparr>)"
    by (rule role_turn.boot) (simp add: node_new_def)
  then have 3: "demo_step (two_nodes ?h led_by_b) (two_nodes (?h\<lparr>nd_role := Deciding\<rparr>) led_by_b)"
    using cluster_step.act [of "two_nodes ?h led_by_b" "''node-a''"] by simp
  have p: "el_peers (observe_leader (election_new ''node-a'') 0 ''node-b'' ''10.0.0.2'') =
      [''node-b'' \<mapsto> \<lparr>pi_last_seen = 0, pi_is_leader = True, pi_leader_tcp_base = Some ''10.0.0.2''\<rparr>]"
    by (simp add: observe_leader_def election_new_def peer_entry_def)
  have "decide (nd_election ?h) 0 [''node-b''] 0 [''node-b''] = Follow ''10.0.0.2''"
    by (simp add: decide_def current_leader_def p live_at_def PEER_TIMEOUT_def List.map_filter_simps)
  then have "role_turn demo_sessions 0 (?h\<lparr>nd_role := Deciding\<rparr>) follows_b"
    using role_turn.join_leader [of "?h\<lparr>nd_role := Deciding\<rparr>" "[''node-b'']" 0 "''10.0.0.2''" demo_sessions]
    by (simp add: follows_b_def node_new_def p iterates_def)
  then have "demo_step (two_nodes (?h\<lparr>nd_role := Deciding\<rparr>) led_by_b) (two_nodes follows_b led_by_b)"
    using cluster_step.act [of "two_nodes (?h\<lparr>nd_role := Deciding\<rparr>) led_by_b" "''node-a''"] by simp
  with 1 2 3 show ?thesis by (meson converse_rtranclp_into_rtranclp rtranclp.rtrancl_refl)
qed

definition orphans :: cluster where
  "orphans = two_nodes follows_b resigned_b"

lemma demo_leader_resigns: "demo_step\<^sup>*\<^sup>* (two_nodes follows_b led_by_b) orphans"
proof -
  let ?h = "led_by_b\<lparr>nd_election := observe_peer (nd_election led_by_b) 0 ''node-a''\<rparr>"
  have "listener_turn (nd_election led_by_b) 0 (Inr (as_bytes (peer_msg ''node-a''))) =
      observe_peer (nd_election led_by_b) 0 ''node-a''"
    by (rule hear_peer_msg) (simp_all add: plain_def graphic_def)
  then have 1: "demo_step (two_nodes follows_b led_by_b) (two_nodes follows_b ?h)"
    using cluster_step.announce [of "two_nodes follows_b led_by_b" "''node-a''" follows_b
        "as_bytes (peer_msg ''node-a'')" demo_ip "''node-b''" led_by_b demo_sessions]
    by (simp add: follows_b_def led_by_b_def broadcaster_turn_def)
  have p: "el_peers (nd_election ?h) =
      [''node-a'' \<mapsto> \<lparr>pi_last_seen = 0, pi_is_leader = False, pi_leader_tcp_base = None\<rparr>]"
    by (simp add: led_by_b_def observe_peer_def election_new_def peer_entry_def set_i_am_leader_def)
  have "\<not> i_should_be_leader (nd_election ?h) 0 [''node-a'']"
    unfolding i_should_be_leader_def p by (simp add: live_at_def PEER_TIMEOUT_def led_by_b_def)
  then have "leader_check (nd_election ?h) 0 [''node-a''] = (nd_election resigned_b, True)"
    by (simp add: leader_check_def resigned_b_def)
  moreover have "iterates (el_peers (nd_election ?h)) [''node-a'']" unfolding p by (simp add: iterates_def)
  moreover have "nd_role ?h = Leading" and "?h\<lparr>nd_election := nd_election resigned_b, nd_role := Deciding\<rparr> = resigned_b"
    by (simp_all add: led_by_b_def resigned_b_def)
  ultimately have "role_turn demo_sessions 0 ?h resigned_b" by (metis role_turn.resign)
  then have "demo_step (two_nodes follows_b ?h) orphans"
    using cluster_step.act [of "two_nodes follows_b ?h" "''node-b''"] by (simp add: orphans_def)
  with 1 show ?thesis by (meson converse_rtranclp_into_rtranclp rtranclp.rtrancl_refl)
qed

lemma orphans_reachable: "demo_step\<^sup>*\<^sup>* cluster_new orphans"
  using demo_leader_boots demo_newcomer_follows demo_leader_resigns by (meson rtranclp_trans)

subsection \<open>Properties\<close>

text \<open>C34: A newcomer with a smaller id leaves the swarm without a leader: when the node with the
  least id has come to follow a leader that then resigned in its favour, then as long as the
  newcomer and the resigned leader keep being heard (the resigned leader at the newcomer, the
  newcomer at all other nodes, each within ten seconds) and no node with a smaller id appears, no
  node leads or announces a leader, and a node that boots meanwhile stays unconnected. The
  newcomer keeps following whom it has once heard announced, and everyone else waits for the
  newcomer to lead. (When one of the two falls silent for ten seconds, or a still smaller id
  appears, the condition ends and the theorem says nothing more.)\<close>

theorem newcomer_orphans_swarm:
  assumes "plain_addresses ip" and "(cluster_step ip sessions)\<^sup>*\<^sup>* cluster_new c"
    and "cl_nodes c m = Some n" and "nd_role n = Following base" and "sessions base = Inr ()"
    and "flags (nd_election n) k" and "\<And>i n'. cl_nodes c i = Some n' \<Longrightarrow> nd_role n' \<noteq> Leading"
    and "timely m k c"
    and "(\<lambda>c c'. cluster_step ip sessions c c' \<and> timely m k c')\<^sup>*\<^sup>* c c'"
    and "cl_nodes c' i = Some n'"
  shows "nd_role n' \<noteq> Leading \<and> broadcaster_turn i (nd_election n') (ip i) = [as_bytes (peer_msg i)] \<and>
    (cl_nodes c i = None \<longrightarrow> nd_role n' = Starting \<or> nd_role n' = Deciding)"
proof -
  have "orphaned ip sessions m k (dom (cl_nodes c)) c"
    using assms(1,3-8) cluster_reachable_ok [OF assms(1,2)]
    by (auto simp: orphaned_def cluster_inv_def domIff)
  from orphaned_swarm_system.run_inv [OF assms(9) this] assms(10)
  have "nd_role n' \<noteq> Leading" "i \<notin> dom (cl_nodes c) \<Longrightarrow> nd_role n' \<in> {Starting, Deciding}" "cluster_node i n'"
    by (auto simp: orphaned_def cluster_inv_def cluster_ok_def)
  then show ?thesis by (auto simp: broadcaster_turn_def cluster_node_def domIff)
qed

lemma orphans_timely: "timely ''node-a'' ''node-b'' orphans"
  by (auto simp: timely_def orphans_def two_nodes_def hears_def follows_b_def resigned_b_def led_by_b_def
      store_simps live_at_def PEER_TIMEOUT_def split: if_splits)

text \<open>A third node boots and waits for ever.\<close>

theorem newcomer_orphans_swarm_witness:
  "demo_step\<^sup>*\<^sup>* cluster_new orphans \<and> nd_role follows_b = Following ''10.0.0.2'' \<and>
   (let c' = orphans\<lparr>cl_nodes := (cl_nodes orphans)(''node-c'' \<mapsto> node_new ''node-c'')\<rparr> in
    demo_step orphans c' \<and> (\<forall>i n'. cl_nodes c' i = Some n' \<longrightarrow> nd_role n' \<noteq> Leading))"
proof -
  let ?c = "orphans\<lparr>cl_nodes := (cl_nodes orphans)(''node-c'' \<mapsto> node_new ''node-c'')\<rparr>"
  have s: "demo_step orphans ?c"
    using cluster_step.join [OF _ demo_plain(3), of orphans] by (simp add: orphans_def two_nodes_def)
  have t: "timely ''node-a'' ''node-b'' ?c"
    using orphans_timely by (auto simp: timely_def node_new_def orphans_def two_nodes_def hears_def)
  have n: "cl_nodes orphans ''node-a'' = Some follows_b" and f: "flags (nd_election follows_b) ''node-b''"
    and r: "nd_role follows_b = Following ''10.0.0.2''" and d: "demo_sessions ''10.0.0.2'' = Inr ()"
    by (simp_all add: orphans_def follows_b_def flags_def store_simps demo_sessions_def)
  have l: "nd_role n' \<noteq> Leading" if "cl_nodes orphans i = Some n'" for i n'
    using that by (auto simp: orphans_def two_nodes_def follows_b_def resigned_b_def split: if_splits)
  have run: "(\<lambda>c c'. demo_step c c' \<and> timely ''node-a'' ''node-b'' c')\<^sup>*\<^sup>* orphans ?c"
    using s t by blast
  have "nd_role n' \<noteq> Leading" if "cl_nodes ?c i = Some n'" for i n'
    using newcomer_orphans_swarm [OF demo_plain(4) orphans_reachable n r d f _ orphans_timely run that] l by blast
  with s r orphans_reachable show ?thesis by (simp add: Let_def)
qed

lemma hears_live: "{j. hears now n j} = live_ids now (nd_election n)"
  by (auto simp: hears_def live_ids_def)

lemma live_ids_clear [simp]: "live_ids now (clear_leader_flags e) = live_ids now e"
  by (auto simp: live_ids_def store_simps live_at_def)

lemma no_leader_after_clear:
  assumes "iterates (el_peers e) ks"
  shows "current_leader (clear_leader_flags e) now ks = None"
proof -
  have "iterates (el_peers (clear_leader_flags e)) ks" using assms by (simp add: iterates_def)
  from current_leader_None_iff [OF this, of now] show ?thesis by (auto simp: store_simps)
qed

text \<open>C35: Failover: when every leader a follower knows of has been silent for ten seconds and the
  survivors hear exactly each other, the next turn of each survivor gives its leader up, and its
  next decision is to lead if its id is the least of the survivors and to wait otherwise; so
  exactly one of them leads. The hub it starts knows itself and no task: every task of the old
  leader is lost.\<close>

theorem failover_elects_least:
  assumes "cluster_ok c" and "cl_nodes c i = Some n" and "nd_role n = Following base"
    and "\<And>k p. el_peers (nd_election n) k = Some p \<Longrightarrow> pi_is_leader p \<Longrightarrow>
      PEER_TIMEOUT \<le> cl_now c - pi_last_seen p"
    and "insert i {j. hears (cl_now c) n j} = dom (cl_nodes c)"
    and "iterates (el_peers (nd_election n)) ks"
  shows "(role_turn sessions (cl_now c) n n' \<longleftrightarrow>
      n' = n\<lparr>nd_election := clear_leader_flags (nd_election n), nd_role := Deciding\<rparr>) \<and>
    decide (clear_leader_flags (nd_election n)) (cl_now c) ks (cl_now c) ks =
      (if i = Min (dom (cl_nodes c)) then Lead else Wait) \<and>
    (start_leading new_socket listen profile (clear_leader_flags (nd_election n)) = Returns (h, e) \<longrightarrow>
      (\<forall>k. get_task (hub_scheduler h) k = None) \<and>
      (\<forall>j. get_node (hub_registry h) j = (if j = np_node_id profile then Some profile else None)))"
proof (intro conjI impI)
  have node: "cluster_node i n" using assms(1,2) by (simp add: cluster_ok_def)
  have lost: "follower_poll (sessions base) (nd_election n) (cl_now c) js" if "iterates (el_peers (nd_election n)) js" for js
    using assms(4) current_leader_None_iff [OF that, of "cl_now c"]
    by (fastforce simp: follower_poll_def live_at_def split: sum.split)
  show "role_turn sessions (cl_now c) n n' \<longleftrightarrow>
      n' = n\<lparr>nd_election := clear_leader_flags (nd_election n), nd_role := Deciding\<rparr>"
  proof
    assume "role_turn sessions (cl_now c) n n'"
    then show "n' = n\<lparr>nd_election := clear_leader_flags (nd_election n), nd_role := Deciding\<rparr>"
      using assms(3) lost by (cases rule: role_turn.cases) auto
  next
    assume "n' = n\<lparr>nd_election := clear_leader_flags (nd_election n), nd_role := Deciding\<rparr>"
    then show "role_turn sessions (cl_now c) n n'"
      using role_turn.lose_leader [where sessions = sessions, OF assms(3,6) lost [OF assms(6)]] by simp
  qed
  have it: "iterates (el_peers (clear_leader_flags (nd_election n))) ks" using assms(6) by (simp add: iterates_def)
  have "live_ids (cl_now c) (nd_election n) \<subseteq> set ks"
    using assms(6) by (auto simp: live_ids_def iterates_def)
  then have fin: "finite (live_ids (cl_now c) (nd_election n))" by (rule finite_subset) simp
  have "i_should_be_leader (clear_leader_flags (nd_election n)) (cl_now c) ks \<longleftrightarrow> i = Min (dom (cl_nodes c))"
    using node least_iff_Min [OF fin, of i]
    by (simp add: i_should_be_leader_iff [OF it] cluster_node_def assms(5) [symmetric] hears_live)
  then show "decide (clear_leader_flags (nd_election n)) (cl_now c) ks (cl_now c) ks =
      (if i = Min (dom (cl_nodes c)) then Lead else Wait)"
    by (simp add: decide_def no_leader_after_clear [OF assms(6)])
next
  assume "start_leading new_socket listen profile (clear_leader_flags (nd_election n)) = Returns (h, e)"
  then have h: "hub_scheduler h = scheduler_new" "hub_registry h = register_node registry_new profile"
    by (auto simp: start_leading_if hub_new_def split: if_splits)
  show "\<forall>k. get_task (hub_scheduler h) k = None"
    and "\<forall>j. get_node (hub_registry h) j = (if j = np_node_id profile then Some profile else None)"
    by (simp_all add: h store_simps)
qed

definition survivor :: "string \<Rightarrow> string \<Rightarrow> node" where
  "survivor me other = \<lparr>nd_election = observe_peer (observe_leader (election_new me) 0 ''node-0'' ''10.0.0.1'')
     10000000001 other, nd_role = Following ''10.0.0.1'', nd_listening = {}\<rparr>"

definition survivors :: cluster where
  "survivors = (two_nodes (survivor ''node-a'' ''node-b'') (survivor ''node-b'' ''node-a''))\<lparr>cl_now := 10000000002\<rparr>"

lemma survivor_peers:
  assumes "me \<noteq> ''node-0''" and "other \<noteq> ''node-0''" and "me \<noteq> other"
  shows "el_peers (nd_election (survivor me other)) =
    [''node-0'' \<mapsto> \<lparr>pi_last_seen = 0, pi_is_leader = True, pi_leader_tcp_base = Some ''10.0.0.1''\<rparr>,
     other \<mapsto> \<lparr>pi_last_seen = 10000000001, pi_is_leader = False, pi_leader_tcp_base = None\<rparr>]"
  using assms by (simp add: survivor_def observe_peer_def observe_leader_def election_new_def peer_entry_def)

lemma survivor_node: "plain_word me \<Longrightarrow> me \<noteq> ''node-0'' \<Longrightarrow> other \<noteq> ''node-0'' \<Longrightarrow> me \<noteq> other \<Longrightarrow>
  cluster_node me (survivor me other)"
  by (auto simp: cluster_node_def survivor_peers split: if_splits) (auto simp: survivor_def am_i_leader_def)

theorem failover_elects_least_witness:
  "decide (clear_leader_flags (nd_election (survivor ''node-a'' ''node-b''))) 10000000002 [''node-0'', ''node-b'']
     10000000002 [''node-0'', ''node-b''] = (if ''node-a'' = Min {''node-a'', ''node-b''} then Lead else Wait)"
proof -
  have ok: "cluster_ok survivors"
    using survivor_node [OF demo_plain(1), of "''node-b''"] survivor_node [OF demo_plain(2), of "''node-a''"]
    by (auto simp: cluster_ok_def survivors_def two_nodes_def split: if_splits)
  have a: "cl_nodes survivors ''node-a'' = Some (survivor ''node-a'' ''node-b'')" by (simp add: survivors_def)
  have f: "nd_role (survivor ''node-a'' ''node-b'') = Following ''10.0.0.1''" by (simp add: survivor_def)
  have now: "cl_now survivors = 10000000002" and d: "dom (cl_nodes survivors) = {''node-a'', ''node-b''}"
    by (auto simp: survivors_def two_nodes_def)
  have silent: "PEER_TIMEOUT \<le> cl_now survivors - pi_last_seen p"
    if "el_peers (nd_election (survivor ''node-a'' ''node-b'')) k = Some p" "pi_is_leader p" for k p
    using that by (auto simp: survivor_peers now PEER_TIMEOUT_def split: if_splits)
  have h: "insert ''node-a'' {j. hears (cl_now survivors) (survivor ''node-a'' ''node-b'') j} = dom (cl_nodes survivors)"
    unfolding d now by (auto simp: hears_def survivor_peers live_at_def PEER_TIMEOUT_def split: if_splits)
  have it: "iterates (el_peers (nd_election (survivor ''node-a'' ''node-b''))) [''node-0'', ''node-b'']"
    by (auto simp: iterates_def survivor_peers split: if_splits)
  from failover_elects_least [OF ok a f silent h it] show ?thesis by (simp only: now d)
qed

end
