(* ===== verification/WorkerLoop.thy ===== *)
theory WorkerLoop
  imports WorkerProperties HubGuarantees
begin

text \<open>
  The background task of a worker (the task spawned at the end of \<open>run_demo_lifecycle\<close> in
  \<open>host-background-agent/src/transport/mod.rs\<close>): the socket for progress reports is opened, then
  the turns of \<open>Worker.task_turn\<close> follow each other until one of them ends the loop. The caller
  has long returned \<open>Ok\<close>, so nobody learns how the task ends.
\<close>

subsection \<open>The task\<close>

text \<open>The turns over what the receives return, in order: all frames sent, and how the loop stands
  after them.\<close>

fun task_loop ::
    "('sk, 'vk, 'sg) worker_env \<Rightarrow> (string + bytes option) list \<Rightarrow> bytes list \<times> loop_end" where
  "task_loop w [] = ([], GoOn)"
| "task_loop w (r # rs) =
     (case task_turn w r of
        (frames, GoOn) \<Rightarrow> (case task_loop w rs of (rest, e) \<Rightarrow> (frames @ rest, e))
      | (frames, e) \<Rightarrow> (frames, e))"

text \<open>The spawned task: a socket that cannot be made panics (\<open>expect\<close>); an endpoint that cannot be
  dialled ends the task before its first receive.\<close>

definition background_task ::
    "('sk, 'vk, 'sg) worker_env \<Rightarrow> bool \<Rightarrow> string + unit \<Rightarrow> (string + bytes option) list \<Rightarrow>
     bytes list \<times> loop_end" where
  "background_task w progress_socket dial received =
     (if \<not> progress_socket then ([], LoopPanics)
      else (case dial of Inl e \<Rightarrow> ([], Broke e) | Inr _ \<Rightarrow> task_loop w received))"

subsection \<open>What a receive holds\<close>

definition received_task :: "('sk, 'vk, 'sg) worker_env \<Rightarrow> string + bytes option \<Rightarrow> task_definition option" where
  "received_task w r =
     (case r of
        Inr (Some s) \<Rightarrow>
          (case read_body 6 s of
             Returns (Some body) \<Rightarrow>
               (case cd_decode (c_task (we_codecs w)) body of Inr t \<Rightarrow> Some t | Inl _ \<Rightarrow> None)
           | _ \<Rightarrow> None)
      | _ \<Rightarrow> None)"

definition task_reports :: "('sk, 'vk, 'sg) worker_env \<Rightarrow> string + bytes option \<Rightarrow> bytes list" where
  "task_reports w r =
     (case received_task w r of
        None \<Rightarrow> []
      | Some t \<Rightarrow> map (send_progress w) (fst (execute_task w t)))"

text \<open>A receive that ends the loop: an error of the socket, a truncated task frame, or a task whose
  execution panics.\<close>

definition fatal_receive :: "('sk, 'vk, 'sg) worker_env \<Rightarrow> string + bytes option \<Rightarrow> bool" where
  "fatal_receive w r \<longleftrightarrow> isl r \<or> (\<exists>s. r = Inr (Some s) \<and> truncated 6 s) \<or>
     (\<exists>t. received_task w r = Some t \<and> snd (execute_task w t) = Panics)"

lemma task_turn_summary:
  "fst (task_turn w r) = task_reports w r" "snd (task_turn w r) = GoOn \<longleftrightarrow> \<not> fatal_receive w r"
proof -
  have e: "(fst (task_turn w r) = task_reports w r) \<and> (snd (task_turn w r) = GoOn \<longleftrightarrow> \<not> fatal_receive w r)"
  proof (cases r)
    case (Inl e)
    then show ?thesis by (simp add: task_turn_def task_reports_def received_task_def fatal_receive_def)
  next
    case (Inr m)
    show ?thesis
    proof (cases m)
      case None
      with Inr show ?thesis by (simp add: task_turn_def task_reports_def received_task_def fatal_receive_def)
    next
      case (Some s)
      have t: "truncated 6 s \<longleftrightarrow> read_body 6 s = Panics"
        by (simp add: truncated_def read_body_Panics_iff)
      have run: "(case x of (ps, Returns _) \<Rightarrow> (f ps, GoOn) | (ps, Panics) \<Rightarrow> (f ps, LoopPanics)) =
          (f (fst x), if snd x = Panics then LoopPanics else GoOn)"
        for x :: "task_progress list \<times> unit outcome" and f :: "task_progress list \<Rightarrow> bytes list"
        by (simp split: prod.split outcome.split)
      show ?thesis
        unfolding Inr Some task_turn_def task_reports_def received_task_def fatal_receive_def
        by (cases "read_body 6 s") (auto simp: t run split: option.split sum.split)
    qed
  qed
  then show "fst (task_turn w r) = task_reports w r" "snd (task_turn w r) = GoOn \<longleftrightarrow> \<not> fatal_receive w r"
    by simp_all
qed

lemma task_loop_Cons:
  "task_loop w (r # rs) =
     (if fatal_receive w r then (task_reports w r, snd (task_turn w r))
      else (task_reports w r @ fst (task_loop w rs), snd (task_loop w rs)))"
  using task_turn_summary [of w r]
  by (cases "task_turn w r"; cases "snd (task_turn w r)") (auto split: prod.split)

declare task_loop.simps(2) [simp del]

subsection \<open>Properties\<close>

text \<open>C36: A worker serves until its first fatal receive: whatever the receives return, the frames
  it sends are exactly the reports of the executions of the task frames received up to and
  including the first receive that is fatal, in order, each once; the loop goes on if and only if
  there is none. After a fatal receive nothing is served any more.\<close>

theorem worker_serves_until_fatal:
  "fst (background_task w True (Inr ()) rs) =
     concat (map (task_reports w) (takeWhile (\<lambda>r. \<not> fatal_receive w r) rs @
       take 1 (dropWhile (\<lambda>r. \<not> fatal_receive w r) rs))) \<and>
   (snd (background_task w True (Inr ()) rs) = GoOn \<longleftrightarrow> (\<forall>r\<in>set rs. \<not> fatal_receive w r)) \<and>
   (\<forall>qs. snd (background_task w True (Inr ()) rs) \<noteq> GoOn \<longrightarrow>
      background_task w True (Inr ()) (rs @ qs) = background_task w True (Inr ()) rs)"
proof -
  have "fst (task_loop w rs) = concat (map (task_reports w) (takeWhile (\<lambda>r. \<not> fatal_receive w r) rs @
      take 1 (dropWhile (\<lambda>r. \<not> fatal_receive w r) rs)))"
    by (induction rs) (simp_all add: task_loop_Cons)
  moreover have "snd (task_loop w rs) = GoOn \<longleftrightarrow> (\<forall>r\<in>set rs. \<not> fatal_receive w r)"
    by (induction rs) (simp_all add: task_loop_Cons task_turn_summary(2))
  moreover have "task_loop w (rs @ qs) = task_loop w rs" if "snd (task_loop w rs) \<noteq> GoOn" for qs
    using that by (induction rs) (simp_all add: task_loop_Cons split: if_splits)
  ultimately show ?thesis by (simp add: background_task_def)
qed

definition three_receives :: "(string + bytes option) list" where
  "three_receives = [Inr None, Inr (Some [0, 0, 0, 9, 6]), Inr (Some [0, 0, 0, 0, 6])]"

text \<open>A truncated frame between two others.\<close>

theorem worker_serves_until_fatal_witness:
  "background_task (demo_worker demo_codecs) True (Inr ()) three_receives = ([], LoopPanics)"
proof -
  let ?w = "demo_worker demo_codecs"
  have len: "frame_len [0, 0, 0, 9, 6] = 9" by (simp add: frame_len_def from_be_bytes_def)
  then have body: "read_body 6 [0, 0, 0, 9, 6] = Panics" by (simp add: read_body_def slice_def)
  have turn: "task_turn ?w (Inr (Some [0, 0, 0, 9, 6])) = ([], LoopPanics)"
    by (simp add: task_turn_def body)
  have f: "fatal_receive ?w (Inr (Some [0, 0, 0, 9, 6]))"
    using len by (simp add: fatal_receive_def truncated_def)
  have o: "\<not> fatal_receive ?w (Inr None)" by (simp add: fatal_receive_def received_task_def)
  have r: "task_reports ?w (Inr None) = []" "task_reports ?w (Inr (Some [0, 0, 0, 9, 6])) = []"
    by (simp_all add: task_reports_def received_task_def body)
  have e: "snd (background_task ?w True (Inr ()) three_receives) = LoopPanics"
    using o f turn by (simp add: background_task_def three_receives_def task_loop_Cons)
  have "fst (background_task ?w True (Inr ()) three_receives) =
      concat (map (task_reports ?w) (takeWhile (\<lambda>r. \<not> fatal_receive ?w r) three_receives @
        take 1 (dropWhile (\<lambda>r. \<not> fatal_receive ?w r) three_receives)))"
    using worker_serves_until_fatal by blast
  also have "\<dots> = []" using o f r by (simp add: three_receives_def)
  finally show ?thesis using e by (simp add: prod_eq_iff)
qed

end
