(* ===== verification/CoreTests.thy ===== *)
theory CoreTests
  imports NngServer HubGuarantees
begin

text \<open>
  Tests of the core library, run on the model to validate it against the repository's own
  expectations: the unit tests of \<open>registry/mod.rs\<close>, \<open>scheduler/mod.rs\<close> and \<open>auth.rs\<close>, and the
  integration tests of \<open>compute-module-core/tests/integration_test.rs\<close>. Each test is a Boolean:
  the conjunction of its assertions, in order, over the same sequence of calls; an \<open>unwrap\<close> of
  nothing is \<open>False\<close>. What a test takes from the machine is an argument: the iteration orders of
  the hash maps, the clock, keys, signatures and the codecs. The lemmas say that the test passes
  for all of these, so that no test depends on the order in which a hash map happens to iterate.

  Left out: the test of a modified challenge, which tests the signature scheme, and the live
  progress test, which does not compile against the schema (its literal of \<open>TaskProgress\<close> lacks
  the field \<open>result_text\<close>).
\<close>

subsection \<open>Hash orders and profiles\<close>

text \<open>An iteration order for every finite map.\<close>

definition hash_order :: "(('k \<rightharpoonup> 'v) \<Rightarrow> 'k list) \<Rightarrow> bool" where
  "hash_order ord \<longleftrightarrow> (\<forall>m. finite (dom m) \<longrightarrow> iterates m (ord m))"

lemma hash_order_iterates: "hash_order ord \<Longrightarrow> finite (dom m) \<Longrightarrow> iterates m (ord m)"
  by (simp add: hash_order_def)

lemma hash_order_sorted: "hash_order (\<lambda>m. sorted_list_of_set (dom m))"
  by (simp add: hash_order_def iterates_def)

text \<open>The literal of most tests: a profile without capabilities and key.\<close>

definition plain_node :: "string \<Rightarrow> string \<Rightarrow> u64 \<Rightarrow> node_profile" where
  "plain_node i os seen = \<lparr>np_node_id = i, np_os_platform = os, np_capabilities = [],
     np_last_seen = seen, np_public_key = []\<rparr>"

lemma plain_node_simps [simp]:
  "np_node_id (plain_node i os seen) = i" "np_os_platform (plain_node i os seen) = os"
  "np_capabilities (plain_node i os seen) = []" "np_last_seen (plain_node i os seen) = seen"
  by (simp_all add: plain_node_def)

definition holds_in :: "'a option \<Rightarrow> ('a \<Rightarrow> bool) \<Rightarrow> bool" where
  "holds_in x P = (case x of Some v \<Rightarrow> P v | None \<Rightarrow> False)"

lemma holds_in_simps [simp]: "holds_in (Some v) P = P v" "holds_in None P = False"
  by (simp_all add: holds_in_def)

subsection \<open>The registry's tests\<close>

definition test_register_and_get_node :: bool where
  "test_register_and_get_node =
     (let profile = (plain_node ''test-node'' ''Linux'' 100)\<lparr>np_capabilities :=
            [\<lparr>cap_name = ''cores'', cap_val_type = ''int'', cap_value = ''4''\<rparr>]\<rparr>;
          reg = register_node registry_new profile
      in holds_in (get_node reg ''test-node'') (\<lambda>retrieved.
           np_node_id retrieved = ''test-node'' \<and> np_os_platform retrieved = ''Linux'' \<and>
           length (np_capabilities retrieved) = 1 \<and>
           cap_name (np_capabilities retrieved ! 0) = ''cores''))"

definition test_unregister_node :: bool where
  "test_unregister_node =
     (let reg = register_node registry_new (plain_node ''test-node'' ''Linux'' 100) in
      get_node reg ''test-node'' \<noteq> None \<and> get_node (unregister_node reg ''test-node'') ''test-node'' = None)"

definition test_list_nodes :: "((string \<rightharpoonup> node_profile) \<Rightarrow> string list) \<Rightarrow> bool" where
  "test_list_nodes order =
     (let reg = register_node (register_node registry_new (plain_node ''node-1'' ''macOS'' 100))
            (plain_node ''node-2'' ''Windows'' 200);
          list = list_nodes reg (order (rg_nodes reg))
      in length (list_nodes registry_new (order (rg_nodes registry_new))) = 0 \<and> length list = 2 \<and>
         list_ex (\<lambda>n. np_node_id n = ''node-1'') list \<and> list_ex (\<lambda>n. np_node_id n = ''node-2'') list)"

definition test_evict_offline_nodes :: bool where
  "test_evict_offline_nodes =
     (let reg = register_node (register_node registry_new (plain_node ''active-node'' ''Linux'' 900))
            (plain_node ''offline-node'' ''Linux'' 300);
          reg = evict_offline_nodes reg 1000 500
      in get_node reg ''active-node'' \<noteq> None \<and> get_node reg ''offline-node'' = None)"

text \<open>A key pair of the test, with the hex of its public key, its thumbprint and the signature.\<close>

definition test_authenticate_and_register_node_scenarios :: "('sk, 'vk, 'sg) crypto \<Rightarrow> 'sk \<Rightarrow> bool" where
  "test_authenticate_and_register_node_scenarios cr sk =
     (let pk_bytes = vk_to_sec1 cr (vk_of_sk cr sk);
          pk_hex = hex_encode cr pk_bytes;
          thumbprint = hex_encode cr (sha256 cr pk_bytes);
          challenge = as_bytes ''AUTH_CHALLENGE_01'';
          sig_hex = hex_encode cr (sig_to_der cr (ecdsa_sign cr sk challenge));
          profile = (plain_node ''secured-node'' ''macOS'' 100)\<lparr>np_public_key := pk_hex\<rparr>;
          (r1, res_unauth) = authenticate_and_register_node cr registry_new profile challenge sig_hex
            [''unauthorized_thumbprint''];
          (r2, res_bad_sig) = authenticate_and_register_node cr r1 profile challenge ''bad_signature_hex''
            [thumbprint];
          (r3, res_ok) = authenticate_and_register_node cr r2 profile challenge sig_hex [thumbprint]
      in res_unauth = Inl ''Node public key thumbprint not authorized in database'' \<and>
         isl res_bad_sig \<and> \<not> isl res_ok \<and> get_node r3 ''secured-node'' \<noteq> None)"

lemma registry_tests_pass:
  "test_register_and_get_node" "test_unregister_node" "test_evict_offline_nodes"
  by (simp_all add: test_register_and_get_node_def test_unregister_node_def
      test_evict_offline_nodes_def store_simps fresh_at_def)

lemma test_list_nodes_passes:
  assumes "hash_order order"
  shows "test_list_nodes order"
proof -
  let ?reg = "register_node (register_node registry_new (plain_node ''node-1'' ''macOS'' 100))
    (plain_node ''node-2'' ''Windows'' 200)"
  have inv: "registry_inv ?reg" and ok: "registry_ok ?reg" by (simp_all add: registry_inv_intros)
  have nodes: "rg_nodes ?reg = [''node-1'' \<mapsto> plain_node ''node-1'' ''macOS'' 100,
      ''node-2'' \<mapsto> plain_node ''node-2'' ''Windows'' 200]"
    by (simp add: register_node_def registry_new_def)
  have it: "iterates (rg_nodes ?reg) (order (rg_nodes ?reg))"
    using assms inv by (simp add: hash_order_iterates registry_inv_def)
  have "length (list_nodes ?reg (order (rg_nodes ?reg))) = card (dom (rg_nodes ?reg))"
    using ok iterates_length_values [OF it] by (simp add: list_nodes_def registry_ok_def)
  then have len: "length (list_nodes ?reg (order (rg_nodes ?reg))) = 2" by (simp add: nodes)
  have "get_node ?reg ''node-1'' = Some (plain_node ''node-1'' ''macOS'' 100)"
    and "get_node ?reg ''node-2'' = Some (plain_node ''node-2'' ''Windows'' 200)"
    by (simp_all add: store_simps)
  then have "plain_node ''node-1'' ''macOS'' 100 \<in> set (list_nodes ?reg (order (rg_nodes ?reg)))"
    and "plain_node ''node-2'' ''Windows'' 200 \<in> set (list_nodes ?reg (order (rg_nodes ?reg)))"
    unfolding set_list_nodes [OF ok it] by blast+
  then have "\<exists>n\<in>set (list_nodes ?reg (order (rg_nodes ?reg))). np_node_id n = ''node-1''"
    and "\<exists>n\<in>set (list_nodes ?reg (order (rg_nodes ?reg))). np_node_id n = ''node-2''"
    by (metis plain_node_simps(1))+
  moreover have "list_nodes registry_new ks = []" for ks
    by (simp add: list_nodes_def registry_new_def values_in_def List.map_filter_def filter_empty_conv)
  ultimately show ?thesis
    unfolding test_list_nodes_def Let_def list_ex_iff using len by (simp only: list.size simp_thms)
qed

text \<open>What this test relies on beyond \<open>crypto_laws\<close>: the hex decoder refuses what is not a hex
  digit.\<close>

definition hex_digits :: string where
  "hex_digits = ''0123456789abcdef''"

definition test_crypto_laws :: "('sk, 'vk, 'sg) crypto \<Rightarrow> bool" where
  "test_crypto_laws cr \<longleftrightarrow> crypto_laws cr \<and>
     (\<forall>s. \<not> list_all (\<lambda>c. c \<in> set (hex_digits @ ''ABCDEF'')) s \<longrightarrow> isl (hex_decode cr s))"

lemma test_authenticate_passes:
  assumes "test_crypto_laws cr"
  shows "test_authenticate_and_register_node_scenarios cr sk"
proof -
  have hex: "hex_decode cr (hex_encode cr b) = Inr b" and vk: "vk_from_sec1 cr (vk_to_sec1 cr v) = Some v"
    and sg: "sig_from_der cr (sig_to_der cr g) = Some g" and ver: "ecdsa_verify cr (vk_of_sk cr k) m (ecdsa_sign cr k m)"
    for b v g k m
    using assms by (simp_all add: test_crypto_laws_def crypto_laws_def)
  have bad: "isl (hex_decode cr ''bad_signature_hex'')" "isl (hex_decode cr ''unauthorized_thumbprint'')"
    using assms by (simp_all add: test_crypto_laws_def hex_digits_def)
  then obtain e where e: "hex_decode cr ''bad_signature_hex'' = Inl e" by (auto simp: isl_def)
  have th: "hex_encode cr b \<noteq> ''unauthorized_thumbprint''" for b
    using hex [of b] bad(2) by auto
  show ?thesis
    by (simp add: test_authenticate_and_register_node_scenarios_def Let_def
        authenticate_and_register_node_def thumbprint_hex_def verify_challenge_response_def
        hex vk sg ver e th store_simps)
qed

subsection \<open>The tests of the challenge check\<close>

definition test_ecdsa_verification_success :: "('sk, 'vk, 'sg) crypto \<Rightarrow> 'sk \<Rightarrow> bool" where
  "test_ecdsa_verification_success cr sk =
     (let pk_hex = hex_encode cr (vk_to_sec1 cr (vk_of_sk cr sk));
          challenge = as_bytes ''HIGH_ENTROPY_CHALLENGE_TOKEN_32B'';
          sig_hex = hex_encode cr (sig_to_der cr (ecdsa_sign cr sk challenge))
      in verify_challenge_response cr pk_hex challenge sig_hex)"

lemma test_ecdsa_passes: "crypto_laws cr \<Longrightarrow> test_ecdsa_verification_success cr sk"
  by (simp add: crypto_laws_def test_ecdsa_verification_success_def verify_challenge_response_def)

subsection \<open>The scheduler's tests\<close>

text \<open>The literal of the placement tests: a pending task with two retries and no payload.\<close>

definition bare_task :: "string \<Rightarrow> task_type \<Rightarrow> task" where
  "bare_task i ty = \<lparr>tk_id = i, tk_type = ty, tk_payload = [], tk_max_retries = 2, tk_state = Pending,
     tk_current_retry = 0, tk_required = []\<rparr>"

text \<open>The patterns of the tests' \<open>matches!\<close>.\<close>

fun is_RetryNeeded :: "execution_result \<Rightarrow> bool" where
  "is_RetryNeeded (RetryNeeded _) = True"
| "is_RetryNeeded _ = False"

fun is_ImmediateFailure :: "execution_result \<Rightarrow> bool" where
  "is_ImmediateFailure (ImmediateFailure _) = True"
| "is_ImmediateFailure _ = False"

fun is_CheckpointSaved :: "execution_result \<Rightarrow> bool" where
  "is_CheckpointSaved (CheckpointSaved _) = True"
| "is_CheckpointSaved _ = False"

fun is_Running :: "task_state \<Rightarrow> bool" where
  "is_Running (Running _ _) = True"
| "is_Running _ = False"

fun is_Failed :: "task_state \<Rightarrow> bool" where
  "is_Failed (Failed _) = True"
| "is_Failed _ = False"

definition test_schedule_missing_node :: bool where
  "test_schedule_missing_node \<longleftrightarrow>
     is_RetryNeeded (schedule_task registry_new (bare_task ''t1'' StatelessIdempotent) ''none'') \<and>
     is_RetryNeeded (schedule_task registry_new (bare_task ''t2'' StatefulLongRunning) ''none'') \<and>
     is_ImmediateFailure (schedule_task registry_new (bare_task ''t3'' InteractiveLowLatency) ''none'')"

definition test_schedule_stateless_node :: bool where
  "test_schedule_stateless_node =
     (let t1 = bare_task ''t1'' StatelessIdempotent;
          r1 = register_node registry_new (plain_node ''n1'' ''macOS'' 1200);
          r2 = register_node r1 (plain_node ''n2'' ''macOS'' 800)
      in schedule_task r1 t1 ''n1'' = Success \<and> is_RetryNeeded (schedule_task r2 t1 ''n2''))"

definition test_schedule_stateful_node :: bool where
  "test_schedule_stateful_node =
     (let t = bare_task ''t'' StatefulLongRunning;
          r = register_node registry_new (plain_node ''n1'' ''macOS'' 1200)
      in is_CheckpointSaved (schedule_task r t ''n1''))"

definition test_schedule_interactive_node :: bool where
  "test_schedule_interactive_node =
     (let t = bare_task ''t'' InteractiveLowLatency;
          r1 = register_node registry_new (plain_node ''n1'' ''macOS'' 600);
          r2 = register_node r1 (plain_node ''n2'' ''macOS'' 300)
      in schedule_task r1 t ''n1'' = Success \<and> is_ImmediateFailure (schedule_task r2 t ''n2''))"

lemma placement_tests_pass:
  "test_schedule_missing_node" "test_schedule_stateless_node" "test_schedule_stateful_node"
  "test_schedule_interactive_node"
  by (simp_all add: test_schedule_missing_node_def test_schedule_stateless_node_def
      test_schedule_stateful_node_def test_schedule_interactive_node_def schedule_task_def bare_task_def
      store_simps)

text \<open>The effect of one dispatch, for every order: the tasks dispatched are counted and named by
  the table alone, and each of them is running on a registered, capable node.\<close>

lemma dispatch_ids_iff:
  assumes "scheduler_ok s" and "sched_inv s" and "iterates (sc_tasks s) tks"
  shows "k \<in> fst ` set (snd (dispatch_pending_tasks reg s now nks tks)) \<longleftrightarrow>
    (\<exists>t. get_task s k = Some t \<and> dispatchable (list_nodes reg nks) t)"
  using assms(2) unfolding dispatched_ids [OF assms(1,3)]
  by (auto simp: sched_inv_def get_task_def split: if_splits)

lemma dispatch_count:
  assumes "scheduler_ok s" and "sched_inv s" and "iterates (sc_tasks s) tks" and "distinct ks"
    and "\<And>k t. get_task s k = Some t \<Longrightarrow> dispatchable (list_nodes reg nks) t \<longleftrightarrow> k \<in> set ks"
    and "\<And>k. k \<in> set ks \<Longrightarrow> get_task s k \<noteq> None"
  shows "length (snd (dispatch_pending_tasks reg s now nks tks)) = length ks"
    and "fst ` set (snd (dispatch_pending_tasks reg s now nks tks)) = set ks"
proof -
  let ?ds = "snd (dispatch_pending_tasks reg s now nks tks)"
  show e: "fst ` set ?ds = set ks"
    using assms(5,6) by (intro set_eqI) (simp only: dispatch_ids_iff [OF assms(1-3)], blast)
  have "length ?ds = card (set (map fst ?ds))"
    using distinct_card [OF distinct_dispatch [OF assms(2,3)]] by simp
  also have "\<dots> = length ks" using e distinct_card [OF assms(4)] by simp
  finally show "length ?ds = length ks" .
qed

lemma dispatch_runs:
  assumes "registry_ok reg" and "iterates (rg_nodes reg) nks"
    and "scheduler_ok s" and "iterates (sc_tasks s) tks" and "get_task s k = Some t"
    and "tk_state t = Pending" and "get_node reg i = Some n" and "node_matches_capabilities n (tk_required t)"
  shows "\<exists>j m. get_node reg j = Some m \<and>
    get_task (fst (dispatch_pending_tasks reg s now nks tks)) k = Some (assigned now m t)"
proof -
  have "dispatchable (list_nodes reg nks) t"
    using assms(6-8) dispatchable_list_nodes [OF assms(1,2)] by blast
  with get_task_dispatch [OF assms(3-5), of reg nks now] obtain m where
    "m \<in> set (list_nodes reg nks)"
    "get_task (fst (dispatch_pending_tasks reg s now nks tks)) k = Some (assigned now m t)"
    by (auto simp: set_capable_nodes)
  with set_list_nodes [OF assms(1,2)] show ?thesis by blast
qed

text \<open>Every assignment names a registered node, on which the task is then running.\<close>

lemma dispatch_pair:
  assumes "registry_ok reg" and "iterates (rg_nodes reg) nks"
    and "scheduler_ok s" and "sched_inv s" and "iterates (sc_tasks s) tks"
    and "(k, i) \<in> set (snd (dispatch_pending_tasks reg s now nks tks))"
  shows "\<exists>j n t. get_node reg j = Some n \<and> np_node_id n = i \<and>
    get_task (fst (dispatch_pending_tasks reg s now nks tks)) k = Some (assigned now n t)"
proof -
  have "k \<in> fst ` set (snd (dispatch_pending_tasks reg s now nks tks))" using assms(6) by force
  then obtain t where t: "get_task s k = Some t" "dispatchable (list_nodes reg nks) t"
    unfolding dispatch_ids_iff [OF assms(3-5)] by blast
  with get_task_dispatch [OF assms(3,5) t(1), of reg nks now] obtain n where
    n: "n \<in> set (list_nodes reg nks)"
    "get_task (fst (dispatch_pending_tasks reg s now nks tks)) k = Some (assigned now n t)"
    "(tk_id t, np_node_id n) \<in> set (snd (dispatch_pending_tasks reg s now nks tks))"
    by (auto simp: set_capable_nodes)
  have "tk_id t = k" using t(1) assms(4) by (simp add: sched_inv_def get_task_def split: if_splits)
  with n(3) assms(6) distinct_dispatch [OF assms(4,5)] have "np_node_id n = i"
    by (metis eq_key_imp_eq_value)
  with n set_list_nodes [OF assms(1,2)] show ?thesis by blast
qed

definition test_task_taxonomy_recovery_logic ::
    "((string \<rightharpoonup> node_profile) \<Rightarrow> string list) \<Rightarrow> ((string \<rightharpoonup> task) \<Rightarrow> string list) \<Rightarrow> bool" where
  "test_task_taxonomy_recovery_logic nodes_order tasks_order =
     (let t_stateless = task_new ''t-stateless'' StatelessIdempotent [1, 2] 2;
          t_stateful = task_new ''t-stateful'' StatefulLongRunning [3, 4] 2;
          t_interactive = task_new ''t-interactive'' InteractiveLowLatency [5, 6] 2;
          s = submit_task (submit_task (submit_task scheduler_new t_stateless) t_stateful) t_interactive;
          reg = register_node registry_new (plain_node ''n1'' ''macOS'' 1200);
          (s1, dispatches) = dispatch_pending_tasks reg s 1000 (nodes_order (rg_nodes reg)) (tasks_order (sc_tasks s));
          s2 = update_task_progress s1 ''t-stateful'' (CheckpointSaved [9, 9, 9]);
          s3 = handle_node_failure s2 ''n1''
      in length dispatches = 3 \<and>
         holds_in (get_task s1 ''t-stateless'') (\<lambda>t. is_Running (tk_state t)) \<and>
         holds_in (get_task s1 ''t-stateful'') (\<lambda>t. is_Running (tk_state t)) \<and>
         holds_in (get_task s1 ''t-interactive'') (\<lambda>t. is_Running (tk_state t)) \<and>
         holds_in (get_task s2 ''t-stateful'') (\<lambda>t. tk_payload t = [9, 9, 9]) \<and>
         holds_in (get_task s3 ''t-stateless'') (\<lambda>t. tk_state t = Pending \<and> tk_current_retry t = 1) \<and>
         holds_in (get_task s3 ''t-stateful'') (\<lambda>t. tk_state t = Pending \<and> tk_current_retry t = 1 \<and>
           tk_payload t = [9, 9, 9]) \<and>
         holds_in (get_task s3 ''t-interactive'') (\<lambda>t. is_Failed (tk_state t) \<and> tk_current_retry t = 0))"

definition test_capability_driven_dispatch ::
    "((string \<rightharpoonup> node_profile) \<Rightarrow> string list) \<Rightarrow> ((string \<rightharpoonup> task) \<Rightarrow> string list) \<Rightarrow> bool" where
  "test_capability_driven_dispatch nodes_order tasks_order =
     (let task_ffmpeg = with_capabilities (task_new ''t-ffmpeg'' StatelessIdempotent [] 1) [''ffmpeg_execution''];
          task_blender = with_capabilities (task_new ''t-blender'' StatelessIdempotent [] 1) [''blender_execution''];
          task_any = task_new ''t-any'' StatelessIdempotent [] 1;
          s = submit_task (submit_task (submit_task scheduler_new task_ffmpeg) task_blender) task_any;
          reg = register_node registry_new ((plain_node ''n1'' ''macOS'' 1200)\<lparr>np_capabilities :=
            [\<lparr>cap_name = ''creative_capability_ffmpeg'', cap_val_type = ''string'',
              cap_value = ''ffmpeg_execution''\<rparr>]\<rparr>);
          (s1, dispatches) = dispatch_pending_tasks reg s 1000 (nodes_order (rg_nodes reg)) (tasks_order (sc_tasks s))
      in length dispatches = 2 \<and> list_ex (\<lambda>d. fst d = ''t-ffmpeg'') dispatches \<and>
         list_ex (\<lambda>d. fst d = ''t-any'') dispatches \<and> \<not> list_ex (\<lambda>d. fst d = ''t-blender'') dispatches \<and>
         holds_in (get_task s1 ''t-blender'') (\<lambda>t. tk_state t = Pending))"

lemma test_task_taxonomy_passes:
  assumes "hash_order nodes_order" and "hash_order tasks_order"
  shows "test_task_taxonomy_recovery_logic nodes_order tasks_order"
proof -
  let ?a = "task_new ''t-stateless'' StatelessIdempotent [1, 2] 2"
  let ?b = "task_new ''t-stateful'' StatefulLongRunning [3, 4] 2"
  let ?c = "task_new ''t-interactive'' InteractiveLowLatency [5, 6] 2"
  let ?n = "plain_node ''n1'' ''macOS'' 1200"
  let ?reg = "register_node registry_new ?n"
  define s where "s = submit_task (submit_task (submit_task scheduler_new ?a) ?b) ?c"
  have ok: "scheduler_ok s" "sched_inv s" "registry_ok ?reg" "registry_inv ?reg"
    by (simp_all add: s_def sched_inv_intros registry_inv_intros)
  have nks: "iterates (rg_nodes ?reg) (nodes_order (rg_nodes ?reg))"
    and tks: "iterates (sc_tasks s) (tasks_order (sc_tasks s))"
    using assms ok by (simp_all add: hash_order_iterates registry_inv_def sched_inv_def)
  have "tk_id ?a = ''t-stateless''" "tk_id ?b = ''t-stateful''" "tk_id ?c = ''t-interactive''"
    by (simp_all add: task_new_def)
  then have get: "get_task s k = (if k = ''t-interactive'' then Some ?c else if k = ''t-stateful'' then Some ?b
      else if k = ''t-stateless'' then Some ?a else None)" for k
    by (simp add: s_def store_simps)
  obtain s1 ds where d: "dispatch_pending_tasks ?reg s 1000 (nodes_order (rg_nodes ?reg)) (tasks_order (sc_tasks s)) =
      (s1, ds)" by fastforce
  have run: "get_task s1 k = Some (assigned 1000 ?n t)" if "get_task s k = Some t" for k t
  proof -
    have t: "tk_state t = Pending" "tk_required t = []"
      using that by (auto simp: get task_new_def split: if_splits)
    have node: "get_node ?reg j = (if j = ''n1'' then Some ?n else None)" for j
      by (simp add: store_simps)
    have "\<exists>j m. get_node ?reg j = Some m \<and> get_task s1 k = Some (assigned 1000 m t)"
      using dispatch_runs [OF ok(3) nks ok(1) tks that t(1), of "''n1''" ?n 1000] node [of "''n1''"]
      by (simp add: t(2) d)
    then obtain j m where "get_node ?reg j = Some m" and s1: "get_task s1 k = Some (assigned 1000 m t)" by blast
    then have "m = ?n" using node [of j] by (simp split: if_splits)
    with s1 show ?thesis by simp
  qed
  have "dispatchable (list_nodes ?reg (nodes_order (rg_nodes ?reg))) t \<longleftrightarrow>
      k \<in> set [''t-stateless'', ''t-stateful'', ''t-interactive'']" if "get_task s k = Some t" for k t
  proof -
    have "tk_state t = Pending" "tk_required t = []"
      and k: "k \<in> set [''t-stateless'', ''t-stateful'', ''t-interactive'']"
      using that by (auto simp: get task_new_def split: if_splits)
    then have "dispatchable (list_nodes ?reg (nodes_order (rg_nodes ?reg))) t"
      unfolding dispatchable_list_nodes [OF ok(3) nks] by (auto simp: store_simps)
    with k show ?thesis by blast
  qed
  moreover have "get_task s k \<noteq> None" if "k \<in> set [''t-stateless'', ''t-stateful'', ''t-interactive'']" for k
    using that by (auto simp: get)
  ultimately have len: "length ds = 3"
    using dispatch_count(1) [OF ok(1,2) tks, of "[''t-stateless'', ''t-stateful'', ''t-interactive'']" ?reg
        "nodes_order (rg_nodes ?reg)" 1000]
    by (simp add: d)
  have s1: "get_task s1 ''t-stateless'' = Some (assigned 1000 ?n ?a)"
    "get_task s1 ''t-stateful'' = Some (assigned 1000 ?n ?b)"
    "get_task s1 ''t-interactive'' = Some (assigned 1000 ?n ?c)"
    by (simp_all add: run get)
  show ?thesis
    unfolding test_task_taxonomy_recovery_logic_def Let_def s_def [symmetric] d prod.case
    using len by (simp add: store_simps s1 lose_node_def retry_or_fail_def assigned_def task_new_def)
qed

lemma test_capability_driven_passes:
  assumes "hash_order nodes_order" and "hash_order tasks_order"
  shows "test_capability_driven_dispatch nodes_order tasks_order"
proof -
  let ?a = "with_capabilities (task_new ''t-ffmpeg'' StatelessIdempotent [] 1) [''ffmpeg_execution'']"
  let ?b = "with_capabilities (task_new ''t-blender'' StatelessIdempotent [] 1) [''blender_execution'']"
  let ?c = "task_new ''t-any'' StatelessIdempotent [] 1"
  define n where "n = (plain_node ''n1'' ''macOS'' 1200)\<lparr>np_capabilities :=
    [\<lparr>cap_name = ''creative_capability_ffmpeg'', cap_val_type = ''string'', cap_value = ''ffmpeg_execution''\<rparr>]\<rparr>"
  let ?reg = "register_node registry_new n"
  let ?ns = "list_nodes ?reg (nodes_order (rg_nodes ?reg))"
  define s where "s = submit_task (submit_task (submit_task scheduler_new ?a) ?b) ?c"
  have ok: "scheduler_ok s" "sched_inv s" "registry_ok ?reg" "registry_inv ?reg"
    by (simp_all add: s_def sched_inv_intros registry_inv_intros)
  have nks: "iterates (rg_nodes ?reg) (nodes_order (rg_nodes ?reg))"
    and tks: "iterates (sc_tasks s) (tasks_order (sc_tasks s))"
    using assms ok by (simp_all add: hash_order_iterates registry_inv_def sched_inv_def)
  have id: "tk_id ?c = ''t-any''" by (simp add: task_new_def)
  then have get: "get_task s k = (if k = ''t-any'' then Some ?c else if k = ''t-blender'' then Some ?b
      else if k = ''t-ffmpeg'' then Some ?a else None)" for k
    by (simp add: s_def store_simps)
  obtain s1 ds where d: "dispatch_pending_tasks ?reg s 1000 (nodes_order (rg_nodes ?reg)) (tasks_order (sc_tasks s)) =
      (s1, ds)" by fastforce
  have node: "get_node ?reg j = (if j = np_node_id n then Some n else None)" for j
    by (simp add: store_simps)
  have disp: "dispatchable ?ns t \<longleftrightarrow> tk_state t = Pending \<and> node_matches_capabilities n (tk_required t)" for t
    unfolding dispatchable_list_nodes [OF ok(3) nks] by (auto simp: node)
  have each: "dispatchable ?ns ?a" "\<not> dispatchable ?ns ?b" "dispatchable ?ns ?c"
    unfolding disp by (simp_all add: n_def node_matches_capabilities_def task_new_def with_capabilities_def)
  have "dispatchable ?ns t \<longleftrightarrow> k \<in> set [''t-ffmpeg'', ''t-any'']" if "get_task s k = Some t" for k t
    using that each by (auto simp: get simp del: task_new_fields split: if_splits)
  moreover have "get_task s k \<noteq> None" if "k \<in> set [''t-ffmpeg'', ''t-any'']" for k
    using that by (auto simp: get)
  ultimately have len: "length ds = 2" and ids: "fst ` set ds = {''t-ffmpeg'', ''t-any''}"
    using dispatch_count [OF ok(1,2) tks, of "[''t-ffmpeg'', ''t-any'']" ?reg "nodes_order (rg_nodes ?reg)" 1000]
    by (simp_all add: d)
  have ex: "list_ex (\<lambda>d. fst d = k) ds \<longleftrightarrow> k \<in> fst ` set ds" for k
    by (auto simp: list_ex_iff)
  have "get_task s1 ''t-blender'' = Some ?b"
    using get_task_dispatch [OF ok(1) tks, of "''t-blender''" ?b ?reg "nodes_order (rg_nodes ?reg)" 1000] each(2)
    by (simp add: get d)
  with len show ?thesis
    unfolding test_capability_driven_dispatch_def Let_def n_def [symmetric] s_def [symmetric] d prod.case
      ex ids
    by simp
qed

subsection \<open>The integration tests\<close>

definition make_test_node :: "string \<Rightarrow> u64 \<Rightarrow> node_profile" where
  "make_test_node i last_seen = \<lparr>np_node_id = i, np_os_platform = ''macOS'',
     np_capabilities = [\<lparr>cap_name = ''metal'', cap_val_type = ''bool'', cap_value = ''true''\<rparr>],
     np_last_seen = last_seen, np_public_key = []\<rparr>"

lemma make_test_node_simps [simp]:
  "np_node_id (make_test_node i seen) = i" "np_last_seen (make_test_node i seen) = seen"
  by (simp_all add: make_test_node_def)

text \<open>A profile is encoded, decoded, mapped to the registry's form and registered. The test maps
  the two kinds of value it uses itself.\<close>

definition proto_test_profile :: capability_profile where
  "proto_test_profile = \<lparr>cp_node_id = ''proto-node-99'', cp_os_platform = ''Linux'',
     cp_capabilities =
       [\<lparr>dc_resource_name = ''GPU'', dc_value_type = ''boolean'', dc_resource_value = Some (BoolVal True)\<rparr>,
        \<lparr>dc_resource_name = ''cpu_cores'', dc_value_type = ''integer'', dc_resource_value = Some (IntVal 8)\<rparr>],
     cp_updated_timestamp = 1716670000\<rparr>"

definition test_render :: "device_capability \<Rightarrow> capability" where
  "test_render c = \<lparr>cap_name = dc_resource_name c, cap_val_type = dc_value_type c,
     cap_value = (case dc_resource_value c of
         Some (BoolVal b) \<Rightarrow> show_bool b
       | Some (IntVal i) \<Rightarrow> show_int (sint i)
       | _ \<Rightarrow> [])\<rparr>"

definition test_e2e_protobuf_serialization_and_registration_lifecycle :: "capability_profile codec \<Rightarrow> bool" where
  "test_e2e_protobuf_serialization_and_registration_lifecycle codec =
     (case cd_decode codec (cd_encode codec proto_test_profile) of
        Inl _ \<Rightarrow> False
      | Inr decoded \<Rightarrow>
          cp_node_id decoded = ''proto-node-99'' \<and> cp_os_platform decoded = ''Linux'' \<and>
          length (cp_capabilities decoded) = 2 \<and>
          (let node_profile = \<lparr>np_node_id = cp_node_id decoded, np_os_platform = cp_os_platform decoded,
                 np_capabilities = map test_render (cp_capabilities decoded), np_last_seen = 1200,
                 np_public_key = []\<rparr>
           in holds_in (get_node (register_node registry_new node_profile) ''proto-node-99'') (\<lambda>retrieved.
                length (np_capabilities retrieved) = 2 \<and>
                cap_name (np_capabilities retrieved ! 0) = ''GPU'' \<and>
                cap_value (np_capabilities retrieved ! 0) = ''true'' \<and>
                cap_name (np_capabilities retrieved ! 1) = ''cpu_cores'' \<and>
                cap_value (np_capabilities retrieved ! 1) = ''8'')))"

lemma test_e2e_protobuf_passes:
  assumes "carries codec proto_test_profile"
  shows "test_e2e_protobuf_serialization_and_registration_lifecycle codec"
proof -
  have "sint (8 :: 64 word) = 8" by simp
  moreover have "show_nat 8 = ''8''" by (simp add: show_nat.simps digit_char_def char_of_eq_iff)
  ultimately show ?thesis
    using assms
    by (simp add: test_e2e_protobuf_serialization_and_registration_lifecycle_def carries_def
        proto_test_profile_def store_simps test_render_def show_bool_def show_int_def)
qed

definition test_e2e_swarm_registration_and_scheduling_lifecycle :: bool where
  "test_e2e_swarm_registration_and_scheduling_lifecycle =
     (let reg = register_node (register_node registry_new (make_test_node ''studio-node-1'' 1200))
            (make_test_node ''studio-node-2'' 300);
          stateless_task = task_new ''stateless-01'' StatelessIdempotent [1, 2, 3] 3;
          stateful_task = task_new ''stateful-01'' StatefulLongRunning [4, 5, 6] 3;
          interactive_task = task_new ''interactive-01'' InteractiveLowLatency [7, 8, 9] 1;
          reg' = unregister_node reg ''studio-node-1''
      in schedule_task reg stateless_task ''studio-node-1'' = Success \<and>
         is_CheckpointSaved (schedule_task reg stateful_task ''studio-node-1'') \<and>
         schedule_task reg interactive_task ''studio-node-1'' = Success \<and>
         is_RetryNeeded (schedule_task reg stateless_task ''studio-node-2'') \<and>
         is_ImmediateFailure (schedule_task reg interactive_task ''studio-node-2'') \<and>
         is_RetryNeeded (schedule_task reg' stateless_task ''studio-node-1'') \<and>
         is_ImmediateFailure (schedule_task reg' interactive_task ''studio-node-1''))"

lemma test_e2e_scheduling_passes: "test_e2e_swarm_registration_and_scheduling_lifecycle"
  by (simp add: test_e2e_swarm_registration_and_scheduling_lifecycle_def Let_def schedule_task_def
      task_new_def store_simps)

text \<open>The heartbeat through \<open>NngServer\<close>: the test's clock is read once, the server's (\<open>now\<close>) when
  the frame arrives. The frame carries the core library's own number for a profile.\<close>

definition nng_test_profile :: "u64 \<Rightarrow> capability_profile" where
  "nng_test_profile timestamp = \<lparr>cp_node_id = ''e2e-simulator-node-abc'', cp_os_platform = ''linux'',
     cp_capabilities =
       [\<lparr>dc_resource_name = ''cpu_cores'', dc_value_type = ''integer'', dc_resource_value = Some (IntVal 16)\<rparr>,
        \<lparr>dc_resource_name = ''total_memory_gb'', dc_value_type = ''float'', dc_resource_value = Some (DoubleVal (Fin 32))\<rparr>],
     cp_updated_timestamp = timestamp\<rparr>"

definition test_e2e_nng_transport_and_heartbeat_lifecycle ::
    "codecs \<Rightarrow> (fp \<Rightarrow> string) \<Rightarrow> u64 \<Rightarrow> u64 \<Rightarrow> bool" where
  "test_e2e_nng_transport_and_heartbeat_lifecycle cs show_f64 timestamp now =
     (let buf = cd_encode (c_profile cs) (nng_test_profile timestamp);
          framed = build_frame (message_type_u8 CapabilityProfile) buf;
          reg = nng_server_turn cs show_f64 now registry_new (Inr framed);
          evicted = evict_offline_nodes reg (timestamp + 10) 5
      in holds_in (get_node reg ''e2e-simulator-node-abc'') (\<lambda>node.
           np_os_platform node = ''linux'' \<and> length (np_capabilities node) = 2 \<and>
           holds_in (find (\<lambda>c. cap_name c = ''cpu_cores'') (np_capabilities node)) (\<lambda>c.
             cap_value c = ''16'' \<and> cap_val_type c = ''integer'') \<and>
           holds_in (find (\<lambda>c. cap_name c = ''total_memory_gb'') (np_capabilities node)) (\<lambda>c.
             cap_value c = ''32'' \<and> cap_val_type c = ''float'')) \<and>
         get_node evicted ''e2e-simulator-node-abc'' = None)"

text \<open>It passes when the server reads the clock at most five seconds after the test; a heartbeat
  delayed longer would survive the eviction.\<close>

lemma test_e2e_nng_passes:
  assumes "carries (c_profile cs) (nng_test_profile timestamp)" and "show_f64 (Fin 32) = ''32''"
    and "unat timestamp + 10 < 2 ^ 64" and "timestamp \<le> now" and "unat now \<le> unat timestamp + 5"
  shows "test_e2e_nng_transport_and_heartbeat_lifecycle cs show_f64 timestamp now"
proof -
  have reg: "nng_server_turn cs show_f64 now registry_new
      (Inr (build_frame (message_type_u8 CapabilityProfile) (cd_encode (c_profile cs) (nng_test_profile timestamp)))) =
      register_node registry_new (received_profile show_f64 now (nng_test_profile timestamp))"
    using nng_server_registers [OF assms(1)] by (simp add: frame_msg_def)
  have "unat (timestamp + 10) = unat timestamp + 10"
    using assms(3) by (simp add: unat_plus_if')
  then have "\<not> fresh_at (timestamp + 10) 5 (received_profile show_f64 now (nng_test_profile timestamp))"
    using assms(5) by (simp add: received_profile_fresh word_less_nat_alt)
  moreover have "show_nat 16 = ''16''" by (simp add: show_nat.simps digit_char_def char_of_eq_iff)
  ultimately show ?thesis
    unfolding test_e2e_nng_transport_and_heartbeat_lifecycle_def Let_def reg
    by (simp add: store_simps received_profile_def nng_test_profile_def core_capability_def
        render_value_def show_int_def assms(2))
qed

text \<open>A node is lost while it runs tasks. The test's loop over the tasks of the lost node and its
  loop over the assignments of the second dispatch are \<open>list_all\<close>.\<close>

definition runs_on :: "string \<Rightarrow> task \<Rightarrow> bool" where
  "runs_on node_id t = (case tk_state t of Running n _ \<Rightarrow> n = node_id | _ \<Rightarrow> False)"

definition recovered_as_expected :: "task \<Rightarrow> bool" where
  "recovered_as_expected t =
     (case tk_type t of
        StatelessIdempotent \<Rightarrow> tk_state t = Pending \<and> tk_current_retry t = 1
      | StatefulLongRunning \<Rightarrow> tk_state t = Pending \<and> tk_current_retry t = 1 \<and> tk_payload t = [10, 20, 30, 40]
      | InteractiveLowLatency \<Rightarrow> is_Failed (tk_state t) \<and> tk_current_retry t = 0)"

definition test_e2e_fault_injection_and_taxonomy_recovery_lifecycle ::
    "((string \<rightharpoonup> node_profile) \<Rightarrow> string list) \<Rightarrow> ((string \<rightharpoonup> task) \<Rightarrow> string list) \<Rightarrow> bool" where
  "test_e2e_fault_injection_and_taxonomy_recovery_lifecycle nodes_order tasks_order =
     (let reg = register_node (register_node registry_new (make_test_node ''node-primary'' 1000))
            (make_test_node ''node-backup'' 1000);
          t_stateless = task_new ''task-stateless'' StatelessIdempotent [1, 2, 3] 2;
          t_stateful = task_new ''task-stateful'' StatefulLongRunning [10, 20] 2;
          t_interactive = task_new ''task-interactive'' InteractiveLowLatency [100] 2;
          s = submit_task (submit_task (submit_task scheduler_new t_stateless) t_stateful) t_interactive;
          (s1, dispatches) = dispatch_pending_tasks reg s 1000 (nodes_order (rg_nodes reg)) (tasks_order (sc_tasks s));
          primary_tasks = filter (\<lambda>task_id. holds_in (get_task s1 task_id) (runs_on ''node-primary''))
            [''task-stateless'', ''task-stateful'', ''task-interactive''];
          s2 = update_task_progress s1 ''task-stateful'' (CheckpointSaved [10, 20, 30, 40]);
          reg' = unregister_node reg ''node-primary'';
          s3 = handle_node_failure s2 ''node-primary'';
          (s4, redispatches) = dispatch_pending_tasks reg' s3 1001 (nodes_order (rg_nodes reg')) (tasks_order (sc_tasks s3))
      in length dispatches = 3 \<and>
         holds_in (get_task s2 ''task-stateful'') (\<lambda>t. tk_payload t = [10, 20, 30, 40]) \<and>
         list_all (\<lambda>task_id. holds_in (get_task s3 task_id) recovered_as_expected) primary_tasks \<and>
         list_all (\<lambda>(task_id, node_id). node_id = ''node-backup'' \<and>
           holds_in (get_task s4 task_id) (runs_on ''node-backup'')) redispatches)"

lemma test_e2e_fault_injection_passes:
  assumes "hash_order nodes_order" and "hash_order tasks_order"
  shows "test_e2e_fault_injection_and_taxonomy_recovery_lifecycle nodes_order tasks_order"
proof -
  let ?a = "task_new ''task-stateless'' StatelessIdempotent [1, 2, 3] 2"
  let ?b = "task_new ''task-stateful'' StatefulLongRunning [10, 20] 2"
  let ?c = "task_new ''task-interactive'' InteractiveLowLatency [100] 2"
  define reg where "reg = register_node (register_node registry_new (make_test_node ''node-primary'' 1000))
    (make_test_node ''node-backup'' 1000)"
  define reg' where "reg' = unregister_node reg ''node-primary''"
  define s where "s = submit_task (submit_task (submit_task scheduler_new ?a) ?b) ?c"
  have ok: "scheduler_ok s" "sched_inv s" "registry_ok reg" "registry_inv reg" "registry_ok reg'" "registry_inv reg'"
    by (simp_all add: reg_def reg'_def s_def sched_inv_intros registry_inv_intros)
  have nks: "iterates (rg_nodes reg) (nodes_order (rg_nodes reg))" "iterates (rg_nodes reg') (nodes_order (rg_nodes reg'))"
    and tks: "iterates (sc_tasks s) (tasks_order (sc_tasks s))"
    using assms ok by (simp_all add: hash_order_iterates registry_inv_def sched_inv_def)
  have "tk_id ?a = ''task-stateless''" "tk_id ?b = ''task-stateful''" "tk_id ?c = ''task-interactive''"
    by (simp_all add: task_new_def)
  then have get: "get_task s k = (if k = ''task-interactive'' then Some ?c else if k = ''task-stateful'' then Some ?b
      else if k = ''task-stateless'' then Some ?a else None)" for k
    by (simp add: s_def store_simps)
  have node: "get_node reg ''node-backup'' = Some (make_test_node ''node-backup'' 1000)"
    by (simp add: reg_def store_simps)
  obtain s1 ds where d: "dispatch_pending_tasks reg s 1000 (nodes_order (rg_nodes reg)) (tasks_order (sc_tasks s)) =
      (s1, ds)" by fastforce
  have pending: "tk_state t = Pending \<and> tk_required t = [] \<and>
      k \<in> set [''task-stateless'', ''task-stateful'', ''task-interactive'']" if "get_task s k = Some t" for k t
    using that by (auto simp: get task_new_def split: if_splits)
  have run: "\<exists>m. get_task s1 k = Some (assigned 1000 m t)" if "get_task s k = Some t" for k t
    using dispatch_runs [OF ok(3) nks(1) ok(1) tks that _ node, of 1000] pending [OF that] by (auto simp: d)
  have "dispatchable (list_nodes reg (nodes_order (rg_nodes reg))) t \<longleftrightarrow>
      k \<in> set [''task-stateless'', ''task-stateful'', ''task-interactive'']" if "get_task s k = Some t" for k t
    using pending [OF that] node unfolding dispatchable_list_nodes [OF ok(3) nks(1)] by auto
  moreover have "get_task s k \<noteq> None" if "k \<in> set [''task-stateless'', ''task-stateful'', ''task-interactive'']" for k
    using that by (auto simp: get)
  ultimately have len: "length ds = 3"
    using dispatch_count(1) [OF ok(1,2) tks, of "[''task-stateless'', ''task-stateful'', ''task-interactive'']" reg
        "nodes_order (rg_nodes reg)" 1000]
    by (simp add: d)
  obtain ma mb mc where s1: "get_task s1 ''task-stateless'' = Some (assigned 1000 ma ?a)"
    "get_task s1 ''task-stateful'' = Some (assigned 1000 mb ?b)"
    "get_task s1 ''task-interactive'' = Some (assigned 1000 mc ?c)"
    using run [of "''task-stateless''" ?a] run [of "''task-stateful''" ?b] run [of "''task-interactive''" ?c]
    by (auto simp: get)
  define s2 where "s2 = update_task_progress s1 ''task-stateful'' (CheckpointSaved [10, 20, 30, 40])"
  define s3 where "s3 = handle_node_failure s2 ''node-primary''"
  have s1_ok: "scheduler_ok s1" "sched_inv s1"
    using ok(1,2) scheduler_ok_dispatch [of reg s] sched_inv_dispatch [of s reg] d by (metis fst_conv)+
  then have ok3: "scheduler_ok s3" "sched_inv s3" by (simp_all add: s2_def s3_def sched_inv_intros)
  then have tks3: "iterates (sc_tasks s3) (tasks_order (sc_tasks s3))"
    using assms(2) by (simp add: hash_order_iterates sched_inv_def)
  obtain s4 rs where r: "dispatch_pending_tasks reg' s3 1001 (nodes_order (rg_nodes reg')) (tasks_order (sc_tasks s3)) =
      (s4, rs)" by fastforce
  have "i = ''node-backup'' \<and> holds_in (get_task s4 k) (runs_on ''node-backup'')" if "(k, i) \<in> set rs" for k i
  proof -
    from dispatch_pair [OF ok(5) nks(2) ok3 tks3, of k i 1001] that obtain j n t where
      n: "get_node reg' j = Some n" "np_node_id n = i" "get_task s4 k = Some (assigned 1001 n t)"
      by (auto simp: r)
    from n(1) have "np_node_id n = ''node-backup''"
      by (auto simp: reg'_def reg_def store_simps split: if_splits)
    with n show ?thesis by (simp add: runs_on_def)
  qed
  then have "list_all (\<lambda>(task_id, node_id). node_id = ''node-backup'' \<and>
      holds_in (get_task s4 task_id) (runs_on ''node-backup'')) rs"
    by (auto simp: list_all_iff)
  moreover have "holds_in (get_task s2 ''task-stateful'') (\<lambda>t. tk_payload t = [10, 20, 30, 40])"
    by (simp add: s2_def store_simps s1)
  moreover have "list_all (\<lambda>task_id. holds_in (get_task s3 task_id) recovered_as_expected)
      (filter (\<lambda>task_id. holds_in (get_task s1 task_id) (runs_on ''node-primary''))
        [''task-stateless'', ''task-stateful'', ''task-interactive''])"
    by (simp add: s1 s2_def s3_def store_simps runs_on_def lose_node_def retry_or_fail_def assigned_def
        task_new_def recovered_as_expected_def)
  ultimately show ?thesis
    unfolding test_e2e_fault_injection_and_taxonomy_recovery_lifecycle_def Let_def reg_def [symmetric]
      s_def [symmetric] d prod.case reg'_def [symmetric] s2_def [symmetric] s3_def [symmetric] r
    using len by blast
qed

subsection \<open>A hex codec\<close>

text \<open>For concrete instances: hex digits as the \<open>hex\<close> crate writes and reads them.\<close>

definition nibble :: "char \<Rightarrow> nat option" where
  "nibble = map_of (zip (hex_digits @ ''ABCDEF'') ([0..<16] @ [10..<16]))"

fun hex_to :: "string \<Rightarrow> string + bytes" where
  "hex_to [] = Inr []"
| "hex_to [_] = Inl ''Odd number of digits''"
| "hex_to (c # d # s) =
     (case (nibble c, nibble d, hex_to s) of
        (Some a, Some b, Inr bs) \<Rightarrow> Inr (word_of_nat (16 * a + b) # bs)
      | _ \<Rightarrow> Inl ''Invalid character'')"

fun hex_of :: "bytes \<Rightarrow> string" where
  "hex_of [] = []"
| "hex_of (b # bs) = hex_digits ! (unat b div 16) # hex_digits ! (unat b mod 16) # hex_of bs"

lemma nibble_digit: "n < 16 \<Longrightarrow> nibble (hex_digits ! n) = Some n"
proof -
  assume "n < 16"
  then have "n \<in> set [0..<16]" by simp
  moreover have "list_all (\<lambda>n. nibble (hex_digits ! n) = Some n) [0..<16]"
    by (simp add: nibble_def hex_digits_def upt_rec)
  ultimately show ?thesis by (simp only: list_all_iff)
qed

lemma hex_round_trip: "hex_to (hex_of bs) = Inr bs"
proof (induction bs)
  case (Cons b bs)
  have "unat b < 256" using unsigned_less [of b, where ?'a = nat] by simp
  then have "nibble (hex_digits ! (unat b div 16)) = Some (unat b div 16)"
    and "nibble (hex_digits ! (unat b mod 16)) = Some (unat b mod 16)"
    by (simp_all add: nibble_digit less_mult_imp_div_less)
  with Cons.IH show ?case by simp
qed simp

lemma nibble_None: "nibble c = None \<longleftrightarrow> c \<notin> set (hex_digits @ ''ABCDEF'')"
  unfolding nibble_def by (rule map_of_zip_is_None) (simp add: hex_digits_def)

lemma hex_to_refuses: "\<not> list_all (\<lambda>c. c \<in> set (hex_digits @ ''ABCDEF'')) s \<Longrightarrow> isl (hex_to s)"
proof (induction s rule: hex_to.induct)
  case (3 c d s)
  then show ?case
    using nibble_None [of c] nibble_None [of d]
    by (auto split: option.splits sum.splits)
qed simp_all

definition hex_crypto :: "(u8, u8, bytes) crypto" where
  "hex_crypto = demo_crypto\<lparr>hex_decode := hex_to, hex_encode := hex_of\<rparr>"

lemma hex_crypto_laws: "test_crypto_laws hex_crypto"
  using demo_crypto_laws
  by (simp add: test_crypto_laws_def crypto_laws_def hex_crypto_def hex_round_trip hex_to_refuses demo_crypto_def)

end
