(* ===== verification/AgentTests.thy ===== *)
theory AgentTests
  imports Scout Election CoreTests
begin

text \<open>
  Tests of the node agent and of the provisioning tool, run on the model in the way of
  \<open>CoreTests\<close>: the unit tests of \<open>election/mod.rs\<close> and \<open>scout/mod.rs\<close> and the tests of
  \<open>tools/provision-keys\<close>. The clock readings of an election test and the host a scout test runs
  on are arguments. Left out: the integration test \<open>tests/transport_integration_test.rs\<close>, a mock
  server against the wall clock (\<open>WorkerProperties\<close> bounds every back-off instead).
\<close>

subsection \<open>The election's tests\<close>

type_synonym peers_order = "(string \<rightharpoonup> peer_info) \<Rightarrow> string list"

definition i_am_only_node_so_should_lead :: "peers_order \<Rightarrow> nat \<Rightarrow> bool" where
  "i_am_only_node_so_should_lead order t =
     (let st = election_new ''node-b'' in i_should_be_leader st t (order (el_peers st)))"

definition smaller_id_peer_means_i_should_not_lead :: "peers_order \<Rightarrow> nat \<Rightarrow> nat \<Rightarrow> bool" where
  "smaller_id_peer_means_i_should_not_lead order t1 t2 =
     (let st = observe_peer (election_new ''node-b'') t1 ''node-a'' in
      \<not> i_should_be_leader st t2 (order (el_peers st)))"

definition larger_id_peers_do_not_displace_me :: "peers_order \<Rightarrow> nat \<Rightarrow> nat \<Rightarrow> nat \<Rightarrow> bool" where
  "larger_id_peers_do_not_displace_me order t1 t2 t3 =
     (let st = observe_peer (observe_peer (election_new ''node-a'') t1 ''node-b'') t2 ''node-c'' in
      i_should_be_leader st t3 (order (el_peers st)))"

definition current_leader_returns_live_leader :: "peers_order \<Rightarrow> nat \<Rightarrow> nat \<Rightarrow> bool" where
  "current_leader_returns_live_leader order t1 t2 =
     (let st = observe_leader (election_new ''node-b'') t1 ''node-a'' ''192.168.1.10'' in
      case current_leader st t2 (order (el_peers st)) of
        Some (i, addr) \<Rightarrow> i = ''node-a'' \<and> addr = ''192.168.1.10''
      | None \<Rightarrow> False)"

definition clear_leader_flags_removes_leader :: "peers_order \<Rightarrow> nat \<Rightarrow> nat \<Rightarrow> bool" where
  "clear_leader_flags_removes_leader order t1 t2 =
     (let st = clear_leader_flags (observe_leader (election_new ''node-b'') t1 ''node-a'' ''192.168.1.10'') in
      current_leader st t2 (order (el_peers st)) = None)"

definition self_observe_is_ignored :: "peers_order \<Rightarrow> nat \<Rightarrow> nat \<Rightarrow> bool" where
  "self_observe_is_ignored order t1 t2 =
     (let st = observe_peer (election_new ''node-a'') t1 ''node-a'' in
      live_peer_count st t2 (order (el_peers st)) = 0)"

lemma singleton_order: "iterates [k \<mapsto> v] ks \<Longrightarrow> ks = [k]"
  by (cases ks; cases "tl ks") (auto simp: iterates_def)

lemma empty_order: "iterates Map.empty ks \<Longrightarrow> ks = []"
  by (simp add: iterates_def)

lemma election_tests_pass:
  assumes "hash_order order" and "t2 - t1 < PEER_TIMEOUT"
  shows "i_am_only_node_so_should_lead order t1"
    and "smaller_id_peer_means_i_should_not_lead order t1 t2"
    and "larger_id_peers_do_not_displace_me order t1 t1' t2"
    and "current_leader_returns_live_leader order t1 t2"
    and "clear_leader_flags_removes_leader order t1 t2"
    and "self_observe_is_ignored order t1 t2"
proof -
  have one: "order [k \<mapsto> v] = [k]" for k v
    by (rule singleton_order, rule hash_order_iterates [OF assms(1)]) simp
  have none: "order Map.empty = []"
    by (rule empty_order, rule hash_order_iterates [OF assms(1)]) simp
  show "i_am_only_node_so_should_lead order t1"
    by (simp add: i_am_only_node_so_should_lead_def i_should_be_leader_def none)
  show "smaller_id_peer_means_i_should_not_lead order t1 t2"
    using assms(2)
    by (simp add: smaller_id_peer_means_i_should_not_lead_def i_should_be_leader_def observe_peer_def
        peer_entry_def one live_at_def)
  show "current_leader_returns_live_leader order t1 t2"
    using assms(2)
    by (simp add: current_leader_returns_live_leader_def current_leader_def observe_leader_def
        peer_entry_def one live_at_def)
  show "clear_leader_flags_removes_leader order t1 t2"
    unfolding clear_leader_flags_removes_leader_def Let_def current_leader_def
    by (simp add: filter_empty_conv set_entries_in split_beta store_simps)
  show "self_observe_is_ignored order t1 t2"
    by (simp add: self_observe_is_ignored_def observe_peer_def live_peer_count_def none)
  define st where "st = observe_peer (observe_peer (election_new ''node-a'') t1 ''node-b'') t1' ''node-c''"
  have "el_my_id st = ''node-a''" by (simp add: st_def)
  moreover have "''node-a'' \<le> i" if "el_peers st i = Some p" for i p
    using that by (auto simp: st_def store_simps split: if_splits)
  ultimately show "larger_id_peers_do_not_displace_me order t1 t1' t2"
    unfolding larger_id_peers_do_not_displace_me_def Let_def st_def [symmetric] i_should_be_leader_def
    by (auto simp: list_all_iff set_entries_in)
qed

subsection \<open>The scout's tests\<close>

definition lists_name :: "string \<Rightarrow> discovered_capability list \<Rightarrow> bool" where
  "lists_name n caps = list_ex (\<lambda>c. di_name c = n) caps"

definition lists_resource :: "string \<Rightarrow> device_capability list \<Rightarrow> bool" where
  "lists_resource n caps = list_ex (\<lambda>c. dc_resource_name c = n) caps"

definition test_discover_capabilities_not_empty :: "host \<Rightarrow> bool" where
  "test_discover_capabilities_not_empty h =
     (let caps = discover_capabilities h in
      caps \<noteq> [] \<and> lists_name ''cpu_cores'' caps \<and> lists_name ''os_platform'' caps \<and>
      lists_name ''total_memory_gb'' caps \<and> lists_name ''has_cuda'' caps)"

definition test_discover_capabilities_platform_specific :: "host \<Rightarrow> bool" where
  "test_discover_capabilities_platform_specific h =
     (let caps = discover_capabilities h in
      if ho_os h = MacOS then lists_name ''metal_support'' caps else \<not> lists_name ''metal_support'' caps)"

definition test_scout_model_asynchronous_profilers :: "host \<Rightarrow> bool" where
  "test_scout_model_asynchronous_profilers h =
     (let caps = discover_capabilities_async h in
      caps \<noteq> [] \<and> lists_resource ''cpu_cores'' caps \<and> lists_resource ''total_memory_gb'' caps \<and>
      lists_resource ''cpu_class'' caps \<and> lists_resource ''accelerator_class'' caps \<and>
      lists_resource ''memory_tier'' caps \<and> lists_resource ''low_latency_ready'' caps \<and>
      filter (\<lambda>c. starts_with (dc_resource_name c) ''creative_capability_'') caps \<noteq> [])"

lemma scout_tests_pass:
  "test_discover_capabilities_not_empty h" "test_discover_capabilities_platform_specific h"
  by (simp_all add: test_discover_capabilities_not_empty_def test_discover_capabilities_platform_specific_def
      discover_capabilities_def lists_name_def)

lemmas cap_kinds = int_cap_def bool_cap_def float_cap_def string_cap_def

lemma lists_resource_mono: "set xs \<subseteq> set ys \<Longrightarrow> lists_resource n xs \<Longrightarrow> lists_resource n ys"
  by (auto simp: lists_resource_def list_ex_iff)

text \<open>The last assertion depends on the machine: it holds exactly where some application or
  command-line tool is installed.\<close>

lemma scout_async_passes_iff: "test_scout_model_asynchronous_profilers h \<longleftrightarrow> discovered_apps h \<noteq> []"
proof -
  let ?caps = "discover_capabilities_async h"
  have parts: "set (profile_caps (cpu_profile h)) \<subseteq> set ?caps" "set (profile_caps (memory_profile h)) \<subseteq> set ?caps"
    "set (adapt_to_medium_profile (ho_os h = MacOS) (raw_caps h)) \<subseteq> set ?caps"
    by (auto simp: discover_raw raw_caps_def)
  note found = lists_resource_mono [OF parts(1)] lists_resource_mono [OF parts(2)] lists_resource_mono [OF parts(3)]
  have names: "lists_resource ''cpu_cores'' ?caps" "lists_resource ''total_memory_gb'' ?caps"
    "lists_resource ''cpu_class'' ?caps" "lists_resource ''accelerator_class'' ?caps"
    "lists_resource ''memory_tier'' ?caps" "lists_resource ''low_latency_ready'' ?caps"
    by (rule found; simp add: lists_resource_def profile_caps_def cpu_profile_def memory_profile_def
        adapt_to_medium_profile_def Let_def cap_kinds; fail)+
  then have some: "?caps \<noteq> []" by (auto simp: lists_resource_def)
  let ?other = "\<lambda>c. \<not> starts_with (dc_resource_name c) ''creative_capability_''"
  have "list_all ?other (profile_caps (cpu_profile h))" "list_all ?other (profile_caps (gpu_profile h))"
    "list_all ?other (profile_caps (memory_profile h))" "list_all ?other (profile_caps (network_profile h))"
    "list_all ?other (profile_caps (software_profile h))"
    by (simp_all add: profile_caps_def cpu_profile_def gpu_profile_def memory_profile_def
        network_profile_def software_profile_def cap_kinds starts_with_def list_all_iff)
  then have raw: "list_all ?other (raw_caps h)" by (simp add: raw_caps_def)
  have "filter (\<lambda>c. starts_with (dc_resource_name c) ''creative_capability_'') ?caps =
      map creative_cap (discovered_apps h)"
    using raw
    by (simp add: discover_raw adapt_to_medium_profile_def medium_vars_raw Let_def filter_empty_conv
        cap_kinds starts_with_def creative_cap_def filter_map comp_def list_all_iff)
  with names some show ?thesis by (simp add: test_scout_model_asynchronous_profilers_def)
qed

subsection \<open>The provisioning tool's tests\<close>

definition test_generate_token_length :: "(nat \<Rightarrow> u8) \<Rightarrow> bool" where
  "test_generate_token_length rng \<longleftrightarrow> length (generate_token rng 16) = 16"

definition test_calculate_thumbprint_success :: "('sk, 'vk, 'sg) crypto \<Rightarrow> bool" where
  "test_calculate_thumbprint_success cr \<longleftrightarrow>
     (case calculate_thumbprint cr ''01020304'' of Inr thumb \<Rightarrow> length thumb = 64 | Inl _ \<Rightarrow> False)"

definition test_calculate_thumbprint_invalid_hex :: "('sk, 'vk, 'sg) crypto \<Rightarrow> bool" where
  "test_calculate_thumbprint_invalid_hex cr \<longleftrightarrow> isl (calculate_thumbprint cr ''not-hex'')"

definition test_validate_private_key :: "('sk, 'vk, 'sg) crypto \<Rightarrow> bool" where
  "test_validate_private_key cr \<longleftrightarrow>
     \<not> isl (validate_private_key cr ''aabbcc'') \<and> isl (validate_private_key cr ''nothex'')"

text \<open>What they rely on beyond the decoder's refusals: an even number of hex digits is decoded,
  a byte is written as two digits, a SHA-256 digest has 32 bytes.\<close>

definition hex_and_digest_laws :: "('sk, 'vk, 'sg) crypto \<Rightarrow> bool" where
  "hex_and_digest_laws cr \<longleftrightarrow> test_crypto_laws cr \<and>
     (\<forall>s. even (length s) \<longrightarrow> list_all (\<lambda>c. c \<in> set (hex_digits @ ''ABCDEF'')) s \<longrightarrow>
        \<not> isl (hex_decode cr s)) \<and>
     (\<forall>b. length (hex_encode cr b) = 2 * length b) \<and> (\<forall>b. length (sha256 cr b) = 32)"

lemma provision_tests_pass:
  assumes "hex_and_digest_laws cr"
  shows "test_generate_token_length rng" and "test_calculate_thumbprint_success cr"
    and "test_calculate_thumbprint_invalid_hex cr" and "test_validate_private_key cr"
proof -
  have refuse: "isl (hex_decode cr s)" if "\<not> list_all (\<lambda>c. c \<in> set (hex_digits @ ''ABCDEF'')) s" for s
    using assms that by (simp add: hex_and_digest_laws_def test_crypto_laws_def)
  have accept: "\<not> isl (hex_decode cr s)"
    if "even (length s)" and "list_all (\<lambda>c. c \<in> set (hex_digits @ ''ABCDEF'')) s" for s
    using assms that by (simp add: hex_and_digest_laws_def)
  have bad: "isl (hex_decode cr ''not-hex'')" "isl (hex_decode cr ''nothex'')"
    by (rule refuse, simp add: hex_digits_def)+
  have good: "\<not> isl (hex_decode cr ''01020304'')" "\<not> isl (hex_decode cr ''aabbcc'')"
    by (rule accept; simp add: hex_digits_def)+
  show "test_generate_token_length rng"
    by (simp add: test_generate_token_length_def generate_token_def fill_bytes_def)
  show "test_calculate_thumbprint_success cr"
    using good(1) assms
    by (auto simp: test_calculate_thumbprint_success_def calculate_thumbprint_def hex_and_digest_laws_def
        split: sum.splits)
  show "test_calculate_thumbprint_invalid_hex cr"
    using bad(1)
    by (auto simp: test_calculate_thumbprint_invalid_hex_def calculate_thumbprint_def split: sum.splits)
  show "test_validate_private_key cr"
    using bad(2) good(2) by (simp add: test_validate_private_key_def validate_private_key_def)
qed

lemma length_hex_of: "length (hex_of bs) = 2 * length bs"
  by (induction bs) simp_all

lemma hex_to_accepts:
  "even (length s) \<Longrightarrow> list_all (\<lambda>c. c \<in> set (hex_digits @ ''ABCDEF'')) s \<Longrightarrow> \<not> isl (hex_to s)"
proof (induction s rule: hex_to.induct)
  case (3 c d s)
  then have "nibble c \<noteq> None" and "nibble d \<noteq> None" and "\<not> isl (hex_to s)"
    unfolding nibble_None by simp_all
  then show ?case by (auto split: option.splits sum.splits)
qed simp_all

definition digest_crypto :: "(u8, u8, bytes) crypto" where
  "digest_crypto = hex_crypto\<lparr>sha256 := \<lambda>_. replicate 32 0\<rparr>"

lemma digest_crypto_laws: "hex_and_digest_laws digest_crypto"
  using hex_crypto_laws
  by (simp add: hex_and_digest_laws_def digest_crypto_def test_crypto_laws_def crypto_laws_def
      hex_crypto_def length_hex_of hex_to_accepts)

end
