(* ===== verification/AgentRuns.thy ===== *)
theory AgentRuns
  imports NodeRole NngServer
begin

text \<open>
  The endless tasks of a node from start to end: \<open>run_mdns_broadcaster\<close> and
  \<open>run_mdns_listener\<close> of the agent's \<open>transport/mod.rs\<close>, and the thread of the core library's
  \<open>NngServer\<close>. Each opens its socket and then repeats its turn; a failure to open is logged and
  ends the task, and \<open>main\<close> neither waits for the two mDNS tasks nor learns of their end.
\<close>

subsection \<open>The broadcaster\<close>

text \<open>Each turn finds some state of the shared election and asks for the local address; a failed
  send is ignored, so the datagrams are what the socket is given.\<close>

definition run_mdns_broadcaster ::
    "string \<Rightarrow> string + mdns_socket \<Rightarrow> (election \<times> string option) list \<Rightarrow> bytes list" where
  "run_mdns_broadcaster node_id socket turns =
     (case socket of
        Inl _ \<Rightarrow> []
      | Inr _ \<Rightarrow> concat (map (\<lambda>(e, local_ip). broadcaster_turn node_id e local_ip) turns))"

subsection \<open>The listener\<close>

text \<open>While the listener runs, it receives, or another task of the node changes the election.\<close>

datatype heard = Heard nat "string + bytes" | Elsewhere "election \<Rightarrow> election"

fun listen_on :: "election \<Rightarrow> heard list \<Rightarrow> election" where
  "listen_on e [] = e"
| "listen_on e (Heard now received # hs) = listen_on (listener_turn e now received) hs"
| "listen_on e (Elsewhere f # hs) = listen_on (f e) hs"

definition run_mdns_listener ::
    "string + mdns_socket \<Rightarrow> string + unit \<Rightarrow> string + unit \<Rightarrow> election \<Rightarrow> heard list \<Rightarrow> election" where
  "run_mdns_listener socket set_nonblocking from_std e hs =
     (if isl socket \<or> isl set_nonblocking \<or> isl from_std
      then foldl (\<lambda>e h. case h of Heard _ _ \<Rightarrow> e | Elsewhere f \<Rightarrow> f e) e hs
      else listen_on e hs)"

subsection \<open>The core library's heartbeat receiver\<close>

text \<open>\<open>NngServer::start\<close> and the registry after the receives of its thread, each with the clock
  of its heartbeat.\<close>

definition nng_server_run ::
    "codecs \<Rightarrow> (fp \<Rightarrow> string) \<Rightarrow> string + unit \<Rightarrow> (string \<Rightarrow> string + unit) \<Rightarrow> nng_server \<Rightarrow>
     (u64 \<times> (string + bytes)) list \<Rightarrow> string + registry" where
  "nng_server_run cs show_f64 new_socket listen ns received =
     (case nng_server_start new_socket listen ns of
        Inl e \<Rightarrow> Inl e
      | Inr _ \<Rightarrow> Inr (foldl (\<lambda>reg (now, r). nng_server_turn cs show_f64 now reg r)
          (ns_registry ns) received))"

subsection \<open>What a node hears\<close>

text \<open>What the other tasks of a node that does not lead do to its election: nothing, or forget the
  leaders (the role loop, on leaving a leader).\<close>

definition only_forgets :: "heard \<Rightarrow> bool" where
  "only_forgets h \<longleftrightarrow> (case h of Heard _ _ \<Rightarrow> True | Elsewhere f \<Rightarrow> f = id \<or> f = clear_leader_flags)"

lemma clear_no_peers: "el_peers e = Map.empty \<Longrightarrow> clear_leader_flags e = e"
  by (simp add: clear_leader_flags_def)

lemma deaf_election:
  assumes "list_all only_forgets hs" and "el_peers e = Map.empty"
  shows "foldl (\<lambda>e h. case h of Heard _ _ \<Rightarrow> e | Elsewhere f \<Rightarrow> f e) e hs = e"
  using assms
  by (induction hs) (auto simp: only_forgets_def clear_no_peers split: heard.splits)

lemma listen_on_unheard:
  assumes "list_all only_forgets hs" and "el_peers e = Map.empty"
    and "list_all (\<lambda>h. case h of Heard _ r \<Rightarrow> isl r | Elsewhere _ \<Rightarrow> True) hs"
  shows "listen_on e hs = e"
  using assms
  by (induction hs)
    (auto simp: only_forgets_def clear_no_peers listener_turn_def split: heard.splits sum.splits)

lemma lone_node_leads:
  assumes "iterates (el_peers (election_new i)) ks"
  shows "decide (election_new i) now ks now ks = Lead"
proof -
  have "ks = []" using assms by (simp add: iterates_def election_new_def)
  then show ?thesis
    by (simp add: decide_def current_leader_def i_should_be_leader_def election_new_def)
qed

text \<open>C40: A deaf node leads: if the listener of a node cannot be set up (the socket cannot be
  made, made non-blocking or registered), or hears nothing but errors (as with the fallback port,
  to which no announcement is sent), then whatever the others
  announce the node knows nobody, and its role loop takes the lead, beside whoever leads already;
  meanwhile its broadcaster, whose socket is another one, announces it like any other node.\<close>

theorem deaf_node_leads:
  assumes "list_all only_forgets hs"
    and "isl socket \<or> isl set_nonblocking \<or> isl from_std \<or>
      list_all (\<lambda>h. case h of Heard _ r \<Rightarrow> isl r | Elsewhere _ \<Rightarrow> True) hs"
    and "e = run_mdns_listener socket set_nonblocking from_std (election_new i) hs"
    and "iterates (el_peers e) ks"
    and "start_leading new_socket bind profile e = Returns (h, e')"
    and "run_mdns_broadcaster i (Inr s) [(e', ip)] = datagrams"
  shows "decide e now ks now ks = Lead \<and> am_i_leader e' \<and>
    (\<exists>base. as_bytes (leader_msg i base) \<in> set datagrams)"
proof -
  have "el_peers (election_new i) = Map.empty" by (simp add: election_new_def)
  then have e: "e = election_new i"
    using assms(1,2) deaf_election [OF assms(1)] listen_on_unheard [OF assms(1)]
    by (auto simp: assms(3) run_mdns_listener_def)
  have lead: "decide e now ks now ks = Lead" using lone_node_leads assms(4) by (simp add: e)
  have "e' = set_i_am_leader e True"
    using assms(5) by (rule start_leading_flag)
  then have "am_i_leader e'" by (simp add: am_i_leader_def set_i_am_leader_def)
  with lead assms(6) show ?thesis by (auto simp: run_mdns_broadcaster_def broadcaster_turn_def)
qed

theorem deaf_node_leads_witness:
  "\<exists>h e'. start_leading (\<lambda>_. True) (\<lambda>_. True) (demo_node ''node-9'' 5) (election_new ''node-9'') = Returns (h, e') \<and>
     decide (run_mdns_listener (Inr EphemeralPort) (Inr ()) (Inr ()) (election_new ''node-9'')
       [Heard 3 (Inl ''receive error''), Elsewhere clear_leader_flags]) 5 [] 5 [] = Lead \<and> am_i_leader e'"
proof -
  let ?hs = "[Heard 3 (Inl ''receive error''), Elsewhere clear_leader_flags]"
  let ?e = "run_mdns_listener (Inr EphemeralPort) (Inr ()) (Inr ()) (election_new ''node-9'') ?hs"
  have e: "?e = election_new ''node-9''"
    by (simp add: run_mdns_listener_def listener_turn_def election_new_def clear_leader_flags_def)
  have forgets: "list_all only_forgets ?hs" by (simp add: only_forgets_def)
  obtain h e' where run: "start_leading (\<lambda>_. True) (\<lambda>_. True) (demo_node ''node-9'' 5) ?e = Returns (h, e')"
    by (simp add: start_leading_if)
  have it: "iterates (el_peers ?e) []" unfolding e by (simp add: election_new_def iterates_def)
  have "isl (Inr EphemeralPort :: string + mdns_socket) \<or> isl (Inr () :: string + unit) \<or>
      isl (Inr () :: string + unit) \<or>
      list_all (\<lambda>h. case h of Heard _ r \<Rightarrow> isl r | Elsewhere _ \<Rightarrow> True) ?hs" by simp
  from deaf_node_leads [OF forgets this refl it run refl, where s = MdnsPort and ip = None and now = 5] run show ?thesis
    unfolding e by blast
qed

end
