(* ===== verification/ClientSession.thy ===== *)
theory ClientSession
  imports MediumCli HubGuarantees
begin

text \<open>
  The whole run of the medium interface (\<open>main\<close> of \<open>tools/swarm-medium\<close>): connecting, then the
  menu loop, over a script of what each round of the loop meets (the lines typed, the random
  name, the socket calls, what the progress socket delivers). Then the client against the hub's
  medium server: a submission, from the keys typed to the task in the hub's table and back.
\<close>

subsection \<open>The menu loop\<close>

text \<open>One round: the line of the choice and of the prompt (\<open>None\<close>: \<open>read_line\<close> fails and its
  \<open>unwrap\<close> panics), a version-4 UUID, the sending and the reply of the request socket, the
  clock at the start of the watch, and the clock readings and receives of the watch.\<close>

record round_io =
  rd_choice :: "string option"
  rd_prompt :: "string option"
  rd_uuid :: string
  rd_send :: "bytes \<Rightarrow> string + unit"
  rd_reply :: "string + bytes"
  rd_started :: nat
  rd_watch :: "(nat \<times> recv_result) list"

text \<open>What a round shows: a status (if one was received), nothing of consequence, or the watch on
  an accepted task.\<close>

datatype shown =
    Refreshed "swarm_status_response option"
  | BackToMenu
  | Watched string "(string \<times> fp) list" watch_end

text \<open>The submission part of a round, once the choice is one of the three tasks.\<close>

definition submit_round :: "codecs \<Rightarrow> rounding \<Rightarrow> string \<Rightarrow> round_io \<Rightarrow> menu \<Rightarrow> string \<Rightarrow> shown cli" where
  "submit_round cs rnd key r choice prompt =
     (case task_plan choice prompt of
        None \<Rightarrow> Continues BackToMenu
      | Some (category, cap, label, payload, timeout) \<Rightarrow>
         (case submit_request key (rd_uuid r) (category, cap, label, payload, timeout) of
            Panics \<Rightarrow> CliPanics
          | Returns req \<Rightarrow>
             (case submit_to_hub cs req (rd_send r) (rd_reply r) of
                Exits n \<Rightarrow> Exits n
              | CliPanics \<Rightarrow> CliPanics
              | Continues None \<Rightarrow> Continues BackToMenu
              | Continues (Some task_id) \<Rightarrow>
                  (case watch_progress cs rnd task_id (rd_started r + timeout * 1000000000)
                     (Fin (- 1)) (rd_watch r) of
                     (lines, e) \<Rightarrow> Continues (Watched task_id lines e)))))"

definition menu_round :: "codecs \<Rightarrow> rounding \<Rightarrow> string \<Rightarrow> round_io \<Rightarrow> shown cli" where
  "menu_round cs rnd key r =
     (case rd_choice r of
        None \<Rightarrow> CliPanics
      | Some line \<Rightarrow>
         (case menu_choice line of
            Quit \<Rightarrow> Exits 0
          | Status \<Rightarrow> Continues (Refreshed (refresh_status cs key (rd_send r) (rd_reply r)))
          | InvalidChoice \<Rightarrow> Continues BackToMenu
          | OllamaTask \<Rightarrow>
              (case rd_prompt r of
                 None \<Rightarrow> CliPanics
               | Some prompt \<Rightarrow> submit_round cs rnd key r OllamaTask prompt)
          | choice \<Rightarrow> submit_round cs rnd key r choice []))"

text \<open>The loop: what it has shown and whether it still runs. A watch that has not ended when its
  script does keeps the client in that round.\<close>

fun menu_loop :: "codecs \<Rightarrow> rounding \<Rightarrow> string \<Rightarrow> round_io list \<Rightarrow> shown list \<times> unit cli" where
  "menu_loop cs rnd key [] = ([], Continues ())"
| "menu_loop cs rnd key (r # rs) =
     (case menu_round cs rnd key r of
        Exits n \<Rightarrow> ([], Exits n)
      | CliPanics \<Rightarrow> ([], CliPanics)
      | Continues (Watched task_id lines StillWatching) \<Rightarrow>
          ([Watched task_id lines StillWatching], Continues ())
      | Continues s \<Rightarrow> (case menu_loop cs rnd key rs of (ss, e) \<Rightarrow> (s # ss, e)))"

text \<open>\<open>main\<close>: the first status, then the loop. A failed dial of the progress socket is only
  reported, so it does not show in the result.\<close>

definition medium_main ::
    "codecs \<Rightarrow> rounding \<Rightarrow> string option \<Rightarrow> string + unit \<Rightarrow> (bytes \<Rightarrow> string + unit) \<Rightarrow>
     string + bytes \<Rightarrow> round_io list \<Rightarrow> shown list \<times> unit cli" where
  "medium_main cs rnd key_line dial send reply rounds =
     (case key_line of
        None \<Rightarrow> ([], CliPanics)
      | Some line \<Rightarrow>
         (case cli_connect cs line dial send reply of
            Exits n \<Rightarrow> ([], Exits n)
          | CliPanics \<Rightarrow> ([], CliPanics)
          | Continues (key, status) \<Rightarrow> menu_loop cs rnd key rounds))"

subsection \<open>How a session ends\<close>

lemma submit_to_hub_no_exit: "submit_to_hub cs req send reply \<noteq> Exits n"
  by (simp add: submit_to_hub_def split: sum.split prod.split)

lemma submit_round_no_exit: "submit_round cs rnd key r choice prompt \<noteq> Exits n"
  by (auto simp: submit_round_def submit_to_hub_no_exit
      split: option.split outcome.split cli.split prod.split)

lemma menu_round_exit:
  "menu_round cs rnd key r = Exits n \<longleftrightarrow>
     n = 0 \<and> (\<exists>line. rd_choice r = Some line \<and> menu_choice line = Quit)"
  by (auto simp: menu_round_def submit_round_no_exit split: option.split menu.split)

lemma menu_choice_quit: "menu_choice line = Quit \<longleftrightarrow> trim line = ''q'' \<or> trim line = ''Q''"
  by (auto simp: menu_choice_def Let_def)

lemma menu_choice_empty: "menu_choice [] = InvalidChoice"
  by code_simp

lemma menu_loop_exit:
  "snd (menu_loop cs rnd key rs) = Exits n \<Longrightarrow>
     n = 0 \<and> (\<exists>r\<in>set rs. \<exists>line. rd_choice r = Some line \<and> menu_choice line = Quit)"
proof (induction rs)
  case (Cons r rs)
  then show ?case
    by (cases "menu_round cs rnd key r")
      (auto simp: menu_round_exit split: shown.splits watch_end.splits prod.splits)
qed simp

text \<open>The client leaves its menu only on request: a session that ends with an exit code
  after the connection ended with code 0, on a round where \<open>q\<close> was typed; and when the input is
  at its end (every line read is empty) it never ends, however many rounds it goes through.\<close>

theorem session_ends_on_quit:
  assumes "cli_connect cs line dial send reply = Continues (key, status)"
  shows "(snd (medium_main cs rnd (Some line) dial send reply rounds) = Exits n \<longrightarrow>
      n = 0 \<and> (\<exists>r\<in>set rounds. \<exists>l. rd_choice r = Some l \<and> (trim l = ''q'' \<or> trim l = ''Q''))) \<and>
    ((\<forall>r\<in>set rounds. rd_choice r = Some []) \<longrightarrow>
      medium_main cs rnd (Some line) dial send reply rounds =
        (replicate (length rounds) BackToMenu, Continues ()))"
proof -
  have main: "medium_main cs rnd (Some line) dial send reply rounds = menu_loop cs rnd key rounds"
    by (simp add: medium_main_def assms)
  have "menu_loop cs rnd key rounds = (replicate (length rounds) BackToMenu, Continues ())"
    if "\<forall>r\<in>set rounds. rd_choice r = Some []"
    using that by (induction rounds) (simp_all add: menu_round_def menu_choice_empty)
  then show ?thesis using menu_loop_exit [of cs rnd key rounds n] by (auto simp: main menu_choice_quit)
qed

definition chat_round :: "string \<Rightarrow> round_io" where
  "chat_round line = \<lparr>rd_choice = Some line, rd_prompt = None, rd_uuid = [],
     rd_send = (\<lambda>_. Inl ''timed out''), rd_reply = Inl ''timed out'', rd_started = 0, rd_watch = []\<rparr>"

definition quiet_status :: swarm_status_response where
  "quiet_status = \<lparr>sr_authorized = True, sr_node_count = 0, sr_available_capabilities = [],
     sr_message = ''ok''\<rparr>"

definition status_codecs :: codecs where
  "status_codecs = demo_codecs\<lparr>c_status_resp := one_message [1] quiet_status\<rparr>"

lemma status_codecs_connect:
  "cli_connect status_codecs ''key'' (Inr ()) (\<lambda>_. Inr ())
     (Inr (frame_msg 11 (c_status_resp status_codecs) quiet_status)) = Continues (''key'', quiet_status)"
proof -
  have c: "carries (c_status_resp status_codecs) quiet_status"
    by (simp add: status_codecs_def carries_one_message)
  have t: "trim ''key'' = ''key''" by code_simp
  show ?thesis
    by (simp add: cli_connect_def send_framed_def recv_frame_msg [OF c] decode_carried [OF c] t)
      (simp add: quiet_status_def)
qed

theorem session_ends_on_quit_witness:
  "medium_main status_codecs Fin (Some ''key'') (Inr ()) (\<lambda>_. Inr ())
     (Inr (frame_msg 11 (c_status_resp status_codecs) quiet_status)) [chat_round [], chat_round []] =
   ([BackToMenu, BackToMenu], Continues ())"
  using session_ends_on_quit [OF status_codecs_connect, of Fin "[chat_round [], chat_round []]" 0]
  by (simp add: chat_round_def)

subsection \<open>A submission at the hub\<close>

lemma submit_request_key:
  "submit_request key uuid plan = Returns req \<Longrightarrow> ts_access_key req = key"
  by (cases plan; cases "str_upto uuid 6") (auto simp: submit_request_def)

lemma medium_turn_submit:
  assumes "carries (c_submit_req (he_codecs env)) req"
  shows "medium_turn env h push now uuid nks tks
      (Received (frame_msg 12 (c_submit_req (he_codecs env)) req)) =
    medium_submit env h push now uuid nks tks req"
  by (simp add: medium_turn_def slice_frame_msg [OF assms] decode_carried [OF assms]
      frame_msg_long [THEN leD])

lemma submit_to_hub_reply:
  assumes "carries (c_submit_resp cs) resp" and "ta_accepted resp"
  shows "submit_to_hub cs req (\<lambda>_. Inr ()) (Inr (frame_msg 13 (c_submit_resp cs) resp)) =
    Continues (Some (ta_task_id resp))"
  by (simp add: submit_to_hub_def send_framed_def recv_frame_msg [OF assms(1)]
      decode_carried [OF assms(1)] assms(2))

text \<open>C13: A submission round trip: the request the client builds from a menu choice, sent to
  the hub's medium server, is accepted; the client goes on to watch exactly the id under which
  the hub has filed the task; and the filed task has the payload, the class and the one
  required capability of the choice, three retries, and runs on a registered node offering the
  capability if there is one, else is queued.\<close>

theorem submission_round_trip:
  fixes env :: "('sk, 'vk, 'sg) hub_env"
  assumes "task_plan choice prompt = Some (category, cap, label, payload, timeout)"
    and "submit_request key name_uuid (category, cap, label, payload, timeout) = Returns req"
    and "key \<noteq> []"
    and "carries (c_submit_req (he_codecs env)) req"
    and "str_upto uuid 8 = Returns short" and "k = ''medium-'' @ short"
    and "carries (c_submit_resp (he_codecs env)) \<lparr>ta_accepted = True, ta_task_id = k,
      ta_message = ''Task queued for dispatch to swarm''\<rparr>"
    and "registry_ok (hub_registry h)" and "iterates (rg_nodes (hub_registry h)) nks"
    and "scheduler_ok (hub_scheduler h)"
    and "iterates (sc_tasks (submit_task (hub_scheduler h) (submitted_task k req))) tks"
  shows "\<exists>out t reply. medium_turn env h push now uuid nks tks
      (Received (frame_msg 12 (c_submit_req (he_codecs env)) req)) = Serving out \<and>
    mo_reply out = Some reply \<and>
    submit_to_hub (he_codecs env) req (\<lambda>_. Inr ()) (Inr reply) = Continues (Some k) \<and>
    get_task (hub_scheduler (mo_hub out)) k = Some t \<and>
    tk_payload t = payload \<and> tk_required t = [cap] \<and> tk_max_retries t = 3 \<and>
    tk_type t = (if choice = StatefulTask then StatefulLongRunning else StatelessIdempotent) \<and>
    (if \<exists>i n. get_node (hub_registry h) i = Some n \<and> node_matches_capabilities n [cap]
     then \<exists>i n. get_node (hub_registry h) i = Some n \<and> node_matches_capabilities n [cap] \<and>
       tk_state t = Running (np_node_id n) now
     else tk_state t = Pending)"
proof -
  have req: "ts_access_key req = key" "ts_category req = category"
    "ts_required_capabilities req = [cap]" "ts_payload req = payload"
    using assms(2) by (cases "str_upto name_uuid 6"; force simp: submit_request_def)+
  have cls: "submitted_type category =
      (if choice = StatefulTask then StatefulLongRunning else StatelessIdempotent)"
    using assms(1) by (cases choice) (auto simp: task_plan_def submitted_type_def Let_def split: if_splits)
  obtain out t where out: "medium_submit env h push now uuid nks tks req = Serving out"
      "mo_reply out = Some (frame_msg 13 (c_submit_resp (he_codecs env))
        \<lparr>ta_accepted = True, ta_task_id = k, ta_message = ''Task queued for dispatch to swarm''\<rparr>)"
    and t: "get_task (hub_scheduler (mo_hub out)) k = Some t" "tk_payload t = payload"
      "tk_type t = submitted_type category" "tk_required t = [cap]" "tk_max_retries t = 3"
    and place: "if \<exists>i n. get_node (hub_registry h) i = Some n \<and> node_matches_capabilities n [cap]
      then \<exists>i n. get_node (hub_registry h) i = Some n \<and> node_matches_capabilities n [cap] \<and>
        tk_state t = Running (np_node_id n) now
      else tk_state t = Pending"
    using submission_effect [OF assms(5,6,8-11), of env push now,
        unfolded req if_not_P [OF assms(3)]] by (elim exE conjE) (rule that)
  have "submit_to_hub (he_codecs env) req (\<lambda>_. Inr ()) (Inr (frame_msg 13 (c_submit_resp (he_codecs env))
      \<lparr>ta_accepted = True, ta_task_id = k, ta_message = ''Task queued for dispatch to swarm''\<rparr>)) =
      Continues (Some k)"
    using submit_to_hub_reply [OF assms(7), of req] by simp
  then show ?thesis
    unfolding medium_turn_submit [OF assms(4)] using out t place cls
    by (intro exI conjI) (assumption | simp)+
qed

definition render_request :: task_submit_request where
  "render_request = \<lparr>ts_access_key = ''key'', ts_task_name = ''blender-scene-render-abcdef'',
     ts_category = 1, ts_required_capabilities = [''blender_execution''],
     ts_payload = as_bytes ''demo-payload''\<rparr>"

definition session_env :: "(u8, u8, bytes) hub_env" where
  "session_env = demo_env\<lparr>he_codecs := demo_codecs
     \<lparr>c_submit_req := one_message [1] render_request,
      c_submit_resp := one_message [2] \<lparr>ta_accepted = True, ta_task_id = ''medium-abcdefgh'',
        ta_message = ''Task queued for dispatch to swarm''\<rparr>\<rparr>\<rparr>"

theorem submission_round_trip_witness:
  "\<exists>out t reply. medium_turn session_env demo_hub1 (\<lambda>_. True) 9 ''abcdefgh-x'' [''n1''] [''medium-abcdefgh'']
      (Received (frame_msg 12 (c_submit_req (he_codecs session_env)) render_request)) = Serving out \<and>
    mo_reply out = Some reply \<and>
    submit_to_hub (he_codecs session_env) render_request (\<lambda>_. Inr ()) (Inr reply) =
      Continues (Some ''medium-abcdefgh'') \<and>
    get_task (hub_scheduler (mo_hub out)) ''medium-abcdefgh'' = Some t \<and>
    tk_payload t = as_bytes ''demo-payload''"
proof -
  have p: "task_plan StatefulTask [] =
      Some (1, ''blender_execution'', ''blender scene render'', as_bytes ''demo-payload'', 30)"
    by (simp add: task_plan_def)
  have u: "str_upto ''abcdefgh-x'' 8 = Returns ''abcdefgh''"
    and u6: "str_upto ''abcdef-x'' 6 = Returns ''abcdef''"
    by (simp_all add: str_upto_def cont_byte_def)
  have q: "submit_request ''key'' ''abcdef-x'' (1, ''blender_execution'', ''blender scene render'',
      as_bytes ''demo-payload'', 30) = Returns render_request"
    by (simp add: submit_request_def u6 replace_char_def render_request_def)
  have cs: "carries (c_submit_req (he_codecs session_env)) render_request"
    "carries (c_submit_resp (he_codecs session_env)) \<lparr>ta_accepted = True,
      ta_task_id = ''medium-abcdefgh'', ta_message = ''Task queued for dispatch to swarm''\<rparr>"
    by (simp_all add: session_env_def carries_one_message)
  have k: "''medium-abcdefgh'' = ''medium-'' @ ''abcdefgh''" by simp
  have n: "registry_ok (hub_registry demo_hub1)"
    "iterates (rg_nodes (hub_registry demo_hub1)) [''n1'']"
    by (simp, simp add: iterates_def register_node_def registry_new_def)
  have t: "scheduler_ok (hub_scheduler demo_hub1)"
    "iterates (sc_tasks (submit_task (hub_scheduler demo_hub1)
       (submitted_task ''medium-abcdefgh'' render_request))) [''medium-abcdefgh'']"
    by (simp, simp add: iterates_def submit_task_def scheduler_new_def)
  have ne: "''key'' \<noteq> []" by simp
  from submission_round_trip [OF p q ne cs(1) u k cs(2) n t, of "\<lambda>_. True" 9]
  show ?thesis by blast
qed

end
