(* ===== verification/Spec2Isabelle.thy ===== *)
theory Spec2Isabelle
  imports SwarmSystem HubRuns Cluster WorkerLoop AgentTests AgentRuns ClientSession
begin

text \<open>
  Seamless Swarm: a verification development for the Rust code of the repository.

  The program lets the machines of a local network pool their capabilities. Every machine runs
  the same node agent (\<open>software/host-background-agent\<close>). Nodes find each other over mDNS and
  elect the one with the least id as leader; the leader runs a hub
  (\<open>software/compute-module-core\<close>), the others join it as workers. A worker authenticates by
  signing the hub's challenge, sends the profile of its machine, pulls tasks from a shared
  socket, and reports progress. A person submits tasks and watches their progress with a
  console client (\<open>tools/swarm-medium\<close>). A small tool (\<open>tools/provision-keys\<close>) prepares keys.

  Theories, in the order they build on each other:

  \<^item> \<open>Prelude\<close>: machine types, panicking computations, slices, hash maps with their iteration
    orders, and the interfaces \<open>keyed_store\<close>, \<open>deleting_store\<close> and \<open>invariant_system\<close>.
    \<open>Utf8\<close>, \<open>RustStr\<close>, \<open>Floats\<close>: what the sources use of the standard library on bytes, text
    and floating-point numbers.
  \<^item> \<open>Framing\<close> and \<open>Proto\<close>: the frame around every message (four bytes of length, one of type)
    with its checked and unchecked readers, both instances of \<open>frame_reader\<close>; the messages of
    \<open>proto/topology.proto\<close> as records. The codecs are generated at build time and are
    parameters; \<open>carries\<close> is what a message needs of its codec.
  \<^item> \<open>Auth\<close>: \<open>auth.rs\<close>, \<open>secure_element.rs\<close>, the provisioning tool. The hex, SHA-256 and P-256
    libraries are a record of operations with the laws \<open>crypto_laws\<close> and \<open>key_file_laws\<close>.
  \<^item> \<open>Registry\<close> (\<open>registry/mod.rs\<close>), \<open>Scheduler\<close> and \<open>Dispatch\<close> (\<open>scheduler/mod.rs\<close>): the two
    tables of the hub, both keyed stores, and the assignment of pending tasks. \<open>Lifecycle\<close>: the
    histories of the task table, and the abstract life of a task which it refines.
  \<^item> \<open>HubServer\<close> (\<open>server.rs\<close>): one turn of each of the hub's five server loops.
    \<open>HubProperties\<close>: the hub as a transition system; \<open>HubGuarantees\<close>: its invariant and the
    effect of every message. \<open>HubRuns\<close>: each server from the opening of its socket to the error or panic that ends it.
    \<open>NngServer\<close> (\<open>transport/mod.rs\<close>): an older heartbeat receiver.
  \<^item> \<open>HubLocks\<close> and \<open>HubInterleaving\<close> (\<open>server.rs\<close> again): the same servers from one lock to the
    next, interleaved in every order the locks allow, with everything the steps push, answer and
    publish; a turn of \<open>HubServer\<close> is what one server's steps do when nothing comes between.
  \<^item> \<open>Election\<close> (\<open>election/mod.rs\<close>), with the interface \<open>elector\<close>, and \<open>Mdns\<close> (first part of the
    agent's \<open>transport/mod.rs\<close>): who leads, and what a node learns from announcements.
  \<^item> \<open>Scout\<close> (\<open>scout/\<close>): the profilers and the medium profile. \<open>Worker\<close> and \<open>WorkerProperties\<close>
    (the rest of the agent's \<open>transport/mod.rs\<close>): handshake, back-off, task loop, probing and
    execution; \<open>WorkerLoop\<close>: the worker's background task over everything it receives.
  \<^item> \<open>NodeRole\<close> (\<open>main.rs\<close>): leading, following and waiting as a transition system. \<open>Cluster\<close>:
    many nodes against one clock, with lost announcements and crashes. \<open>AgentRuns\<close>: the mDNS
    tasks of a node and the \<open>NngServer\<close> thread from start to end.
  \<^item> \<open>MediumCli\<close> and \<open>ClientSession\<close> (\<open>swarm-medium\<close>): the client's operations and its whole
    session, also against the hub. \<open>Swarm\<close>: a worker and the hub; \<open>SwarmSystem\<close>: the hub, its
    workers and the frames in flight between them, which may be lost, reordered and delivered to
    any worker.
  \<^item> \<open>CoreTests\<close> and \<open>AgentTests\<close>: tests of the repository as Booleans over the model. That they
    pass validates the model; these lemmas are no properties of the program. This theory:
    properties that span components.

  Correspondence. A struct is a record, an enumeration a datatype, a method a function from the
  old state to the new state and its result. State behind a lock that several owners share is
  one value, passed to each user. A panic is the value \<open>Panics\<close> (or \<open>Crashed\<close>), an error a
  \<open>Inl\<close>, a poisoned lock a flag. Integers keep their width and wrap; a \<open>usize\<close> has 64 bits. A
  \<open>String\<close> is its UTF-8 bytes. A hash map is a partial function; every operation that iterates
  over one takes the order as a list, and theorems hold for every order \<open>iterates\<close> accepts.
  Clocks, random values, sockets, files and child processes are arguments. A server's endless
  loop is given by its single turn, and its run by recursion over the list of what happens to
  it, so no fuel is needed anywhere; histories are sequences of steps (\<open>hub_step\<close>, \<open>micro_step\<close>,
  \<open>swarm_step\<close>, \<open>node_step\<close>, \<open>cluster_step\<close>, \<open>sched_run\<close>), and theorems about them hold for
  runs of any length. The hub names a submitted task by the first eight digits of a UUID and does
  not check that the name is new; \<open>micro_step\<close> and \<open>swarm_step\<close> take as an argument which UUIDs may
  be drawn, and where a theorem needs names that are new it says \<open>fresh_uuid\<close> in its statement
  (\<open>id_collision_mixes_tasks\<close> shows what happens otherwise).

  What is shown. Registry: eviction by age without wrap-around, registration only after a
  verified signature. Scheduler: dispatch is sound, complete, balanced and idempotent; every
  operation keeps the table's invariant and refines the life of a task; retries are bounded;
  node loss recovers each task by its class. Hub: the invariant of every reachable state, the
  effect of each message, the frames that crash a server, and what no server does. Election:
  the rule is the minimum, a converged group has one leader, gossip over the wire brings it
  about; failover works when the survivors hear each other. Worker: bounded back-off, well-formed
  reports, what ends its service. Interleaving: as long as task names are new, no task is
  pushed twice and the invariant holds however the servers' locks interleave; a dispatch always
  ends. End to end: a node can join, a submission is filed and watched under the same id, a task
  whose worker accepts and executes it completes when its reports are delivered; over lossy
  sockets, as long as task names are new, no task is executed twice and completion is earned. Some theorems record behaviour that the documents
  do not intend: a failed or lost report leaves its task running for ever (\<open>refusal_is_lost\<close>,
  \<open>lost_task_stays_running\<close>), a dispatch can use an outdated profile (\<open>stale_profile_dispatch\<close>),
  any worker executes a task whatever the hub chose (\<open>any_worker_executes\<close>), colliding ids mix
  tasks up (\<open>id_collision_mixes_tasks\<close>), one silent node ends
  authentication and two handshakes at once defeat each other (\<open>silent_node_ends_authentication\<close>,
  \<open>handshakes_collide\<close>), a newcomer can leave the swarm without a leader while it is heard
  (\<open>newcomer_orphans_swarm\<close>), a node leads at most once, a deaf node leads, the scout advertises
  what the executor refuses.

  Not modelled: log output (except the one line whose argument can panic), the texts of the
  console client's screen, command-line parsing, the firmware in C, the generated codecs, build
  scripts, and three tests: the one of a modified challenge (it tests the signature scheme), the
  live-progress test (it does not compile against the schema) and the agent's transport test (a
  mock server against the wall clock). Sockets, files and child processes are represented by the results of their
  calls; fairness and real time (that a delivered frame arrives, or within which delay) are not.
\<close>

subsection \<open>Properties\<close>

text \<open>C5: An undisturbed handshake succeeds: with sound cryptography and codecs that carry the four
  messages, the handshake attempt of a node with the hub's authentication server, in whatever
  state the hub is, ends with the node authenticated and holding the session token the hub
  drew, and no step of it fails or panics.\<close>

theorem handshake_succeeds:
  fixes env :: "('sk, 'vk, 'sg) hub_env" and w :: "('sk, 'vk, 'sg) worker_env"
  assumes "crypto_laws (he_crypto env)" and "we_crypto w = he_crypto env"
    and "we_codecs w = he_codecs env"
    and "pk = get_public_key (we_crypto w) (nc_secure_element c)"
    and "th = get_static_thumbprint (we_crypto w) (nc_secure_element c)"
    and "carries (c_challenge (he_codecs env)) \<lparr>hc_high_entropy_token = token, hc_timestamp = ts\<rparr>"
    and "carries (c_response (he_codecs env)) (response_msg w c pk th token)"
    and "carries (c_result (he_codecs env)) (auth_result True uuid (nc_node_id c) [])"
  shows "execute_handshake_attempt w c pk th (hub_peer env h token ts uuid) =
    Returns (Inr \<lparr>hs_authenticated = True, hs_session_token = uuid,
      hs_message = ''Welcome '' @ nc_node_id c @ '', swarm authentication granted!''\<rparr>)"
proof -
  obtain h1 where v: "auth_verdict env h token (response_msg w c pk th token) =
      (h1, True, nc_node_id c, [])"
    using verdict_on_own_response [OF assms(1,2)] assms(4) by blast
  note join = auth_join_frame [of env h token ts uuid c]
  note resp = auth_response_frame [OF assms(7) v, of token ts uuid]
  have "execute_handshake_attempt w c pk th (hub_peer env h token ts uuid) =
      Returns (accept_result (auth_result True uuid (nc_node_id c) []))"
    using assms(3) resp
    by (simp add: execute_handshake_attempt_def hub_peer_def join reply_of_def
        read_reply_frame [OF assms(6)] read_reply_frame [OF assms(8)] response_frame_def
        del: auth_turn.simps)
  then show ?thesis by (simp add: accept_result_def auth_result_def)
qed

definition handshake_codecs :: codecs where
  "handshake_codecs = demo_codecs
     \<lparr>c_challenge := one_message [1] \<lparr>hc_high_entropy_token = [1, 2], hc_timestamp = 9\<rparr>,
      c_response := one_message [2] (response_msg (demo_worker demo_codecs) demo_client [7] [7] [1, 2]),
      c_result := one_message [3] (auth_result True ''session'' ''n1'' [])\<rparr>"

definition handshake_env :: "(u8, u8, bytes) hub_env" where
  "handshake_env = demo_env\<lparr>he_codecs := handshake_codecs\<rparr>"

lemma demo_worker_simps [simp]:
  "we_codecs (demo_worker cs) = cs" "we_crypto (demo_worker cs) = demo_crypto"
  "we_log_info (demo_worker cs) = True"
  by (simp_all add: demo_worker_def)

lemma handshake_env_simps [simp]:
  "he_codecs handshake_env = handshake_codecs" "he_crypto handshake_env = demo_crypto"
  by (simp_all add: handshake_env_def)

theorem handshake_succeeds_witness:
  "execute_handshake_attempt (demo_worker handshake_codecs) demo_client [7] [7]
     (hub_peer handshake_env demo_hub [1, 2] 9 ''session'') =
   Returns (Inr \<lparr>hs_authenticated = True, hs_session_token = ''session'',
     hs_message = ''Welcome '' @ nc_node_id demo_client @ '', swarm authentication granted!''\<rparr>)"
proof (rule handshake_succeeds)
  show "crypto_laws (he_crypto handshake_env)" by (simp add: demo_crypto_laws)
  show "[7] = get_public_key (we_crypto (demo_worker handshake_codecs)) (nc_secure_element demo_client)"
    and "[7] = get_static_thumbprint (we_crypto (demo_worker handshake_codecs))
      (nc_secure_element demo_client)"
    by (simp_all add: get_public_key_def get_static_thumbprint_def demo_crypto_def demo_client_def)
  have r: "response_msg (demo_worker handshake_codecs) demo_client [7] [7] [1, 2] =
      response_msg (demo_worker demo_codecs) demo_client [7] [7] [1, 2]"
    by (simp add: response_msg_def)
  show "carries (c_challenge (he_codecs handshake_env))
      \<lparr>hc_high_entropy_token = [1, 2], hc_timestamp = 9\<rparr>"
    and "carries (c_response (he_codecs handshake_env))
      (response_msg (demo_worker handshake_codecs) demo_client [7] [7] [1, 2])"
    and "carries (c_result (he_codecs handshake_env)) (auth_result True ''session'' (nc_node_id demo_client) [])"
    unfolding r by (simp_all add: handshake_codecs_def carries_one_message demo_client_def)
qed simp_all

text \<open>C6: A dispatched task completes end to end, under these conditions: the worker that gets its
  frame accepts every required capability; when the first of them is \<open>ollama_execution\<close>, the
  program answers; every report reaches the hub's progress server whole and in order; and the
  client receives what is published before its deadline. Then the task is completed at the hub,
  a stateful task that is not for Ollama with the worker's checkpoint as its payload, any other
  with its payload unchanged; the reports are published unchanged when the publishing socket is
  open; and the client that watches the task sees it completed, with Ollama's answer.\<close>

theorem task_completes:
  fixes env :: "('sk, 'vk, 'sg) hub_env" and w :: "('sk, 'vk, 'sg) worker_env"
  assumes "we_codecs w = he_codecs env" and "get_task (hub_scheduler h) k = Some t"
    and "td = task_definition_of t k n" and "carries (c_task (he_codecs env)) td"
    and "\<forall>p\<in>set (fst (execute_task w td)). carries (c_progress (he_codecs env)) p"
    and "\<forall>cap\<in>set (tk_required t). fst (probe w cap)"
    and "if first_required td = ''ollama_execution'' then ollama_answers w td response else response = []"
    and "now < deadline"
  shows "\<exists>frames h'. task_turn w (Inr (Some (frame_msg 6 (c_task (he_codecs env)) td))) = (frames, GoOn) \<and>
    progress_run env h frames = Some (h', published_all h frames) \<and>
    get_task (hub_scheduler h') k = Some (t\<lparr>tk_state := Completed [],
      tk_payload := if tk_type t = StatefulLongRunning \<and> first_required td \<noteq> ''ollama_execution''
        then [88, 99, 111, 222] else tk_payload t\<rparr>) \<and>
    snd (watch_progress (he_codecs env) rnd k deadline (Fin (- 1))
      (map (\<lambda>f. (now, Received f)) frames)) = WatchCompleted response"
proof -
  have id: "td_task_id td = k" and req: "td_required_capabilities td = tk_required t"
    by (simp_all add: assms(3) task_definition_of_def)
  have cat: "td_category td = category_i32 STATEFUL_LONG_RUNNING \<longleftrightarrow> tk_type t = StatefulLongRunning"
    by (cases "tk_type t") (simp_all add: assms(3) task_definition_of_def)
  have capable: "list_all (\<lambda>cap. fst (probe w cap)) (td_required_capabilities td)"
    using assms(6) by (simp add: req list_all_iff)
  note watched = id assms(8) send_progress_frame [OF assms(1)] watch_own_terminal
    List.map_filter_simps
  show ?thesis
  proof (cases "first_required td = ''ollama_execution''")
    case True
    then have e: "execute_task w td = (ollama_reports td response, Returns ())"
      using assms(7) by (simp add: execute_task_capable [OF capable] execute_ollama_answers)
    have c: "\<forall>p\<in>set (ollama_reports td response). carries (c_progress (he_codecs env)) p"
      using assms(5) by (simp add: e)
    then have "snd (watch_progress (he_codecs env) rnd k deadline (Fin (- 1))
        (map (\<lambda>f. (now, Received f)) (map (send_progress w) (ollama_reports td response)))) =
        WatchCompleted response"
      unfolding watch_is_search by (simp add: ollama_reports_def watched)
    with task_turn_frame [of w td, OF _ e] assms(1,2,4) progress_run_ollama [OF assms(1) c, of h] True
    show ?thesis by (auto simp: get_task_update id)
  next
    case False
    then have e: "execute_task w td = (simulated_reports td, Returns ())" and r: "response = []"
      using assms(7) by (simp_all add: execute_task_capable [OF capable])
    have c: "\<forall>p\<in>set (simulated_reports td). carries (c_progress (he_codecs env)) p"
      using assms(5) by (simp add: e)
    then have "snd (watch_progress (he_codecs env) rnd k deadline (Fin (- 1))
        (map (\<lambda>f. (now, Received f)) (map (send_progress w) (simulated_reports td)))) = WatchCompleted []"
      unfolding watch_is_search by (simp add: simulated_reports_def watched)
    with task_turn_frame [of w td, OF _ e] assms(1,2,4)
      progress_run_simulated [OF assms(1) c, of h, unfolded cat id] False r
    show ?thesis by (auto simp: get_task_update)
  qed
qed

definition three_messages :: "'m \<Rightarrow> 'm \<Rightarrow> 'm \<Rightarrow> 'm codec" where
  "three_messages a b c =
     \<lparr>cd_encode = (\<lambda>m. if m = a then [1] else if m = b then [2] else [3]),
      cd_decode = (\<lambda>s. if s = [1] then Inr a else if s = [2] then Inr b
        else if s = [3] then Inr c else Inl ''decode error'')\<rparr>"

lemma carries_three_messages:
  "carries (three_messages a b c) a" "carries (three_messages a b c) b"
  "carries (three_messages a b c) c"
  by (simp_all add: carries_def three_messages_def)

definition flow_task :: task where
  "flow_task = (demo_task ''t1'')\<lparr>tk_state := Running ''n1'' 5, tk_type := StatefulLongRunning\<rparr>"

definition flow_definition :: task_definition where
  "flow_definition = task_definition_of flow_task ''t1'' ''n1''"

definition flow_env :: "(u8, u8, bytes) hub_env" where
  "flow_env = demo_env\<lparr>he_codecs := demo_codecs
     \<lparr>c_task := one_message [5] flow_definition,
      c_progress := three_messages (simulated_reports flow_definition ! 0)
        (simulated_reports flow_definition ! 1) (simulated_reports flow_definition ! 2)\<rparr>\<rparr>"

definition flow_hub :: hub where
  "flow_hub = demo_hub\<lparr>hub_scheduler := submit_task scheduler_new flow_task\<rparr>"

theorem task_completes_witness:
  "\<exists>frames h'. progress_run flow_env flow_hub frames = Some (h', published_all flow_hub frames) \<and>
     get_task (hub_scheduler h') ''t1'' = Some (flow_task\<lparr>tk_state := Completed [],
       tk_payload := [88, 99, 111, 222]\<rparr>)"
proof -
  let ?w = "demo_worker (he_codecs flow_env)"
  have w: "we_codecs ?w = he_codecs flow_env" by simp
  have t: "get_task (hub_scheduler flow_hub) ''t1'' = Some flow_task"
    by (simp add: flow_hub_def flow_task_def store_simps)
  have c: "carries (c_task (he_codecs flow_env)) flow_definition"
    by (simp add: flow_env_def carries_one_message)
  have r: "\<forall>cap\<in>set (tk_required flow_task). fst (probe ?w cap)"
    and q: "td_required_capabilities flow_definition = []"
    by (simp_all add: flow_task_def flow_definition_def task_definition_of_def)
  then have o: "if first_required flow_definition = ''ollama_execution''
      then ollama_answers ?w flow_definition [] else ([] :: string) = []"
    by (simp add: first_required_def)
  have "fst (execute_task ?w flow_definition) = simulated_reports flow_definition"
    using q by (simp add: execute_task_capable first_required_def)
  then have p: "\<forall>p\<in>set (fst (execute_task ?w flow_definition)). carries (c_progress (he_codecs flow_env)) p"
    unfolding flow_env_def
    by (simp add: carries_three_messages simulated_reports_def [of flow_definition])
  have ty: "tk_type flow_task = StatefulLongRunning" by (simp add: flow_task_def)
  have "first_required flow_definition \<noteq> ''ollama_execution''" using q by (simp add: first_required_def)
  with task_completes [OF w t flow_definition_def c p r o, of 0 1 Fin] ty show ?thesis by force
qed

text \<open>C21: A worker's refusal is lost at the hub: when some required capability fails the
  worker's probe, its only report is a failure, which a watching client sees but which leaves
  the hub's table as it was, so the task stays running on a node that has given it up.\<close>

theorem refusal_is_lost:
  fixes env :: "('sk, 'vk, 'sg) hub_env" and w :: "('sk, 'vk, 'sg) worker_env"
  assumes "we_codecs w = he_codecs env" and "td = task_definition_of t k n"
    and "carries (c_task (he_codecs env)) td" and "cap \<in> set (tk_required t)" and "\<not> fst (probe w cap)"
    and "report = progress_msg k FAILED (Fin 0) [] ''capability requirements unmet on this node'' []"
    and "carries (c_progress (he_codecs env)) report" and "now < deadline"
  shows "\<exists>frames. task_turn w (Inr (Some (frame_msg 6 (c_task (he_codecs env)) td))) = (frames, GoOn) \<and>
    progress_run env h frames = Some (h, published_all h frames) \<and>
    snd (watch_progress (he_codecs env) rnd k deadline (Fin (- 1))
      (map (\<lambda>f. (now, Received f)) frames)) =
      WatchFailed ''capability requirements unmet on this node''"
proof -
  have id: "td_task_id td = k" and req: "td_required_capabilities td = tk_required t"
    by (simp_all add: assms(2) task_definition_of_def)
  have "\<not> list_all (\<lambda>cap. fst (probe w cap)) (td_required_capabilities td)"
    using assms(4,5) by (auto simp: req list_all_iff)
  from execute_task_cases [OF this] have "execute_task w td = ([report], Returns ())"
    by (simp add: assms(6) id)
  then have turn: "task_turn w (Inr (Some (frame_msg 6 (c_task (he_codecs env)) td))) =
      ([send_progress w report], GoOn)"
    using task_turn_frame [of w td] assms(1,3) by simp
  have run: "progress_run env h [send_progress w report] =
      Some (h, published_all h [send_progress w report])"
    unfolding send_progress_frame [OF assms(1)] progress_run_step [OF assms(7)]
    by (simp add: assms(6) progress_result_simps published_to_append)
  have "watch_verdict (he_codecs env) k deadline (now, Received (send_progress w report)) =
      Some (WatchFailed ''capability requirements unmet on this node'')"
    using watch_own_terminal [OF assms(7,8)] by (simp add: assms(6) send_progress_frame [OF assms(1)])
  then have watch: "snd (watch_progress (he_codecs env) rnd k deadline (Fin (- 1))
      (map (\<lambda>f. (now, Received f)) [send_progress w report])) =
      WatchFailed ''capability requirements unmet on this node''"
    unfolding watch_is_search by (simp add: List.map_filter_simps)
  from turn run watch show ?thesis by (intro exI conjI)
qed

definition gimp_task :: task where
  "gimp_task = with_capabilities (demo_task ''t1'') [''gimp_execution'']"

definition refusal_env :: "(u8, u8, bytes) hub_env" where
  "refusal_env = demo_env\<lparr>he_codecs := demo_codecs
     \<lparr>c_task := one_message [5] (task_definition_of gimp_task ''t1'' ''n1''),
      c_progress := one_message [6] (progress_msg ''t1'' FAILED (Fin 0) []
        ''capability requirements unmet on this node'' [])\<rparr>\<rparr>"

lemma demo_worker_no_gimp: "\<not> fst (probe (demo_worker cs) ''gimp_execution'')"
proof -
  have "\<not> fst (probe (demo_worker cs) (''gimp'' @ ''_execution''))"
    by (subst probe_tool)
      (simp_all add: demo_worker_def title_case_def capitalize_def ascii_upper_def utf8_head_def
        byte_at_def as_bytes_def char_of_eq_iff take_bit_eq_mod)
  then show ?thesis by simp
qed

theorem refusal_is_lost_witness:
  "\<exists>frames. progress_run refusal_env busy_hub frames = Some (busy_hub, published_all busy_hub frames) \<and>
     snd (watch_progress (he_codecs refusal_env) Fin ''t1'' 9 (Fin (- 1))
       (map (\<lambda>f. (3, Received f)) frames)) =
       WatchFailed ''capability requirements unmet on this node''"
proof -
  let ?w = "demo_worker (he_codecs refusal_env)"
  let ?r = "progress_msg ''t1'' FAILED (Fin 0) [] ''capability requirements unmet on this node'' []"
  have w: "we_codecs ?w = he_codecs refusal_env" by simp
  have c: "carries (c_task (he_codecs refusal_env)) (task_definition_of gimp_task ''t1'' ''n1'')"
    by (simp add: refusal_env_def carries_one_message)
  have q: "''gimp_execution'' \<in> set (tk_required gimp_task)" by (simp add: gimp_task_def with_capabilities_def)
  have p: "carries (c_progress (he_codecs refusal_env)) ?r"
    by (simp add: refusal_env_def carries_one_message)
  have lt: "(3::nat) < 9" by simp
  from refusal_is_lost [OF w refl c q demo_worker_no_gimp refl p lt, of busy_hub Fin]
  show ?thesis by blast
qed

text \<open>C32: A colliding id mixes two tasks up: when the first eight digits of the UUID drawn for a
  submission are those of a task the hub already holds, the hub accepts the submission and the
  new task takes the old one's place in the table. When a worker that accepts the old task's
  capabilities then executes the old task (one that is not for Ollama) and its reports reach the
  hub whole and in order, they complete the new task, whether or not anybody has executed it: the
  hub holds it as completed, with the old task's checkpoint in place of its payload where the old
  task was stateful, and a client that watches its own submission and receives these reports
  before its deadline sees it completed.\<close>

theorem id_collision_mixes_tasks:
  fixes env :: "('sk, 'vk, 'sg) hub_env" and w :: "('sk, 'vk, 'sg) worker_env"
  assumes "str_upto uuid 8 = Returns short" and "k = ''medium-'' @ short"
    and "get_task (hub_scheduler h) k = Some old" and "td = task_definition_of old k n"
    and "ts_access_key req \<noteq> []" and "carries (c_submit_req (he_codecs env)) req"
    and "registry_ok (hub_registry h)" and "iterates (rg_nodes (hub_registry h)) nks"
    and "scheduler_ok (hub_scheduler h)"
    and "iterates (sc_tasks (submit_task (hub_scheduler h) (submitted_task k req))) tks"
    and "we_codecs w = he_codecs env" and "carries (c_task (he_codecs env)) td"
    and "\<forall>p\<in>set (simulated_reports td). carries (c_progress (he_codecs env)) p"
    and "\<forall>cap\<in>set (tk_required old). fst (probe w cap)"
    and "first_required td \<noteq> ''ollama_execution''" and "now' < deadline"
  shows "\<exists>out t frames h'. medium_turn env h send now uuid nks tks
        (Received (frame_msg 12 (c_submit_req (he_codecs env)) req)) = Serving out \<and>
    mo_reply out = Some (frame_msg 13 (c_submit_resp (he_codecs env))
      \<lparr>ta_accepted = True, ta_task_id = k, ta_message = ''Task queued for dispatch to swarm''\<rparr>) \<and>
    get_task (hub_scheduler (mo_hub out)) k = Some t \<and> tk_payload t = ts_payload req \<and>
    tk_required t = ts_required_capabilities req \<and> tk_current_retry t = 0 \<and>
    task_turn w (Inr (Some (frame_msg 6 (c_task (he_codecs env)) td))) = (frames, GoOn) \<and>
    progress_run env (mo_hub out) frames = Some (h', published_all (mo_hub out) frames) \<and>
    get_task (hub_scheduler h') k = Some (t\<lparr>tk_state := Completed [],
      tk_payload := if tk_type old = StatefulLongRunning then [88, 99, 111, 222] else ts_payload req\<rparr>) \<and>
    snd (watch_progress (he_codecs env) rnd k deadline (Fin (- 1))
      (map (\<lambda>f. (now', Received f)) frames)) = WatchCompleted []"
proof -
  have id: "td_task_id td = k" and req: "td_required_capabilities td = tk_required old"
    by (simp_all add: assms(4) task_definition_of_def)
  have cat: "td_category td = category_i32 STATEFUL_LONG_RUNNING \<longleftrightarrow> tk_type old = StatefulLongRunning"
    by (cases "tk_type old") (simp_all add: assms(4) task_definition_of_def)
  obtain out t where out: "medium_submit env h send now uuid nks tks req = Serving out"
      "mo_reply out = Some (frame_msg 13 (c_submit_resp (he_codecs env))
        \<lparr>ta_accepted = True, ta_task_id = k, ta_message = ''Task queued for dispatch to swarm''\<rparr>)"
    and t: "get_task (hub_scheduler (mo_hub out)) k = Some t" "tk_payload t = ts_payload req"
      "tk_required t = ts_required_capabilities req" "tk_current_retry t = 0"
    using submission_effect [OF assms(1,2,7-10), of env send now, unfolded if_not_P [OF assms(5)]]
    by (elim exE conjE) (rule that)
  have e: "execute_task w td = (simulated_reports td, Returns ())"
    using assms(14,15) by (simp add: execute_task_capable req list_all_iff)
  have watch: "snd (watch_progress (he_codecs env) rnd k deadline (Fin (- 1))
      (map (\<lambda>f. (now', Received f)) (map (send_progress w) (simulated_reports td)))) = WatchCompleted []"
    unfolding watch_is_search using assms(13,16) id
    by (simp add: simulated_reports_def send_progress_frame [OF assms(11)] watch_own_terminal
        List.map_filter_simps)
  have frames: "task_turn w (Inr (Some (frame_msg 6 (c_task (he_codecs env)) td))) =
      (map (send_progress w) (simulated_reports td), GoOn)"
    using task_turn_frame [of w td, OF _ e] assms(11,12) by simp
  show ?thesis
    unfolding medium_turn_submit [OF assms(6)]
    using out t watch frames progress_run_simulated [OF assms(11,13), of "mo_hub out", unfolded cat id]
    by (intro exI [of _ out] exI [of _ t]) (auto simp: get_task_update)
qed

definition old_task :: task where
  "old_task = (demo_task ''medium-abcdefgh'')\<lparr>tk_state := Running ''n1'' 5, tk_type := StatefulLongRunning\<rparr>"

definition old_definition :: task_definition where
  "old_definition = task_definition_of old_task ''medium-abcdefgh'' ''n1''"

definition collision_env :: "(u8, u8, bytes) hub_env" where
  "collision_env = demo_env\<lparr>he_codecs := demo_codecs
     \<lparr>c_submit_req := one_message [9] demo_submit, c_task := one_message [5] old_definition,
      c_progress := three_messages (simulated_reports old_definition ! 0)
        (simulated_reports old_definition ! 1) (simulated_reports old_definition ! 2)\<rparr>\<rparr>"

definition collision_hub :: hub where
  "collision_hub = demo_hub1\<lparr>hub_scheduler := submit_task scheduler_new old_task\<rparr>"

theorem id_collision_mixes_tasks_witness:
  "\<exists>out t h' frames. medium_turn collision_env collision_hub (\<lambda>_. True) 9 ''abcdefgh-x'' [''n1'']
      [''medium-abcdefgh''] (Received (frame_msg 12 (c_submit_req (he_codecs collision_env)) demo_submit)) =
      Serving out \<and>
    tk_payload t = ts_payload demo_submit \<and>
    progress_run collision_env (mo_hub out) frames = Some (h', published_all (mo_hub out) frames) \<and>
    get_task (hub_scheduler h') ''medium-abcdefgh'' =
      Some (t\<lparr>tk_state := Completed [], tk_payload := [88, 99, 111, 222]\<rparr>)"
proof -
  let ?w = "demo_worker (he_codecs collision_env)"
  have u: "str_upto ''abcdefgh-x'' 8 = Returns ''abcdefgh''" by (simp add: str_upto_def cont_byte_def)
  have k: "''medium-abcdefgh'' = ''medium-'' @ ''abcdefgh''" by simp
  have t: "get_task (hub_scheduler collision_hub) ''medium-abcdefgh'' = Some old_task"
    by (simp add: collision_hub_def old_task_def store_simps)
  have key: "ts_access_key demo_submit \<noteq> []" by (simp add: demo_submit_def)
  have cs: "carries (c_submit_req (he_codecs collision_env)) demo_submit"
    "carries (c_task (he_codecs collision_env)) old_definition"
    by (simp_all add: collision_env_def carries_one_message)
  have n: "registry_ok (hub_registry collision_hub)"
    "iterates (rg_nodes (hub_registry collision_hub)) [''n1'']"
    by (simp add: collision_hub_def, simp add: collision_hub_def iterates_def register_node_def registry_new_def)
  have s: "scheduler_ok (hub_scheduler collision_hub)"
    "iterates (sc_tasks (submit_task (hub_scheduler collision_hub)
       (submitted_task ''medium-abcdefgh'' demo_submit))) [''medium-abcdefgh'']"
    by (simp add: collision_hub_def,
      simp add: collision_hub_def old_task_def iterates_def submit_task_def scheduler_new_def)
  have p: "\<forall>p\<in>set (simulated_reports old_definition). carries (c_progress (he_codecs collision_env)) p"
    unfolding collision_env_def
    by (simp add: carries_three_messages simulated_reports_def [of old_definition])
  have r: "\<forall>cap\<in>set (tk_required old_task). fst (probe ?w cap)"
    and o: "first_required old_definition \<noteq> ''ollama_execution''"
    by (simp_all add: old_task_def old_definition_def task_definition_of_def first_required_def)
  have ty: "tk_type old_task = StatefulLongRunning" by (simp add: old_task_def)
  have w: "we_codecs ?w = he_codecs collision_env" by simp
  from id_collision_mixes_tasks [OF u k t old_definition_def key cs(1) n s w cs(2) p r o,
      of 0 1 "\<lambda>_. True" 9 Fin, unfolded ty]
  show ?thesis by (simp only: simp_thms if_True zero_less_one) blast
qed

subsection \<open>The scout's promise and the executor's verdict\<close>

lemma creative_caps_match:
  assumes "name \<in> set (discovered_apps host)"
  shows "node_matches_capabilities (heartbeat_profile show_f64
      (profile_msg c os now_secs (discover_capabilities_async host))) [name @ ''_execution'']"
proof -
  have "creative_cap name \<in> set (discover_capabilities_async host)"
    using assms by (simp add: discover_raw adapt_to_medium_profile_def medium_vars_raw Let_def)
  then have "cap_value (core_capability show_f64 (creative_cap name)) \<in>
      set (map cap_value (np_capabilities (heartbeat_profile show_f64
        (profile_msg c os now_secs (discover_capabilities_async host)))))"
    by (simp add: heartbeat_profile_def profile_msg_def)
  then show ?thesis
    by (simp add: node_matches_capabilities_def core_capability_def creative_cap_def string_cap_def
        render_value_def)
qed

text \<open>C22: The scout promises what the executor refuses: a command-line tool other than ffmpeg,
  blender, handbrake, inkscape and claude that is found on the node's path makes the hub take
  the node for capable of it, but the node's own probe looks only for an application bundle
  and rejects the capability where there is none (as on a Linux host), so the hub assigns tasks
  to nodes that always refuse them.\<close>

theorem advertised_but_refused:
  assumes "exists_by_components host" and "ho_apps_joined host"
    and "(exe, name) \<in> set KNOWN_CLI_TOOLS"
    and "name \<notin> {''ffmpeg'', ''blender'', ''handbrake'', ''inkscape'', ''claude''}"
    and "d \<in> tool_dirs host" and "ho_exists host (path_join d exe)"
    and "we_exists w = ho_exists host"
    and "\<not> ho_exists host (''/Applications/'' @ title_case w name @ ''.app'')"
  shows "node_matches_capabilities (heartbeat_profile show_f64
      (profile_msg c os now_secs (discover_capabilities_async host))) [name @ ''_execution''] \<and>
    \<not> fst (probe w (name @ ''_execution''))"
proof -
  have "\<exists>d\<in>set (search_dirs host). ho_exists host (path_join d exe)"
    using tool_found_iff [OF assms(1,3)] assms(5,6) by blast
  then have "name \<in> set (discover_cli_tools host)"
    using assms(3) by (force simp: discover_cli_tools_def list_ex_iff)
  then have "name \<in> set (discovered_apps host)" by (simp add: set_discovered_apps [OF assms(2)])
  from creative_caps_match [OF this] show ?thesis
    using probe_tool [OF assms(4), of w] assms(7,8) by simp
qed

definition linux_worker :: "(u8, u8, bytes) worker_env" where
  "linux_worker = (demo_worker demo_codecs)\<lparr>we_exists := ho_exists demo_host\<rparr>"

theorem advertised_but_refused_witness:
  "node_matches_capabilities (heartbeat_profile (\<lambda>_. [])
      (profile_msg demo_client ''linux'' 0 (discover_capabilities_async demo_host)))
      [''ollama'' @ ''_execution''] \<and>
    \<not> fst (probe linux_worker (''ollama'' @ ''_execution''))"
proof (rule advertised_but_refused)
  show "(''ollama'', ''ollama'') \<in> set KNOWN_CLI_TOOLS" by (simp add: KNOWN_CLI_TOOLS_def)
  show "ho_apps_joined demo_host" by (simp add: demo_host_def)
  show "we_exists linux_worker = ho_exists demo_host" by (simp add: linux_worker_def)
  show "\<not> ho_exists demo_host (''/Applications/'' @ title_case linux_worker ''ollama'' @ ''.app'')"
    by (simp add: demo_host_def path_components_def starts_with_def split_on_append)
  show "''/usr/bin'' \<in> tool_dirs demo_host" by (rule demo_host_dirs)
  show "ho_exists demo_host (path_join ''/usr/bin'' ''ollama'')" by (rule demo_host_ollama)
qed (simp_all add: demo_host_exists)

end
